(* ===== verification/Prelude.thy ===== *)
theory Prelude
  imports Complex_Main "HOL-Library.Word" "HOL-Library.List_Lexorder"
begin

text \<open>
  Shared vocabulary of the development: Python strings as lists of code points, UUIDs, datetimes,
  exceptions and the results that carry them, computations that change a state and may raise, and
  the generic facts on these (\<open>res_simps\<close>, \<open>act_simps\<close>) that the component theories use.
\<close>

named_theorems res_simps \<open>facts on results and computations that may raise\<close>
named_theorems inv_intros \<open>invariant preservation, one fact per operation\<close>

section \<open>Python values\<close>

text \<open>A Python \<open>str\<close> is a sequence of code points; \<open>lit\<close> reads an ASCII literal of the source.\<close>

type_synonym pystr = "nat list"

definition lit :: "string \<Rightarrow> pystr" where
  "lit s = map of_char s"

text \<open>A \<open>UUID\<close> is compared and sorted by its 128-bit integer, in Python and in PostgreSQL.\<close>

datatype uuid = UUID (uuid_int: "128 word")

instantiation uuid :: linorder
begin

definition less_eq_uuid :: "uuid \<Rightarrow> uuid \<Rightarrow> bool" where
  "less_eq_uuid a b \<longleftrightarrow> uuid_int a \<le> uuid_int b"

definition less_uuid :: "uuid \<Rightarrow> uuid \<Rightarrow> bool" where
  "less_uuid a b \<longleftrightarrow> uuid_int a < uuid_int b"

instance
  by standard (auto simp: less_eq_uuid_def less_uuid_def uuid.expand)

end

text \<open>
  Instants are microseconds since the epoch, UTC (the resolution of \<open>datetime\<close>). A \<open>datetime\<close> that
  comes from outside is naive, or aware: an instant and its UTC offset in microseconds.
\<close>

type_synonym instant = int

datatype datetime = Naive int | Aware instant int

fun is_naive :: "datetime \<Rightarrow> bool" where
  "is_naive (Naive _) = True"
| "is_naive (Aware _ _) = False"

definition us_per_s :: int where
  "us_per_s = 1000000"

lemma us_per_s_pos [simp]: "0 < us_per_s" "us_per_s \<noteq> 0"
  by (simp_all add: us_per_s_def)

section \<open>Exceptions\<close>

text \<open>
  An exception of user code or of a library is known by the names of its class and of the classes it
  derives from (innermost first) and by its text, \<open>str(e)\<close>.
\<close>

record pyexn =
  exn_mro :: "string list"
  exn_text :: pystr

definition is_instance :: "pyexn \<Rightarrow> string \<Rightarrow> bool" where
  "is_instance e cls \<longleftrightarrow> cls \<in> set (exn_mro e)"

definition exn_name :: "pyexn \<Rightarrow> string" where
  "exn_name e = (case exn_mro e of [] \<Rightarrow> ''Exception'' | c # _ \<Rightarrow> c)"

datatype event_status = PENDING | COMPLETED | FAILED

text \<open>What the code of the repository raises; the text of a message is left out.\<close>

datatype error =
    ValueError
  | TypeError
  | RuntimeError
  | OverflowError
  | UnicodeEncodeError
  | ValidationError
  | EventNotLockedError uuid
  | EventLockedByAnotherWorkerError uuid "pystr option" pystr
  | EventAlreadyLockedError uuid "pystr option"
  | InvalidEventStateError uuid event_status "event_status list"
  | EventConcurrentUpdateError int int "uuid list"
  | StorageError
  | StorageIntegrityError
  | UnsupportedCapabilityError
  | InboxPersistError pystr "error option"
  | HandlerRetryRequestedError
  | PipelineStoppedError
  | HandlerAlreadyRegisteredError
  | SchemaResolutionError
  | TransientError pystr
  | CancelledError
  | Raised pyexn

text \<open>\<open>except Exception\<close> catches all of these but a cancellation, which is a \<open>BaseException\<close>.\<close>

fun is_exception :: "error \<Rightarrow> bool" where
  "is_exception CancelledError = False"
| "is_exception (Raised e) = is_instance e ''Exception''"
| "is_exception _ = True"

section \<open>Results\<close>

type_synonym 'a res = "error + 'a"

fun bindr :: "'e + 'a \<Rightarrow> ('a \<Rightarrow> 'e + 'b) \<Rightarrow> 'e + 'b" where
  "bindr (Inl e) f = Inl e"
| "bindr (Inr a) f = f a"

lemma bindr_Inr_iff [res_simps]: "bindr m f = Inr b \<longleftrightarrow> (\<exists>a. m = Inr a \<and> f a = Inr b)"
  by (cases m) auto

lemma bindr_Inl_iff [res_simps]:
  "bindr m f = Inl e \<longleftrightarrow> m = Inl e \<or> (\<exists>a. m = Inr a \<and> f a = Inl e)"
  by (cases m) auto

lemma bindr_assoc: "bindr (bindr m f) g = bindr m (\<lambda>a. bindr (f a) g)"
  by (cases m) auto

lemma bindr_Inr_right [simp]: "bindr m Inr = m"
  by (cases m) auto

fun is_ok :: "'e + 'a \<Rightarrow> bool" where
  "is_ok (Inr _) = True"
| "is_ok (Inl _) = False"

lemma is_ok_iff: "is_ok m \<longleftrightarrow> (\<exists>a. m = Inr a)"
  by (cases m) auto

text \<open>A field that may be \<open>None\<close>, validated when it is not.\<close>

fun map_res_opt :: "('a \<Rightarrow> 'e + 'b) \<Rightarrow> 'a option \<Rightarrow> 'e + 'b option" where
  "map_res_opt f None = Inr None"
| "map_res_opt f (Some a) = bindr (f a) (\<lambda>b. Inr (Some b))"

lemma map_res_opt_Inr_iff [res_simps]:
  "map_res_opt f x = Inr y \<longleftrightarrow>
     (x = None \<and> y = None) \<or> (\<exists>a b. x = Some a \<and> y = Some b \<and> f a = Inr b)"
  by (cases x) (auto simp: res_simps)

section \<open>Computations over a state\<close>

text \<open>
  An \<open>async\<close> method reads and changes a state and returns or raises; what it changed before it
  raised stays changed.
\<close>

type_synonym ('s, 'a) act = "'s \<Rightarrow> (error + 'a) \<times> 's"

definition ret :: "'a \<Rightarrow> ('s, 'a) act" where
  "ret a s = (Inr a, s)"

definition throw :: "error \<Rightarrow> ('s, 'a) act" where
  "throw e s = (Inl e, s)"

definition andthen :: "('s, 'a) act \<Rightarrow> ('a \<Rightarrow> ('s, 'b) act) \<Rightarrow> ('s, 'b) act" where
  "andthen m f s = (case m s of (Inl e, s') \<Rightarrow> (Inl e, s') | (Inr a, s') \<Rightarrow> f a s')"

definition catch :: "('s, 'a) act \<Rightarrow> (error \<Rightarrow> ('s, 'a) act) \<Rightarrow> ('s, 'a) act" where
  "catch m h s = (case m s of (Inl e, s') \<Rightarrow> h e s' | (Inr a, s') \<Rightarrow> (Inr a, s'))"

definition lift_res :: "error + 'a \<Rightarrow> ('s, 'a) act" where
  "lift_res r s = (r, s)"

lemma ret_apply [simp]: "ret a s = (Inr a, s)"
  by (simp add: ret_def)

lemma throw_apply [simp]: "throw e s = (Inl e, s)"
  by (simp add: throw_def)

lemma lift_res_apply [simp]: "lift_res r s = (r, s)"
  by (simp add: lift_res_def)

lemma andthen_Inl: "m s = (Inl e, s') \<Longrightarrow> andthen m f s = (Inl e, s')"
  by (simp add: andthen_def)

lemma andthen_Inr: "m s = (Inr a, s') \<Longrightarrow> andthen m f s = f a s'"
  by (simp add: andthen_def)

lemma andthen_Inr_iff [res_simps]:
  "andthen m f s = (Inr b, t) \<longleftrightarrow> (\<exists>a s'. m s = (Inr a, s') \<and> f a s' = (Inr b, t))"
  by (auto simp: andthen_def split: prod.splits sum.splits)

lemma andthen_Inl_iff [res_simps]:
  "andthen m f s = (Inl e, t) \<longleftrightarrow>
     m s = (Inl e, t) \<or> (\<exists>a s'. m s = (Inr a, s') \<and> f a s' = (Inl e, t))"
  by (auto simp: andthen_def split: prod.splits sum.splits)

lemma catch_Inr_iff [res_simps]:
  "catch m h s = (Inr b, t) \<longleftrightarrow>
     m s = (Inr b, t) \<or> (\<exists>e s'. m s = (Inl e, s') \<and> h e s' = (Inr b, t))"
  by (auto simp: catch_def split: prod.splits sum.splits)

lemma catch_Inl_iff [res_simps]:
  "catch m h s = (Inl e, t) \<longleftrightarrow> (\<exists>e' s'. m s = (Inl e', s') \<and> h e' s' = (Inl e, t))"
  by (auto simp: catch_def split: prod.splits sum.splits)

lemma andthen_ret [simp]: "andthen m ret = m"
  by (rule ext) (auto simp: andthen_def split: prod.splits sum.splits)

section \<open>Lists\<close>

text \<open>\<open>xs[i : i + n]\<close> for \<open>i\<close> in steps of \<open>n\<close>: the slices the batched statements run over.\<close>

function chunks :: "nat \<Rightarrow> 'a list \<Rightarrow> 'a list list" where
  "chunks n xs = (if n = 0 \<or> xs = [] then [] else take n xs # chunks n (drop n xs))"
  by pat_completeness auto
termination
  by (relation "measure (\<lambda>(n, xs). length xs)") auto

declare chunks.simps [simp del]

lemma chunks_Nil [simp]: "chunks n [] = []"
  by (simp add: chunks.simps)

lemma concat_chunks: "0 < n \<Longrightarrow> concat (chunks n xs) = xs"
proof (induction n xs rule: chunks.induct)
  case (1 n xs)
  then show ?case
    by (cases "xs = []") (simp_all add: chunks.simps [of n xs])
qed

lemma chunks_length: "c \<in> set (chunks n xs) \<Longrightarrow> 0 < length c \<and> length c \<le> n"
proof (induction n xs rule: chunks.induct)
  case (1 n xs)
  then show ?case
    by (cases "n = 0 \<or> xs = []") (auto simp: chunks.simps [of n xs])
qed

lemma chunks_subset: "c \<in> set (chunks n xs) \<Longrightarrow> set c \<subseteq> set xs"
proof (induction n xs rule: chunks.induct)
  case (1 n xs)
  then show ?case
    by (cases "n = 0 \<or> xs = []") (auto simp: chunks.simps [of n xs] dest: in_set_takeD in_set_dropD)
qed

end
