(* ===== verification/Text.thy ===== *)
theory Text
  imports Prelude
begin

text \<open>
  The Python string operations the code uses: \<open>str.strip\<close>, \<open>str.encode\<close> and \<open>bytes.decode\<close> with
  an error handler, and \<open>BaseEvent.truncate_error\<close> (\<open>omni_box/core/models/entities.py\<close>), which
  cuts an error message to a number of UTF-8 bytes. The lemmas show that what is cut is a prefix of
  the message, that no code point is split and that the result fits.
\<close>

section \<open>Stripping\<close>

text \<open>The code points \<open>str.isspace\<close> accepts, which \<open>str.strip\<close> removes at both ends.\<close>

definition py_space :: "nat \<Rightarrow> bool" where
  "py_space c \<longleftrightarrow> 9 \<le> c \<and> c \<le> 13 \<or> 28 \<le> c \<and> c \<le> 32 \<or> c = 133 \<or> c = 160 \<or> c = 5760 \<or>
     8192 \<le> c \<and> c \<le> 8202 \<or> c = 8232 \<or> c = 8233 \<or> c = 8239 \<or> c = 8287 \<or> c = 12288"

definition strip :: "pystr \<Rightarrow> pystr" where
  "strip s = rev (dropWhile py_space (rev (dropWhile py_space s)))"

lemma dropWhile_idle: "s = [] \<or> \<not> P (hd s) \<Longrightarrow> dropWhile P s = s"
  by (cases s) auto

lemma hd_rev_dropWhile_rev:
  "rev (dropWhile P (rev s)) \<noteq> [] \<Longrightarrow> hd (rev (dropWhile P (rev s))) = hd s"
proof -
  assume ne: "rev (dropWhile P (rev s)) \<noteq> []"
  have "rev s = takeWhile P (rev s) @ dropWhile P (rev s)"
    by simp
  then have "s = rev (dropWhile P (rev s)) @ rev (takeWhile P (rev s))"
    by (metis rev_append rev_rev_ident)
  then show ?thesis
    using ne by (metis hd_append2)
qed

lemma strip_hd: "strip s \<noteq> [] \<Longrightarrow> \<not> py_space (hd (strip s))"
proof -
  assume ne: "strip s \<noteq> []"
  let ?l = "dropWhile py_space s"
  from ne have "hd (strip s) = hd ?l"
    by (simp add: strip_def hd_rev_dropWhile_rev)
  moreover from ne have "?l \<noteq> []"
    unfolding strip_def by (metis dropWhile.simps(1) rev.simps(1))
  ultimately show ?thesis
    by (metis hd_dropWhile)
qed

lemma strip_last: "strip s \<noteq> [] \<Longrightarrow> \<not> py_space (last (strip s))"
  unfolding strip_def by (metis hd_dropWhile last_rev rev.simps(1) rev_is_Nil_conv)

lemma strip_idle:
  assumes "s = [] \<or> \<not> py_space (hd s) \<and> \<not> py_space (last s)"
  shows "strip s = s"
  using assms by (cases "s = []") (auto simp: strip_def dropWhile_idle hd_rev)

lemma strip_strip [simp]: "strip (strip s) = strip s"
  using strip_hd [of s] strip_last [of s] by (intro strip_idle) auto

lemma strip_infix: "\<exists>p q. s = p @ strip s @ q"
proof -
  let ?l = "dropWhile py_space s"
  have "?l = rev (takeWhile py_space (rev ?l) @ dropWhile py_space (rev ?l))"
    by simp
  then have "?l = strip s @ rev (takeWhile py_space (rev ?l))"
    by (metis rev_append strip_def)
  then show ?thesis
    by (metis takeWhile_dropWhile_id append_assoc)
qed

section \<open>UTF-8\<close>

text \<open>
  One code point as bytes. A surrogate (\<open>U+D800\<close> to \<open>U+DFFF\<close>) has no UTF-8 form:
  \<open>str.encode\<close> raises \<open>UnicodeEncodeError\<close>.
\<close>

definition surrogate :: "nat \<Rightarrow> bool" where
  "surrogate c \<longleftrightarrow> 55296 \<le> c \<and> c \<le> 57343"

definition encode1 :: "nat \<Rightarrow> nat list" where
  "encode1 c =
     (if c < 128 then [c]
      else if c < 2048 then [192 + c div 64, 128 + c mod 64]
      else if c < 65536 then [224 + c div 4096, 128 + c div 64 mod 64, 128 + c mod 64]
      else [240 + c div 262144, 128 + c div 4096 mod 64, 128 + c div 64 mod 64, 128 + c mod 64])"

definition utf8_bytes :: "pystr \<Rightarrow> nat list" where
  "utf8_bytes s = concat (map encode1 s)"

definition encode :: "pystr \<Rightarrow> nat list res" where
  "encode s = (if list_ex surrogate s then Inl UnicodeEncodeError else Inr (utf8_bytes s))"

text \<open>A Python code point: at most \<open>U+10FFFF\<close>. \<open>text_ok\<close>: what \<open>encode\<close> accepts.\<close>

definition text_ok :: "pystr \<Rightarrow> bool" where
  "text_ok s \<longleftrightarrow> (\<forall>c \<in> set s. c < 1114112 \<and> \<not> surrogate c)"

lemma utf8_bytes_Nil [simp]: "utf8_bytes [] = []"
  by (simp add: utf8_bytes_def)

lemma utf8_bytes_Cons [simp]: "utf8_bytes (c # s) = encode1 c @ utf8_bytes s"
  by (simp add: utf8_bytes_def)

lemma utf8_bytes_append [simp]: "utf8_bytes (s @ t) = utf8_bytes s @ utf8_bytes t"
  by (simp add: utf8_bytes_def)

lemma encode_text_ok: "text_ok s \<Longrightarrow> encode s = Inr (utf8_bytes s)"
  by (auto simp: encode_def text_ok_def list_ex_iff)

lemma text_ok_Nil [simp]: "text_ok []"
  by (simp add: text_ok_def)

lemma text_ok_Cons [simp]: "text_ok (c # s) \<longleftrightarrow> c < 1114112 \<and> \<not> surrogate c \<and> text_ok s"
  by (auto simp: text_ok_def)

lemma text_ok_append [simp]: "text_ok (s @ t) \<longleftrightarrow> text_ok s \<and> text_ok t"
  by (auto simp: text_ok_def)

lemma text_ok_strip: "text_ok s \<Longrightarrow> text_ok (strip s)"
  using strip_infix [of s] by (metis text_ok_append)

text \<open>
  Decoding, as CPython does it: a lead byte fixes how many continuation bytes follow and the range
  of the first of them; on a byte that does not fit, the bytes read so far are replaced by what the
  error handler gives (\<open>ignore\<close>: nothing, \<open>replace\<close>: one \<open>U+FFFD\<close>) and decoding goes on at
  that byte. \<open>in_rng\<close>: a byte between two bounds; \<open>cont\<close>: a continuation byte.
\<close>

definition in_rng :: "nat \<Rightarrow> nat \<Rightarrow> nat \<Rightarrow> bool" where
  "in_rng lo hi b \<longleftrightarrow> lo \<le> b \<and> b \<le> hi"

abbreviation cont :: "nat \<Rightarrow> bool" where
  "cont b \<equiv> in_rng 128 191 b"

definition second3 :: "nat \<Rightarrow> nat \<Rightarrow> bool" where
  "second3 b = in_rng (if b = 224 then 160 else 128) (if b = 237 then 159 else 191)"

definition second4 :: "nat \<Rightarrow> nat \<Rightarrow> bool" where
  "second4 b = in_rng (if b = 240 then 144 else 128) (if b = 244 then 143 else 191)"

fun utf8_decode :: "pystr \<Rightarrow> nat list \<Rightarrow> pystr" where
  "utf8_decode r [] = []"
| "utf8_decode r (b # bs) =
     (if b < 128 then b # utf8_decode r bs
      else if in_rng 194 223 b then
        (case bs of
          c # bs1 \<Rightarrow>
            if cont c then (64 * (b - 192) + (c - 128)) # utf8_decode r bs1
            else r @ utf8_decode r bs
        | [] \<Rightarrow> r)
      else if in_rng 224 239 b then
        (case bs of
          c # bs1 \<Rightarrow>
            if second3 b c then
              (case bs1 of
                d # bs2 \<Rightarrow>
                  if cont d
                  then (4096 * (b - 224) + 64 * (c - 128) + (d - 128)) # utf8_decode r bs2
                  else r @ utf8_decode r bs1
              | [] \<Rightarrow> r)
            else r @ utf8_decode r bs
        | [] \<Rightarrow> r)
      else if in_rng 240 244 b then
        (case bs of
          c # bs1 \<Rightarrow>
            if second4 b c then
              (case bs1 of
                d # bs2 \<Rightarrow>
                  if cont d then
                    (case bs2 of
                      e # bs3 \<Rightarrow>
                        if cont e
                        then (262144 * (b - 240) + 4096 * (c - 128) + 64 * (d - 128) + (e - 128))
                               # utf8_decode r bs3
                        else r @ utf8_decode r bs2
                    | [] \<Rightarrow> r)
                  else r @ utf8_decode r bs1
              | [] \<Rightarrow> r)
            else r @ utf8_decode r bs
        | [] \<Rightarrow> r)
      else r @ utf8_decode r bs)"

declare utf8_decode.simps(2) [simp del]

abbreviation decode_ignore :: "nat list \<Rightarrow> pystr" where
  "decode_ignore \<equiv> utf8_decode []"

abbreviation decode_replace :: "nat list \<Rightarrow> pystr" where
  "decode_replace \<equiv> utf8_decode [65533]"

section \<open>Decoding what was encoded\<close>

text \<open>The four shapes of an encoded code point, by the bits they carry.\<close>

lemma decode_2:
  assumes "2 \<le> a" "a < 32" "d < 64"
  shows "utf8_decode r ((192 + a) # (128 + d) # bs) = (64 * a + d) # utf8_decode r bs"
  using assms by (simp add: utf8_decode.simps(2) in_rng_def)

lemma decode_3:
  assumes "a < 16" "b < 64" "d < 64" "a = 0 \<Longrightarrow> 32 \<le> b" "a = 13 \<Longrightarrow> b < 32"
  shows "utf8_decode r ((224 + a) # (128 + b) # (128 + d) # bs) = (4096 * a + 64 * b + d) # utf8_decode r bs"
proof -
  have "second3 (224 + a) (128 + b)"
    using assms by (auto simp: second3_def in_rng_def)
  with assms show ?thesis
    by (simp add: utf8_decode.simps(2) in_rng_def)
qed

lemma decode_4:
  assumes "a < 5" "b < 64" "d < 64" "e < 64" "a = 0 \<Longrightarrow> 16 \<le> b" "a = 4 \<Longrightarrow> b < 16"
  shows "utf8_decode r ((240 + a) # (128 + b) # (128 + d) # (128 + e) # bs) =
    (262144 * a + 4096 * b + 64 * d + e) # utf8_decode r bs"
proof -
  have "second4 (240 + a) (128 + b)"
    using assms by (auto simp: second4_def in_rng_def)
  with assms show ?thesis
    by (simp add: utf8_decode.simps(2) in_rng_def)
qed

lemma decode_3_cut:
  assumes "a < 16" "b < 64" "a = 0 \<Longrightarrow> 32 \<le> b" "a = 13 \<Longrightarrow> b < 32"
  shows "decode_ignore [224 + a] = []" and "decode_ignore [224 + a, 128 + b] = []"
proof -
  have "second3 (224 + a) (128 + b)"
    using assms by (auto simp: second3_def in_rng_def)
  with assms show "decode_ignore [224 + a] = []" "decode_ignore [224 + a, 128 + b] = []"
    by (simp_all add: utf8_decode.simps(2) in_rng_def)
qed

lemma decode_4_cut:
  assumes "a < 5" "b < 64" "d < 64" "a = 0 \<Longrightarrow> 16 \<le> b" "a = 4 \<Longrightarrow> b < 16"
  shows "decode_ignore [240 + a] = []" and "decode_ignore [240 + a, 128 + b] = []"
    and "decode_ignore [240 + a, 128 + b, 128 + d] = []"
proof -
  have "second4 (240 + a) (128 + b)"
    using assms by (auto simp: second4_def in_rng_def)
  with assms show "decode_ignore [240 + a] = []" "decode_ignore [240 + a, 128 + b] = []"
    "decode_ignore [240 + a, 128 + b, 128 + d] = []"
    by (simp_all add: utf8_decode.simps(2) in_rng_def)
qed

lemma encode1_cases:
  assumes "c < 1114112" and "\<not> surrogate c"
  obtains "c < 128" "encode1 c = [c]"
  | a d where "2 \<le> a" "a < 32" "d < 64" "c = 64 * a + d" "encode1 c = [192 + a, 128 + d]"
  | a b d where "a < 16" "b < 64" "d < 64" "a = 0 \<Longrightarrow> 32 \<le> b" "a = 13 \<Longrightarrow> b < 32"
      "c = 4096 * a + 64 * b + d" "encode1 c = [224 + a, 128 + b, 128 + d]"
  | a b d e where "a < 5" "b < 64" "d < 64" "e < 64" "a = 0 \<Longrightarrow> 16 \<le> b" "a = 4 \<Longrightarrow> b < 16"
      "c = 262144 * a + 4096 * b + 64 * d + e" "encode1 c = [240 + a, 128 + b, 128 + d, 128 + e]"
proof -
  consider "c < 128" | "128 \<le> c" "c < 2048" | "2048 \<le> c" "c < 65536" | "65536 \<le> c"
    by linarith
  then show ?thesis
  proof cases
    case 1
    then show ?thesis
      using that(1) by (simp add: encode1_def)
  next
    case 2
    define a d where "a = c div 64" and "d = c mod 64"
    have c: "c = 64 * a + d" "d < 64"
      by (simp_all add: a_def d_def)
    with 2 have "2 \<le> a" "a < 32"
      by linarith+
    moreover have "encode1 c = [192 + a, 128 + d]"
      using 2 by (simp add: encode1_def a_def d_def)
    ultimately show ?thesis
      using c that(2) by blast
  next
    case 3
    define q d where "q = c div 64" and "d = c mod 64"
    define a b where "a = q div 64" and "b = q mod 64"
    have c: "c = 64 * q + d" "d < 64" "q = 64 * a + b" "b < 64"
      by (simp_all add: q_def d_def a_def b_def)
    with 3 assms(2) have ab: "a < 16" "a = 0 \<Longrightarrow> 32 \<le> b" "a = 13 \<Longrightarrow> b < 32"
      unfolding surrogate_def by linarith+
    have "c div 4096 = a"
      by (simp add: a_def q_def flip: div_mult2_eq)
    with 3 have "encode1 c = [224 + a, 128 + b, 128 + d]"
      by (simp add: encode1_def b_def q_def d_def)
    moreover have "c = 4096 * a + 64 * b + d"
      using c by linarith
    ultimately show ?thesis
      using c ab that(3) by blast
  next
    case 4
    define q e where "q = c div 64" and "e = c mod 64"
    define p d where "p = q div 64" and "d = q mod 64"
    define a b where "a = p div 64" and "b = p mod 64"
    have c: "c = 64 * q + e" "e < 64" "q = 64 * p + d" "d < 64" "p = 64 * a + b" "b < 64"
      by (simp_all add: q_def d_def a_def b_def p_def e_def)
    with 4 assms(1) have ab: "a < 5" "a = 0 \<Longrightarrow> 16 \<le> b" "a = 4 \<Longrightarrow> b < 16"
      by linarith+
    have "c div 4096 = p" "c div 262144 = a"
      by (simp_all add: a_def p_def q_def flip: div_mult2_eq)
    with 4 have "encode1 c = [240 + a, 128 + b, 128 + d, 128 + e]"
      by (simp add: encode1_def b_def d_def e_def flip: q_def)
    moreover have "c = 262144 * a + 4096 * b + 64 * d + e"
      using c by linarith
    ultimately show ?thesis
      using c ab that(4) by blast
  qed
qed

lemma decode_encode1:
  assumes "c < 1114112" and "\<not> surrogate c"
  shows "utf8_decode r (encode1 c @ bs) = c # utf8_decode r bs"
  using assms
  by (cases c rule: encode1_cases)
    (simp_all add: decode_2 decode_3 decode_4 del: utf8_decode.simps, simp add: utf8_decode.simps(2))

text \<open>A proper prefix of one encoded code point decodes to nothing.\<close>

lemma decode_encode1_take:
  assumes "c < 1114112" and "\<not> surrogate c" and n: "n < length (encode1 c)"
  shows "decode_ignore (take n (encode1 c)) = []"
  using assms(1,2)
proof (cases c rule: encode1_cases)
  case 1
  with n show ?thesis by simp
next
  case (2 a d)
  with n have "n = 0 \<or> n = 1" by auto
  with 2 show ?thesis
    by (auto simp: utf8_decode.simps(2) in_rng_def)
next
  case (3 a b d)
  with n have "n = 0 \<or> n = 1 \<or> n = 2" by auto
  with 3 show ?thesis
    by (auto simp: decode_3_cut)
next
  case (4 a b d e)
  with n have "n = 0 \<or> n = 1 \<or> n = 2 \<or> n = 3" by auto
  with 4 show ?thesis
    by (auto simp: decode_4_cut)
qed

text \<open>
  The longest prefix of a string that fits a number of UTF-8 bytes: the reference for encoding,
  cutting the bytes and decoding what is left.
\<close>

fun fit :: "nat \<Rightarrow> pystr \<Rightarrow> pystr" where
  "fit n [] = []"
| "fit n (c # s) = (if length (encode1 c) \<le> n then c # fit (n - length (encode1 c)) s else [])"

lemma decode_take: "text_ok s \<Longrightarrow> decode_ignore (take n (utf8_bytes s)) = fit n s"
proof (induction s arbitrary: n)
  case Nil
  then show ?case by simp
next
  case (Cons c s)
  then have c: "c < 1114112" "\<not> surrogate c" by simp_all
  show ?case
  proof (cases "length (encode1 c) \<le> n")
    case True
    then have "take n (utf8_bytes (c # s)) = encode1 c @ take (n - length (encode1 c)) (utf8_bytes s)"
      by simp
    with True Cons show ?thesis
      by (simp only: decode_encode1 [OF c]) simp
  next
    case False
    then show ?thesis
      by (simp add: decode_encode1_take [OF c])
  qed
qed

lemma decode_utf8_bytes: "text_ok s \<Longrightarrow> utf8_decode r (utf8_bytes s) = s"
  by (induction s) (simp_all add: decode_encode1)

lemma fit_prefix: "\<exists>t. s = fit n s @ t"
  by (induction n s rule: fit.induct) auto

lemma fit_bytes: "length (utf8_bytes (fit n s)) \<le> n"
  by (induction n s rule: fit.induct) auto

lemma length_encode1: "0 < length (encode1 c) \<and> length (encode1 c) \<le> 4"
  by (simp add: encode1_def)

text \<open>No longer prefix has room.\<close>

lemma fit_maximal: "s = p @ q \<Longrightarrow> length (utf8_bytes p) \<le> n \<Longrightarrow> length p \<le> length (fit n s)"
proof (induction n s arbitrary: p rule: fit.induct)
  case (2 n c s)
  show ?case
  proof (cases p)
    case (Cons d p')
    with 2 show ?thesis
      by (auto simp: le_diff_conv2)
  qed simp
qed simp

lemma text_ok_fit: "text_ok s \<Longrightarrow> text_ok (fit n s)"
  using fit_prefix [of s n] by (metis text_ok_append)

section \<open>Truncating an error message\<close>

text \<open>\<open>BaseEvent.truncate_error\<close>.\<close>

definition truncate_error :: "pystr \<Rightarrow> int \<Rightarrow> pystr \<Rightarrow> pystr res" where
  "truncate_error err max_bytes suffix =
     (if max_bytes < 1 then Inl ValueError
      else if strip err = [] then Inl ValueError
      else bindr (encode (strip err)) (\<lambda>encoded.
        if int (length encoded) \<le> max_bytes then Inr (strip err)
        else bindr (encode suffix) (\<lambda>suffix_encoded.
          if int (length suffix_encoded) \<ge> max_bytes
          then Inr (decode_ignore (take (nat max_bytes) encoded))
          else Inr (decode_ignore (take (nat (max_bytes - int (length suffix_encoded))) encoded) @ suffix))))"

lemma truncate_error_cases:
  assumes "text_ok err" and "text_ok suffix" and "1 \<le> m" and "strip err \<noteq> []"
  shows "truncate_error err m suffix = Inr
    (if int (length (utf8_bytes (strip err))) \<le> m then strip err
     else if m \<le> int (length (utf8_bytes suffix)) then fit (nat m) (strip err)
     else fit (nat (m - int (length (utf8_bytes suffix)))) (strip err) @ suffix)"
  using assms
  by (auto simp: truncate_error_def encode_text_ok text_ok_strip decode_take)

lemma truncate_error_ok_text:
  assumes "truncate_error err m suffix = Inr t" and "text_ok err" and "text_ok suffix"
  shows "text_ok t \<and> int (length (utf8_bytes t)) \<le> m"
proof -
  from assms(1) have "1 \<le> m" "strip err \<noteq> []"
    by (auto simp: truncate_error_def split: if_splits)
  with assms show ?thesis
    using fit_bytes [of "nat m" "strip err"]
      fit_bytes [of "nat (m - int (length (utf8_bytes suffix)))" "strip err"]
    by (auto simp: truncate_error_cases text_ok_strip text_ok_fit)
qed

text \<open>
  C37. Truncation of an error message that is not blank: the result is the stripped message itself when its UTF-8 form fits
  the limit. Otherwise it is a prefix of it, of whole code points, followed by the suffix if the suffix is
  shorter than the limit, and the longest such prefix that leaves room for it. In either case it fits the limit.
\<close>

theorem truncate_error_fits:
  assumes "text_ok err" and "text_ok suffix" and "1 \<le> m" and "strip err \<noteq> []"
  shows "\<exists>t. truncate_error err m suffix = Inr t \<and> text_ok t \<and> int (length (utf8_bytes t)) \<le> m \<and>
    (if int (length (utf8_bytes (strip err))) \<le> m then t = strip err
     else \<exists>p q. strip err = p @ q \<and>
       t = (if int (length (utf8_bytes suffix)) < m then p @ suffix else p) \<and>
       (\<forall>p' q'. strip err = p' @ q' \<and>
          int (length (utf8_bytes (if int (length (utf8_bytes suffix)) < m then p' @ suffix else p'))) \<le> m \<longrightarrow>
          length p' \<le> length p))"
proof -
  let ?s = "strip err" and ?k = "int (length (utf8_bytes suffix))"
  let ?n = "if ?k < m then nat (m - ?k) else nat m"
  have s: "text_ok ?s"
    using assms(1) by (rule text_ok_strip)
  show ?thesis
  proof (cases "int (length (utf8_bytes ?s)) \<le> m")
    case True
    with assms s show ?thesis
      by (simp add: truncate_error_cases)
  next
    case False
    obtain q where q: "?s = fit ?n ?s @ q"
      using fit_prefix by blast
    have "length p' \<le> length (fit ?n ?s)"
      if "?s = p' @ q'" "int (length (utf8_bytes (if ?k < m then p' @ suffix else p'))) \<le> m" for p' q'
      using that by (intro fit_maximal) (auto split: if_splits)
    moreover have "int (length (utf8_bytes (if ?k < m then fit ?n ?s @ suffix else fit ?n ?s))) \<le> m"
      using fit_bytes [of ?n ?s] assms(3) by (auto split: if_splits)
    ultimately show ?thesis
      using assms False s q
      by (intro exI [of _ "if ?k < m then fit ?n ?s @ suffix else fit ?n ?s"] conjI)
        (auto simp: truncate_error_cases text_ok_fit)
  qed
qed

theorem truncate_error_fits_witness:
  "truncate_error [32, 8364, 8364, 8364] 8 [46, 46] = Inr [8364, 8364, 46, 46] \<and>
   truncate_error [32, 8364, 8364, 8364] 9 [46, 46] = Inr [8364, 8364, 8364]"
proof -
  let ?e = "[32, 8364, 8364, 8364]"
  have e: "strip ?e = [8364, 8364, 8364]" "text_ok ?e" "text_ok [46, 46]"
    by (simp_all add: surrogate_def strip_def py_space_def)
  have n: "length (utf8_bytes [8364, 8364, 8364]) = 9" "length (utf8_bytes [46, 46]) = 2"
    by (simp_all add: encode1_def)
  have "truncate_error ?e 9 [46, 46] = Inr [8364, 8364, 8364]"
    using truncate_error_fits [of ?e "[46, 46]" 9] e n by simp
  moreover have "truncate_error ?e 8 [46, 46] = Inr [8364, 8364, 46, 46]"
  proof -
    obtain t p q where t: "truncate_error ?e 8 [46, 46] = Inr t" "int (length (utf8_bytes t)) \<le> 8"
      and p: "[8364, 8364, 8364] = p @ q" "t = p @ [46, 46]"
      and max: "\<forall>p' q'. [8364, 8364, 8364] = p' @ q' \<and> int (length (utf8_bytes (p' @ [46, 46]))) \<le> 8 \<longrightarrow> length p' \<le> length p"
      using truncate_error_fits [of ?e "[46, 46]" 8] e n by auto
    have "2 \<le> length p"
      using max [rule_format, of "[8364, 8364]" "[8364]"] by (simp add: encode1_def)
    moreover have "p \<noteq> [8364, 8364, 8364]"
      using t(2) p(2) by (auto simp: encode1_def)
    ultimately have "p = [8364, 8364]"
      using p(1) by (auto simp: Cons_eq_append_conv)
    with t(1) p(2) show ?thesis by simp
  qed
  ultimately show ?thesis by blast
qed

lemma truncate_error_blank: "strip err = [] \<Longrightarrow> truncate_error err m suffix = Inl ValueError"
  by (simp add: truncate_error_def)

lemma length_utf8_bytes: "length s \<le> length (utf8_bytes s)"
proof (induction s)
  case (Cons c s)
  then show ?case
    using length_encode1 [of c] by (simp del: length_greater_0_conv)
qed simp

end
