(* ===== verification/Events.thy ===== *)
theory Events
  imports Text
begin

text \<open>
  The domain entities of \<open>omni_box/core/models\<close>: event status, payload, the event records, the
  validators pydantic runs when an event is built or copied, and the business invariants. The lemmas
  say what a validated event satisfies and that validating it again leaves it as it is.
\<close>

section \<open>Limits\<close>

definition LAST_ERROR_MAX_LENGTH :: int where "LAST_ERROR_MAX_LENGTH = 2000"
definition WORKER_ID_MAX_LENGTH :: nat where "WORKER_ID_MAX_LENGTH = 255"
definition FORCE_UNLOCK_REASON_MAX_LENGTH :: nat where "FORCE_UNLOCK_REASON_MAX_LENGTH = 255"
definition IDEMPOTENCY_KEY_MAX_LENGTH :: nat where "IDEMPOTENCY_KEY_MAX_LENGTH = 128"
definition AGGREGATE_TYPE_MAX_LENGTH :: nat where "AGGREGATE_TYPE_MAX_LENGTH = 50"
definition EVENT_TYPE_MAX_LENGTH :: nat where "EVENT_TYPE_MAX_LENGTH = 100"
definition TOPIC_MAX_LENGTH :: nat where "TOPIC_MAX_LENGTH = 255"
definition SOURCE_MAX_LENGTH :: nat where "SOURCE_MAX_LENGTH = 255"
definition MESSAGE_ID_MAX_LENGTH :: nat where "MESSAGE_ID_MAX_LENGTH = 255"
definition PARTITION_KEY_MAX_LENGTH :: nat where "PARTITION_KEY_MAX_LENGTH = 255"
definition TRACE_ID_MAX_LENGTH :: nat where "TRACE_ID_MAX_LENGTH = 64"
definition CORRELATION_ID_MAX_LENGTH :: nat where "CORRELATION_ID_MAX_LENGTH = 64"
definition CAUSATION_ID_MAX_LENGTH :: nat where "CAUSATION_ID_MAX_LENGTH = 64"
definition SCHEMA_VERSION_MAX_LENGTH :: nat where "SCHEMA_VERSION_MAX_LENGTH = 50"
definition CONSUMER_GROUP_MAX_LENGTH :: nat where "CONSUMER_GROUP_MAX_LENGTH = 255"
definition DEFAULT_TRUNCATION_SUFFIX :: pystr where "DEFAULT_TRUNCATION_SUFFIX = lit ''... [TRUNCATED]''"
definition DEFAULT_MAX_ATTEMPTS :: int where "DEFAULT_MAX_ATTEMPTS = 6"
definition DEFAULT_SCHEDULE_AT_SKEW_SECONDS :: int where "DEFAULT_SCHEDULE_AT_SKEW_SECONDS = 60"
definition DEFAULT_SCHEDULE_AT_MAX_FUTURE_SECONDS :: int where
  "DEFAULT_SCHEDULE_AT_MAX_FUTURE_SECONDS = 365 * 24 * 3600"
definition DEFAULT_PAYLOAD_MAX_BYTES :: int where "DEFAULT_PAYLOAD_MAX_BYTES = 1000000"
definition DEFAULT_HEADERS_MAX_COUNT :: int where "DEFAULT_HEADERS_MAX_COUNT = 100"
definition DEFAULT_HEADER_KEY_MAX_LENGTH :: int where "DEFAULT_HEADER_KEY_MAX_LENGTH = 64"
definition DEFAULT_HEADER_VALUE_MAX_LENGTH :: int where "DEFAULT_HEADER_VALUE_MAX_LENGTH = 512"
definition DEFAULT_LEASE_TIMEOUT_SECONDS :: int where "DEFAULT_LEASE_TIMEOUT_SECONDS = 300"

lemmas limit_defs =
  LAST_ERROR_MAX_LENGTH_def WORKER_ID_MAX_LENGTH_def FORCE_UNLOCK_REASON_MAX_LENGTH_def
  IDEMPOTENCY_KEY_MAX_LENGTH_def AGGREGATE_TYPE_MAX_LENGTH_def EVENT_TYPE_MAX_LENGTH_def
  TOPIC_MAX_LENGTH_def SOURCE_MAX_LENGTH_def MESSAGE_ID_MAX_LENGTH_def PARTITION_KEY_MAX_LENGTH_def
  TRACE_ID_MAX_LENGTH_def CORRELATION_ID_MAX_LENGTH_def CAUSATION_ID_MAX_LENGTH_def
  SCHEMA_VERSION_MAX_LENGTH_def CONSUMER_GROUP_MAX_LENGTH_def DEFAULT_MAX_ATTEMPTS_def
  DEFAULT_SCHEDULE_AT_SKEW_SECONDS_def DEFAULT_SCHEDULE_AT_MAX_FUTURE_SECONDS_def
  DEFAULT_PAYLOAD_MAX_BYTES_def DEFAULT_HEADERS_MAX_COUNT_def DEFAULT_HEADER_KEY_MAX_LENGTH_def
  DEFAULT_HEADER_VALUE_MAX_LENGTH_def DEFAULT_LEASE_TIMEOUT_SECONDS_def

section \<open>JSON values and the libraries that write them\<close>

datatype jfloat = Finite rat | NaN | PosInf | NegInf

datatype json =
    JNull
  | JBool bool
  | JInt int
  | JFloat jfloat
  | JStr pystr
  | JArr "json list"
  | JObj "(pystr \<times> json) list"

type_synonym jdict = "(pystr \<times> json) list"

text \<open>What \<open>json.dumps(v, allow_nan=False)\<close> refuses.\<close>

fun nonfinite_float :: "jfloat \<Rightarrow> bool" where
  "nonfinite_float (Finite _) = False"
| "nonfinite_float _ = True"

primrec nonfinite :: "json \<Rightarrow> bool" where
  "nonfinite JNull = False"
| "nonfinite (JBool _) = False"
| "nonfinite (JInt _) = False"
| "nonfinite (JFloat f) = nonfinite_float f"
| "nonfinite (JStr _) = False"
| "nonfinite (JArr xs) = list_ex id (map nonfinite xs)"
| "nonfinite (JObj kvs) = list_ex snd (map (map_prod id nonfinite) kvs)"

text \<open>
  Code outside the repository that validation calls: \<open>orjson.dumps\<close> (\<open>None\<close> is
  \<open>JSONEncodeError\<close>), \<open>orjson.loads\<close>, and the Unicode table behind \<open>str.lower\<close>.
\<close>

record libs =
  orjson_dumps :: "jdict \<Rightarrow> nat list option"
  orjson_loads :: "nat list \<Rightarrow> json"
  py_lower :: "pystr \<Rightarrow> pystr"

text \<open>orjson's documented round trip: what it wrote of a dictionary of finite JSON values reads back.\<close>

definition orjson_roundtrip :: "libs \<Rightarrow> bool" where
  "orjson_roundtrip L \<longleftrightarrow>
     (\<forall>v b. orjson_dumps L v = Some b \<longrightarrow> \<not> nonfinite (JObj v) \<longrightarrow> orjson_loads L b = JObj v)"

text \<open>The validation context, \<open>ValidationInfo.context\<close>: a key may be missing.\<close>

record vctx =
  scheduled_at_skew_seconds :: "int option"
  scheduled_at_max_future_seconds :: "int option"
  payload_trusted :: bool
  payload_max_bytes :: "int option"
  headers_max_count :: "int option"
  header_key_max_length :: "int option"
  header_value_max_length :: "int option"

definition get_or :: "'a option \<Rightarrow> 'a \<Rightarrow> 'a" where
  "get_or x d = (case x of None \<Rightarrow> d | Some a \<Rightarrow> a)"

lemma get_or_simps [simp]: "get_or None d = d" "get_or (Some a) d = a"
  by (simp_all add: get_or_def)

section \<open>Payload and headers\<close>

definition validate_payload :: "libs \<Rightarrow> vctx \<Rightarrow> jdict \<Rightarrow> jdict res" where
  "validate_payload L ctx v =
     (if v = [] then Inl ValidationError
      else if payload_trusted ctx then Inr v
      else if get_or (payload_max_bytes ctx) DEFAULT_PAYLOAD_MAX_BYTES < 1 then Inl ValidationError
      else case orjson_dumps L v of
        None \<Rightarrow> Inl ValidationError
      | Some dumped \<Rightarrow>
          if int (length dumped) > get_or (payload_max_bytes ctx) DEFAULT_PAYLOAD_MAX_BYTES
          then Inl ValidationError
          else if nonfinite (JObj v) then Inl ValidationError
          else (case orjson_loads L dumped of JObj r \<Rightarrow> Inr r | _ \<Rightarrow> Inl TypeError))"

definition control_in_key :: "nat \<Rightarrow> bool" where
  "control_in_key c \<longleftrightarrow> c < 32 \<or> c = 127"

definition control_in_value :: "nat \<Rightarrow> bool" where
  "control_in_value c \<longleftrightarrow> c < 32 \<and> c \<noteq> 9 \<or> c = 127"

text \<open>One round of the loop over the headers; the accumulators are \<open>normalized\<close> and the lowered keys.\<close>

definition header_entry :: "libs \<Rightarrow> int \<Rightarrow> int \<Rightarrow> (pystr \<times> pystr) list \<Rightarrow> pystr set \<Rightarrow>
    pystr \<Rightarrow> pystr \<Rightarrow> (pystr \<times> pystr) res" where
  "header_entry L kmax vmax normalized lowered key val =
     (let k = strip key; v = strip val in
      if k = [] then Inl ValidationError
      else if list_ex control_in_key k then Inl ValidationError
      else if v = [] then Inl ValidationError
      else if list_ex control_in_value v then Inl ValidationError
      else if int (length k) > kmax then Inl ValidationError
      else if int (length v) > vmax then Inl ValidationError
      else if k \<in> set (map fst normalized) then Inl ValidationError
      else if py_lower L k \<in> lowered then Inl ValidationError
      else Inr (k, v))"

fun header_loop :: "libs \<Rightarrow> int \<Rightarrow> int \<Rightarrow> (pystr \<times> pystr) list \<Rightarrow> pystr set \<Rightarrow>
    (pystr \<times> pystr) list \<Rightarrow> (pystr \<times> pystr) list res" where
  "header_loop L kmax vmax normalized lowered [] = Inr normalized"
| "header_loop L kmax vmax normalized lowered ((key, val) # rest) =
     bindr (header_entry L kmax vmax normalized lowered key val) (\<lambda>(k, v).
       header_loop L kmax vmax (normalized @ [(k, v)]) (insert (py_lower L k) lowered) rest)"

definition validate_headers :: "libs \<Rightarrow> vctx \<Rightarrow> (pystr \<times> pystr) list option \<Rightarrow>
    (pystr \<times> pystr) list option res" where
  "validate_headers L ctx hs =
     (case hs of
        None \<Rightarrow> Inr None
      | Some v \<Rightarrow>
          if v = [] then Inr None
          else
            let max_count = get_or (headers_max_count ctx) DEFAULT_HEADERS_MAX_COUNT;
                kmax = get_or (header_key_max_length ctx) DEFAULT_HEADER_KEY_MAX_LENGTH;
                vmax = get_or (header_value_max_length ctx) DEFAULT_HEADER_VALUE_MAX_LENGTH in
            if max_count < 0 then Inl ValidationError
            else if kmax < 1 then Inl ValidationError
            else if vmax < 1 then Inl ValidationError
            else bindr (header_loop L kmax vmax [] {} v) (\<lambda>normalized.
              if int (length normalized) > max_count then Inl ValidationError
              else Inr (if normalized = [] then None else Some normalized)))"

text \<open>A header dictionary the validator returns: what it checks of each entry and of the keys.\<close>

definition header_ok :: "int \<Rightarrow> int \<Rightarrow> pystr \<times> pystr \<Rightarrow> bool" where
  "header_ok kmax vmax kv \<longleftrightarrow>
     (case kv of (k, v) \<Rightarrow>
       k \<noteq> [] \<and> strip k = k \<and> \<not> list_ex control_in_key k \<and> int (length k) \<le> kmax \<and>
       v \<noteq> [] \<and> strip v = v \<and> \<not> list_ex control_in_value v \<and> int (length v) \<le> vmax)"

definition headers_ok :: "libs \<Rightarrow> vctx \<Rightarrow> (pystr \<times> pystr) list \<Rightarrow> bool" where
  "headers_ok L ctx hs \<longleftrightarrow>
     list_all (header_ok (get_or (header_key_max_length ctx) DEFAULT_HEADER_KEY_MAX_LENGTH)
       (get_or (header_value_max_length ctx) DEFAULT_HEADER_VALUE_MAX_LENGTH)) hs \<and>
     distinct (map (\<lambda>kv. py_lower L (fst kv)) hs) \<and>
     int (length hs) \<le> get_or (headers_max_count ctx) DEFAULT_HEADERS_MAX_COUNT \<and> hs \<noteq> []"

lemma header_entry_Inr_iff:
  "header_entry L kmax vmax n low key val = Inr kv \<longleftrightarrow>
     kv = (strip key, strip val) \<and> header_ok kmax vmax kv \<and>
     strip key \<notin> fst ` set n \<and> py_lower L (strip key) \<notin> low"
  by (auto simp: header_entry_def header_ok_def Let_def)

lemma header_loop_ok:
  assumes "header_loop L kmax vmax n low hs = Inr r"
    and "low = py_lower L ` fst ` set n" and "distinct (map (\<lambda>kv. py_lower L (fst kv)) n)"
    and "list_all (header_ok kmax vmax) n"
  shows "r = n @ map (map_prod strip strip) hs \<and> list_all (header_ok kmax vmax) r \<and>
    distinct (map (\<lambda>kv. py_lower L (fst kv)) r)"
  using assms
proof (induction hs arbitrary: n low)
  case Nil
  then show ?case by simp
next
  case (Cons kv hs)
  obtain key val where kv: "kv = (key, val)" by (cases kv)
  let ?e = "(strip key, strip val)"
  from Cons.prems(1) have entry: "header_entry L kmax vmax n low key val = Inr ?e"
    and loop: "header_loop L kmax vmax (n @ [?e]) (insert (py_lower L (strip key)) low) hs = Inr r"
    by (auto simp: kv res_simps header_entry_Inr_iff)
  have step: "r = (n @ [?e]) @ map (map_prod strip strip) hs \<and> list_all (header_ok kmax vmax) r \<and>
      distinct (map (\<lambda>kv. py_lower L (fst kv)) r)"
  proof (rule Cons.IH [OF loop])
    show "insert (py_lower L (strip key)) low = py_lower L ` fst ` set (n @ [?e])"
      using Cons.prems(2) by auto
    show "distinct (map (\<lambda>kv. py_lower L (fst kv)) (n @ [?e]))"
      using Cons.prems(2,3) entry by (auto simp: header_entry_Inr_iff image_image)
    show "list_all (header_ok kmax vmax) (n @ [?e])"
      using Cons.prems(4) entry by (auto simp: header_entry_Inr_iff)
  qed
  from step have "r = n @ map (map_prod strip strip) (kv # hs)"
    by (simp add: kv)
  with step show ?case
    by blast
qed

lemma header_loop_idle:
  assumes "list_all (header_ok kmax vmax) (n @ hs)"
    and "distinct (map (\<lambda>kv. py_lower L (fst kv)) (n @ hs))" and "low = py_lower L ` fst ` set n"
  shows "header_loop L kmax vmax n low hs = Inr (n @ hs)"
  using assms
proof (induction hs arbitrary: n low)
  case Nil
  then show ?case by simp
next
  case (Cons kv hs)
  obtain k v where kv: "kv = (k, v)" by (cases kv)
  from Cons.prems(1) have kv_ok: "header_ok kmax vmax (k, v)" "strip k = k" "strip v = v"
    by (auto simp: kv header_ok_def)
  have fresh: "py_lower L k \<notin> low" "k \<notin> fst ` set n"
    using Cons.prems(2,3) by (auto simp: kv image_image)
  have "header_entry L kmax vmax n low k v = Inr (k, v)"
    using kv_ok fresh by (simp add: header_entry_Inr_iff)
  moreover have "header_loop L kmax vmax (n @ [(k, v)]) (insert (py_lower L k) low) hs =
      Inr ((n @ [(k, v)]) @ hs)"
    using Cons.prems by (intro Cons.IH) (auto simp: kv)
  ultimately show ?case by (simp add: kv)
qed

lemma validate_headers_ok:
  assumes "validate_headers L ctx hs = Inr (Some r)"
  shows "headers_ok L ctx r"
proof -
  let ?k = "get_or (header_key_max_length ctx) DEFAULT_HEADER_KEY_MAX_LENGTH"
  let ?v = "get_or (header_value_max_length ctx) DEFAULT_HEADER_VALUE_MAX_LENGTH"
  from assms obtain v where loop: "header_loop L ?k ?v [] {} v = Inr r" and "r \<noteq> []"
    and "int (length r) \<le> get_or (headers_max_count ctx) DEFAULT_HEADERS_MAX_COUNT"
    by (auto simp: validate_headers_def Let_def res_simps split: option.splits if_splits)
  moreover have "list_all (header_ok ?k ?v) r \<and> distinct (map (\<lambda>kv. py_lower L (fst kv)) r)"
    by (rule header_loop_ok [OF loop, THEN conjunct2]) simp_all
  ultimately show ?thesis
    by (simp add: headers_ok_def)
qed

lemma header_ok_pos: "header_ok kmax vmax kv \<Longrightarrow> 1 \<le> kmax \<and> 1 \<le> vmax"
  by (cases kv) (auto simp: header_ok_def Suc_le_eq neq_Nil_conv)

lemma validate_headers_idle:
  assumes "headers_ok L ctx hs"
  shows "validate_headers L ctx (Some hs) = Inr (Some hs)"
proof -
  let ?k = "get_or (header_key_max_length ctx) DEFAULT_HEADER_KEY_MAX_LENGTH"
  let ?v = "get_or (header_value_max_length ctx) DEFAULT_HEADER_VALUE_MAX_LENGTH"
  from assms have "header_loop L ?k ?v [] {} hs = Inr hs"
    using header_loop_idle [of ?k ?v "[]" hs L "{}"] by (simp add: headers_ok_def)
  moreover from assms have "1 \<le> ?k \<and> 1 \<le> ?v"
    using header_ok_pos [of ?k ?v] by (cases hs) (auto simp: headers_ok_def)
  moreover from assms have "0 \<le> get_or (headers_max_count ctx) DEFAULT_HEADERS_MAX_COUNT"
    unfolding headers_ok_def by linarith
  ultimately show ?thesis
    using assms by (simp add: validate_headers_def Let_def headers_ok_def)
qed

section \<open>Events\<close>

text \<open>The fields of \<open>BaseEvent\<close>; \<open>OutboxEvent\<close> and \<open>InboxEvent\<close> extend them.\<close>

record base_event =
  event_id :: uuid
  event_type :: pystr
  payload :: jdict
  headers :: "(pystr \<times> pystr) list option"
  trace_id :: "pystr option"
  idempotency_key :: "pystr option"
  correlation_id :: "pystr option"
  causation_id :: "pystr option"
  schema_version :: "pystr option"
  status :: event_status
  attempts_made :: int
  max_attempts :: int
  last_error :: "pystr option"
  created_at :: instant
  scheduled_at :: instant
  completed_at :: "instant option"
  locked_at :: "instant option"
  locked_by :: "pystr option"

record outbox_event = base_event +
  aggregate_type :: pystr
  aggregate_id :: uuid
  topic :: pystr
  partition_key :: pystr

record inbox_event = base_event +
  message_id :: pystr
  consumer_group :: pystr
  source :: pystr

section \<open>Field validators\<close>

text \<open>\<open>StrippedNonEmptyStr\<close> with a \<open>max_length\<close>, counted in code points after stripping.\<close>

definition stripped_non_empty :: "nat \<Rightarrow> pystr \<Rightarrow> pystr res" where
  "stripped_non_empty n s =
     (if strip s = [] then Inl ValidationError
      else if length (strip s) > n then Inl ValidationError
      else Inr (strip s))"

text \<open>\<open>validate_timezone\<close>: a naive datetime is refused, an aware one is brought to UTC.\<close>

fun validate_timezone :: "datetime \<Rightarrow> instant res" where
  "validate_timezone (Naive _) = Inl ValidationError"
| "validate_timezone (Aware t _) = Inr t"

text \<open>\<open>validate_scheduled_at\<close>, on instants already in UTC.\<close>

definition validate_scheduled_at :: "vctx \<Rightarrow> instant \<Rightarrow> instant \<Rightarrow> instant res" where
  "validate_scheduled_at ctx created v =
     (let skew_limit = get_or (scheduled_at_skew_seconds ctx) DEFAULT_SCHEDULE_AT_SKEW_SECONDS;
          max_future_seconds =
            get_or (scheduled_at_max_future_seconds ctx) DEFAULT_SCHEDULE_AT_MAX_FUTURE_SECONDS in
      if skew_limit < 0 then Inl ValidationError
      else if max_future_seconds < 1 then Inl ValidationError
      else if v < created \<and> created - v > skew_limit * us_per_s then Inl ValidationError
      else if v - created > max_future_seconds * us_per_s then Inl ValidationError
      else Inr v)"

definition validate_last_error :: "pystr \<Rightarrow> pystr res" where
  "validate_last_error s =
     (if int (length s) > LAST_ERROR_MAX_LENGTH then Inl ValidationError else Inr s)"

section \<open>Business invariants\<close>

text \<open>\<open>BaseEvent.is_locked\<close>, \<open>can_retry\<close>, \<open>attempts_left\<close> and \<open>failure_count\<close>.\<close>

definition is_locked :: "'x base_event_scheme \<Rightarrow> bool" where
  "is_locked e \<longleftrightarrow> locked_at e \<noteq> None"

definition can_retry :: "'x base_event_scheme \<Rightarrow> bool" where
  "can_retry e \<longleftrightarrow> status e = PENDING \<and> attempts_made e < max_attempts e"

definition attempts_left :: "'x base_event_scheme \<Rightarrow> int" where
  "attempts_left e = (if status e \<noteq> PENDING then 0 else max_attempts e - attempts_made e)"

definition failure_count :: "'x base_event_scheme \<Rightarrow> int" where
  "failure_count e = (if status e = FAILED then attempts_made e else 0)"

text \<open>\<open>True\<close> where the validator returns, \<open>False\<close> where it raises.\<close>

definition validate_status_timing :: "'x base_event_scheme \<Rightarrow> bool" where
  "validate_status_timing e =
     (if status e = COMPLETED then
        (case completed_at e of
           None \<Rightarrow> False
         | Some c \<Rightarrow>
             if c < created_at e \<and> created_at e - c > us_per_s then False
             else if c < scheduled_at e \<and> scheduled_at e - c > us_per_s then False
             else True)
      else completed_at e = None)"

definition validate_attempts :: "'x base_event_scheme \<Rightarrow> bool" where
  "validate_attempts e =
     (if attempts_made e > max_attempts e then False
      else if status e = FAILED \<and> attempts_made e \<noteq> max_attempts e then False
      else if status e = PENDING \<and> attempts_made e \<ge> max_attempts e then False
      else True)"

definition validate_lock :: "'x base_event_scheme \<Rightarrow> bool" where
  "validate_lock e =
     (if (locked_at e \<noteq> None) \<noteq> (locked_by e \<noteq> None) then False
      else if is_locked e \<and> status e \<noteq> PENDING then False
      else True)"

definition validate_invariants :: "'x base_event_scheme \<Rightarrow> bool" where
  "validate_invariants e \<longleftrightarrow> validate_status_timing e \<and> validate_attempts e \<and> validate_lock e"

section \<open>Validation of a whole event\<close>

text \<open>
  \<open>BaseEvent.model_validate\<close>: every field through its validators, in the order of the class, then
  the invariants. All of it raises \<open>ValidationError\<close>, so the order shows only in the result.
\<close>

definition BaseEvent_fields :: "libs \<Rightarrow> vctx \<Rightarrow> 'x base_event_scheme \<Rightarrow> 'x base_event_scheme res" where
  "BaseEvent_fields L ctx e =
     bindr (stripped_non_empty EVENT_TYPE_MAX_LENGTH (event_type e)) (\<lambda>v_event_type.
     bindr (validate_payload L ctx (payload e)) (\<lambda>v_payload.
     bindr (validate_headers L ctx (headers e)) (\<lambda>v_headers.
     bindr (map_res_opt (stripped_non_empty TRACE_ID_MAX_LENGTH) (trace_id e)) (\<lambda>v_trace_id.
     bindr (map_res_opt (stripped_non_empty IDEMPOTENCY_KEY_MAX_LENGTH) (idempotency_key e)) (\<lambda>v_idem.
     bindr (map_res_opt (stripped_non_empty CORRELATION_ID_MAX_LENGTH) (correlation_id e)) (\<lambda>v_corr.
     bindr (map_res_opt (stripped_non_empty CAUSATION_ID_MAX_LENGTH) (causation_id e)) (\<lambda>v_caus.
     bindr (map_res_opt (stripped_non_empty SCHEMA_VERSION_MAX_LENGTH) (schema_version e)) (\<lambda>v_schema.
     bindr (if attempts_made e < 0 then Inl ValidationError else Inr ()) (\<lambda>_.
     bindr (if max_attempts e < 1 then Inl ValidationError else Inr ()) (\<lambda>_.
     bindr (map_res_opt validate_last_error (last_error e)) (\<lambda>v_last_error.
     bindr (validate_scheduled_at ctx (created_at e) (scheduled_at e)) (\<lambda>v_scheduled_at.
     bindr (map_res_opt (stripped_non_empty WORKER_ID_MAX_LENGTH) (locked_by e)) (\<lambda>v_locked_by.
     Inr (e\<lparr>event_type := v_event_type, payload := v_payload, headers := v_headers,
            trace_id := v_trace_id, idempotency_key := v_idem, correlation_id := v_corr,
            causation_id := v_caus, schema_version := v_schema, last_error := v_last_error,
            scheduled_at := v_scheduled_at, locked_by := v_locked_by\<rparr>))))))))))))))"

definition check_invariants :: "'x base_event_scheme \<Rightarrow> 'x base_event_scheme res" where
  "check_invariants e = (if validate_invariants e then Inr e else Inl ValidationError)"

definition OutboxEvent_validate :: "libs \<Rightarrow> vctx \<Rightarrow> outbox_event \<Rightarrow> outbox_event res" where
  "OutboxEvent_validate L ctx e =
     bindr (BaseEvent_fields L ctx e) (\<lambda>e.
     bindr (stripped_non_empty AGGREGATE_TYPE_MAX_LENGTH (aggregate_type e)) (\<lambda>v_aggregate_type.
     bindr (stripped_non_empty TOPIC_MAX_LENGTH (topic e)) (\<lambda>v_topic.
     bindr (stripped_non_empty PARTITION_KEY_MAX_LENGTH (partition_key e)) (\<lambda>v_partition_key.
     check_invariants
       (e\<lparr>aggregate_type := v_aggregate_type, topic := v_topic, partition_key := v_partition_key\<rparr>)))))"

definition InboxEvent_validate :: "libs \<Rightarrow> vctx \<Rightarrow> inbox_event \<Rightarrow> inbox_event res" where
  "InboxEvent_validate L ctx e =
     bindr (BaseEvent_fields L ctx e) (\<lambda>e.
     bindr (stripped_non_empty MESSAGE_ID_MAX_LENGTH (message_id e)) (\<lambda>v_message_id.
     bindr (stripped_non_empty CONSUMER_GROUP_MAX_LENGTH (consumer_group e)) (\<lambda>v_consumer_group.
     bindr (stripped_non_empty SOURCE_MAX_LENGTH (source e)) (\<lambda>v_source.
     check_invariants
       (e\<lparr>message_id := v_message_id, consumer_group := v_consumer_group, source := v_source\<rparr>)))))"

section \<open>What validation establishes\<close>

definition field_ok :: "nat \<Rightarrow> pystr \<Rightarrow> bool" where
  "field_ok n s \<longleftrightarrow> s \<noteq> [] \<and> strip s = s \<and> length s \<le> n"

lemma stripped_non_empty_Inr: "stripped_non_empty n s = Inr t \<longleftrightarrow> t = strip s \<and> field_ok n t"
  by (auto simp: stripped_non_empty_def field_ok_def)

lemma stripped_non_empty_idle [simp]: "field_ok n s \<Longrightarrow> stripped_non_empty n s = Inr s"
  by (simp add: stripped_non_empty_def field_ok_def)

abbreviation opt_field_ok :: "nat \<Rightarrow> pystr option \<Rightarrow> bool" where
  "opt_field_ok n x \<equiv> pred_option (field_ok n) x"

lemma map_res_opt_stripped:
  "map_res_opt (stripped_non_empty n) x = Inr y \<Longrightarrow> opt_field_ok n y"
  by (cases x) (auto simp: res_simps stripped_non_empty_Inr)

lemma map_res_opt_idle:
  "(\<And>a. x = Some a \<Longrightarrow> f a = Inr a) \<Longrightarrow> map_res_opt f x = Inr x"
  by (cases x) simp_all

lemma map_res_opt_stripped_idle [simp]:
  "opt_field_ok n x \<Longrightarrow> map_res_opt (stripped_non_empty n) x = Inr x"
  by (rule map_res_opt_idle) simp

definition payload_ok :: "libs \<Rightarrow> vctx \<Rightarrow> jdict \<Rightarrow> bool" where
  "payload_ok L ctx v \<longleftrightarrow> v \<noteq> [] \<and>
     (payload_trusted ctx \<or>
      (\<exists>b. orjson_dumps L v = Some b \<and> \<not> nonfinite (JObj v) \<and>
        int (length b) \<le> get_or (payload_max_bytes ctx) DEFAULT_PAYLOAD_MAX_BYTES \<and>
        1 \<le> get_or (payload_max_bytes ctx) DEFAULT_PAYLOAD_MAX_BYTES))"

lemma validate_payload_ok:
  assumes "orjson_roundtrip L" and "validate_payload L ctx v = Inr r"
  shows "r = v \<and> payload_ok L ctx r"
  using assms
  by (fastforce simp: validate_payload_def payload_ok_def orjson_roundtrip_def
      split: if_splits option.splits json.splits)

lemma validate_payload_idle:
  assumes "orjson_roundtrip L" and "payload_ok L ctx v"
  shows "validate_payload L ctx v = Inr v"
  using assms by (auto simp: validate_payload_def payload_ok_def orjson_roundtrip_def)

lemma validate_scheduled_at_Inr: "validate_scheduled_at ctx c v = Inr r \<Longrightarrow> r = v"
  by (auto simp: validate_scheduled_at_def Let_def split: if_splits)

lemma validate_last_error_Inr: "validate_last_error s = Inr r \<Longrightarrow> r = s"
  by (auto simp: validate_last_error_def split: if_splits)

text \<open>The fields of \<open>BaseEvent\<close> as validation leaves them.\<close>

definition fields_ok :: "libs \<Rightarrow> vctx \<Rightarrow> 'x base_event_scheme \<Rightarrow> bool" where
  "fields_ok L ctx e \<longleftrightarrow>
     field_ok EVENT_TYPE_MAX_LENGTH (event_type e) \<and> payload_ok L ctx (payload e) \<and>
     pred_option (headers_ok L ctx) (headers e) \<and>
     opt_field_ok TRACE_ID_MAX_LENGTH (trace_id e) \<and>
     opt_field_ok IDEMPOTENCY_KEY_MAX_LENGTH (idempotency_key e) \<and>
     opt_field_ok CORRELATION_ID_MAX_LENGTH (correlation_id e) \<and>
     opt_field_ok CAUSATION_ID_MAX_LENGTH (causation_id e) \<and>
     opt_field_ok SCHEMA_VERSION_MAX_LENGTH (schema_version e) \<and>
     0 \<le> attempts_made e \<and> 1 \<le> max_attempts e \<and>
     pred_option (\<lambda>s. int (length s) \<le> LAST_ERROR_MAX_LENGTH) (last_error e) \<and>
     validate_scheduled_at ctx (created_at e) (scheduled_at e) = Inr (scheduled_at e) \<and>
     opt_field_ok WORKER_ID_MAX_LENGTH (locked_by e)"

lemma validate_headers_opt_ok:
  "validate_headers L ctx hs = Inr r \<Longrightarrow> pred_option (headers_ok L ctx) r"
  by (cases r) (auto dest: validate_headers_ok)

lemma validate_headers_opt_idle:
  "pred_option (headers_ok L ctx) hs \<Longrightarrow> validate_headers L ctx hs = Inr hs"
  by (cases hs) (auto intro: validate_headers_idle, simp add: validate_headers_def)

lemma last_error_ok:
  "map_res_opt validate_last_error x = Inr y \<Longrightarrow>
     y = x \<and> pred_option (\<lambda>s. int (length s) \<le> LAST_ERROR_MAX_LENGTH) x"
  by (cases x) (auto simp: res_simps validate_last_error_def split: if_splits)

lemma last_error_idle:
  "pred_option (\<lambda>s. int (length s) \<le> LAST_ERROR_MAX_LENGTH) x \<Longrightarrow>
     map_res_opt validate_last_error x = Inr x"
  by (rule map_res_opt_idle) (simp add: validate_last_error_def)

lemma BaseEvent_fields_ok:
  assumes "orjson_roundtrip L" and "BaseEvent_fields L ctx e = Inr e'"
  shows "fields_ok L ctx e'"
proof -
  from assms(2) obtain ty p h tr ik co ca sv le sc lb where
      parts: "stripped_non_empty EVENT_TYPE_MAX_LENGTH (event_type e) = Inr ty"
        "validate_payload L ctx (payload e) = Inr p" "validate_headers L ctx (headers e) = Inr h"
        "map_res_opt (stripped_non_empty TRACE_ID_MAX_LENGTH) (trace_id e) = Inr tr"
        "map_res_opt (stripped_non_empty IDEMPOTENCY_KEY_MAX_LENGTH) (idempotency_key e) = Inr ik"
        "map_res_opt (stripped_non_empty CORRELATION_ID_MAX_LENGTH) (correlation_id e) = Inr co"
        "map_res_opt (stripped_non_empty CAUSATION_ID_MAX_LENGTH) (causation_id e) = Inr ca"
        "map_res_opt (stripped_non_empty SCHEMA_VERSION_MAX_LENGTH) (schema_version e) = Inr sv"
        "0 \<le> attempts_made e" "1 \<le> max_attempts e"
        "map_res_opt validate_last_error (last_error e) = Inr le"
        "validate_scheduled_at ctx (created_at e) (scheduled_at e) = Inr sc"
        "map_res_opt (stripped_non_empty WORKER_ID_MAX_LENGTH) (locked_by e) = Inr lb"
    and e': "e' = e\<lparr>event_type := ty, payload := p, headers := h, trace_id := tr,
        idempotency_key := ik, correlation_id := co, causation_id := ca, schema_version := sv,
        last_error := le, scheduled_at := sc, locked_by := lb\<rparr>"
    unfolding BaseEvent_fields_def bindr_Inr_iff by (auto simp del: map_res_opt.simps split: if_splits)
  have "sc = scheduled_at e"
    using parts(12) by (rule validate_scheduled_at_Inr)
  with parts show ?thesis
    using validate_payload_ok [OF assms(1) parts(2)] last_error_ok [OF parts(11)]
    unfolding fields_ok_def e'
    by (auto simp: stripped_non_empty_Inr dest: map_res_opt_stripped validate_headers_opt_ok)
qed

lemma BaseEvent_fields_idle:
  assumes "orjson_roundtrip L" and "fields_ok L ctx e"
  shows "BaseEvent_fields L ctx e = Inr e"
  using assms
  by (simp add: fields_ok_def BaseEvent_fields_def validate_payload_idle validate_headers_opt_idle
      last_error_idle)

lemma BaseEvent_fields_more:
  "BaseEvent_fields L ctx e = Inr e' \<Longrightarrow> base_event.more e' = base_event.more e"
  unfolding BaseEvent_fields_def bindr_Inr_iff by (auto simp del: map_res_opt.simps)

text \<open>What validation never changes: the identity, the counters, the status and the times.\<close>

definition same_state :: "'x base_event_scheme \<Rightarrow> 'x base_event_scheme \<Rightarrow> bool" where
  "same_state a b \<longleftrightarrow> event_id a = event_id b \<and> status a = status b \<and>
     attempts_made a = attempts_made b \<and> max_attempts a = max_attempts b \<and>
     created_at a = created_at b \<and> scheduled_at a = scheduled_at b \<and>
     completed_at a = completed_at b \<and> locked_at a = locked_at b"

lemma BaseEvent_fields_same:
  assumes "BaseEvent_fields L ctx e = Inr e'"
  shows "same_state e' e"
proof -
  from assms obtain sc where "validate_scheduled_at ctx (created_at e) (scheduled_at e) = Inr sc"
    and "same_state e' (e\<lparr>scheduled_at := sc\<rparr>)"
    unfolding BaseEvent_fields_def bindr_Inr_iff same_state_def by (auto simp del: map_res_opt.simps)
  then show ?thesis
    by (auto simp: same_state_def dest: validate_scheduled_at_Inr)
qed

section \<open>The classes of events\<close>

text \<open>
  What the domain service and the repositories rely on of an event class: \<open>model_validate\<close> returns
  events whose fields and invariants hold, returns such an event as it is, and checks the fields
  of the class itself by themselves (\<open>extra\<close>).
\<close>

text \<open>An event of a class, validated in a context; \<open>extra\<close> is what the class checks of its own fields.\<close>

definition valid_event :: "('x base_event_scheme \<Rightarrow> bool) \<Rightarrow> libs \<Rightarrow> vctx \<Rightarrow> 'x base_event_scheme \<Rightarrow> bool"
where
  "valid_event extra L ctx e \<longleftrightarrow> fields_ok L ctx e \<and> validate_invariants e \<and> extra e"

locale event_class =
  fixes validate :: "libs \<Rightarrow> vctx \<Rightarrow> 'x base_event_scheme \<Rightarrow> 'x base_event_scheme res"
    and extra :: "'x base_event_scheme \<Rightarrow> bool"
  assumes class_ok: "orjson_roundtrip L \<Longrightarrow> validate L ctx e = Inr e' \<Longrightarrow>
      fields_ok L ctx e' \<and> validate_invariants e' \<and> extra e'"
    and class_idle: "orjson_roundtrip L \<Longrightarrow> fields_ok L ctx e \<Longrightarrow> extra e \<Longrightarrow>
      validate L ctx e = (if validate_invariants e then Inr e else Inl ValidationError)"
    and class_same: "validate L ctx e = Inr e' \<Longrightarrow> same_state e' e"
    and class_extra: "base_event.more e = base_event.more e' \<Longrightarrow> extra e = extra e'"
begin

lemma valid_validate: "orjson_roundtrip L \<Longrightarrow> validate L ctx e = Inr e' \<Longrightarrow> valid_event extra L ctx e'"
  using class_ok by (simp add: valid_event_def)

lemma validate_valid:
  "orjson_roundtrip L \<Longrightarrow> valid_event extra L ctx e \<Longrightarrow> validate L ctx e = Inr e"
  by (simp add: valid_event_def class_idle)

end

definition outbox_extra :: "outbox_event \<Rightarrow> bool" where
  "outbox_extra e \<longleftrightarrow> field_ok AGGREGATE_TYPE_MAX_LENGTH (aggregate_type e) \<and>
     field_ok TOPIC_MAX_LENGTH (topic e) \<and> field_ok PARTITION_KEY_MAX_LENGTH (partition_key e)"

definition inbox_extra :: "inbox_event \<Rightarrow> bool" where
  "inbox_extra e \<longleftrightarrow> field_ok MESSAGE_ID_MAX_LENGTH (message_id e) \<and>
     field_ok CONSUMER_GROUP_MAX_LENGTH (consumer_group e) \<and> field_ok SOURCE_MAX_LENGTH (source e)"

lemma fields_ok_outbox [simp]:
  "fields_ok L ctx (e\<lparr>aggregate_type := a, topic := t, partition_key := p\<rparr>) = fields_ok L ctx e"
  by (simp add: fields_ok_def)

lemma fields_ok_inbox [simp]:
  "fields_ok L ctx (e\<lparr>message_id := m, consumer_group := g, source := s\<rparr>) = fields_ok L ctx e"
  by (simp add: fields_ok_def)

lemma check_invariants_Inr: "check_invariants e = Inr e' \<longleftrightarrow> e' = e \<and> validate_invariants e"
  by (auto simp: check_invariants_def)

interpretation outbox_class: event_class OutboxEvent_validate outbox_extra
proof
  fix L ctx and e e' :: outbox_event
  assume "orjson_roundtrip L" and "OutboxEvent_validate L ctx e = Inr e'"
  then show "fields_ok L ctx e' \<and> validate_invariants e' \<and> outbox_extra e'"
    by (auto simp: OutboxEvent_validate_def outbox_extra_def res_simps stripped_non_empty_Inr
        check_invariants_Inr dest: BaseEvent_fields_ok)
next
  fix L ctx and e :: outbox_event
  assume "orjson_roundtrip L" and "fields_ok L ctx e" and "outbox_extra e"
  then show "OutboxEvent_validate L ctx e = (if validate_invariants e then Inr e else Inl ValidationError)"
    by (simp add: OutboxEvent_validate_def outbox_extra_def BaseEvent_fields_idle check_invariants_def)
next
  fix L ctx and e e' :: outbox_event
  assume "OutboxEvent_validate L ctx e = Inr e'"
  then obtain f where "BaseEvent_fields L ctx e = Inr f" and "same_state e' f"
    by (auto simp: OutboxEvent_validate_def res_simps check_invariants_Inr same_state_def)
  then show "same_state e' e"
    using BaseEvent_fields_same by (fastforce simp: same_state_def)
next
  fix e e' :: outbox_event
  assume "base_event.more e = base_event.more e'"
  then show "outbox_extra e = outbox_extra e'"
    by (cases e; cases e') (simp add: outbox_extra_def)
qed

interpretation inbox_class: event_class InboxEvent_validate inbox_extra
proof
  fix L ctx and e e' :: inbox_event
  assume "orjson_roundtrip L" and "InboxEvent_validate L ctx e = Inr e'"
  then show "fields_ok L ctx e' \<and> validate_invariants e' \<and> inbox_extra e'"
    by (auto simp: InboxEvent_validate_def inbox_extra_def res_simps stripped_non_empty_Inr
        check_invariants_Inr dest: BaseEvent_fields_ok)
next
  fix L ctx and e :: inbox_event
  assume "orjson_roundtrip L" and "fields_ok L ctx e" and "inbox_extra e"
  then show "InboxEvent_validate L ctx e = (if validate_invariants e then Inr e else Inl ValidationError)"
    by (simp add: InboxEvent_validate_def inbox_extra_def BaseEvent_fields_idle check_invariants_def)
next
  fix L ctx and e e' :: inbox_event
  assume "InboxEvent_validate L ctx e = Inr e'"
  then obtain f where "BaseEvent_fields L ctx e = Inr f" and "same_state e' f"
    by (auto simp: InboxEvent_validate_def res_simps check_invariants_Inr same_state_def)
  then show "same_state e' e"
    using BaseEvent_fields_same by (fastforce simp: same_state_def)
next
  fix e e' :: inbox_event
  assume "base_event.more e = base_event.more e'"
  then show "inbox_extra e = inbox_extra e'"
    by (cases e; cases e') (simp add: inbox_extra_def)
qed

end
