(* ===== verification/Domain.thy ===== *)
theory Domain
  imports Events
begin

text \<open>
  \<open>OmniBoxDomainService\<close> (\<open>omni_box/core/services/domain.py\<close>): creation of events and the
  transitions of one event (lock, refresh, unlock, force unlock, complete, fail). \<open>V\<close> is the
  \<open>model_validate\<close> of the event's class. The lemmas give the result of every transition on a valid
  event; the properties are the lock discipline, the life cycle and the bounded number of retries.
\<close>

section \<open>The service\<close>

record domain_service =
  svc_max_attempts :: int
  svc_scheduled_at_skew_seconds :: int
  svc_payload_max_bytes :: int
  svc_headers_max_count :: int
  svc_header_key_max_length :: int
  svc_header_value_max_length :: int
  svc_scheduled_at_max_future_seconds :: int
  svc_last_error_max_length :: int
  svc_truncation_suffix :: pystr

text \<open>\<open>OmniBoxDomainService()\<close>, every argument defaulted.\<close>

definition default_service :: domain_service where
  "default_service = \<lparr>
     svc_max_attempts = DEFAULT_MAX_ATTEMPTS,
     svc_scheduled_at_skew_seconds = DEFAULT_SCHEDULE_AT_SKEW_SECONDS,
     svc_payload_max_bytes = DEFAULT_PAYLOAD_MAX_BYTES,
     svc_headers_max_count = DEFAULT_HEADERS_MAX_COUNT,
     svc_header_key_max_length = DEFAULT_HEADER_KEY_MAX_LENGTH,
     svc_header_value_max_length = DEFAULT_HEADER_VALUE_MAX_LENGTH,
     svc_scheduled_at_max_future_seconds = DEFAULT_SCHEDULE_AT_MAX_FUTURE_SECONDS,
     svc_last_error_max_length = LAST_ERROR_MAX_LENGTH,
     svc_truncation_suffix = DEFAULT_TRUNCATION_SUFFIX\<rparr>"

definition validation_context :: "domain_service \<Rightarrow> vctx" where
  "validation_context svc = \<lparr>
     scheduled_at_skew_seconds = Some (svc_scheduled_at_skew_seconds svc),
     scheduled_at_max_future_seconds = Some (svc_scheduled_at_max_future_seconds svc),
     payload_trusted = False,
     payload_max_bytes = Some (svc_payload_max_bytes svc),
     headers_max_count = Some (svc_headers_max_count svc),
     header_key_max_length = Some (svc_header_key_max_length svc),
     header_value_max_length = Some (svc_header_value_max_length svc)\<rparr>"

type_synonym 'x event_validate = "libs \<Rightarrow> vctx \<Rightarrow> 'x base_event_scheme \<Rightarrow> 'x base_event_scheme res"

section \<open>Creation\<close>

text \<open>
  \<open>new_id\<close> is \<open>uuid4()\<close>, \<open>now1\<close> and \<open>now2\<close> the clock as the defaults of \<open>created_at\<close> and
  \<open>scheduled_at\<close> read it; \<open>payload\<close> is what \<open>to_jsonable_python\<close> made of the argument.
\<close>

record create_options =
  opt_headers :: "(pystr \<times> pystr) list option"
  opt_max_attempts :: "int option"
  opt_trace_id :: "pystr option"
  opt_idempotency_key :: "pystr option"
  opt_correlation_id :: "pystr option"
  opt_causation_id :: "pystr option"
  opt_schema_version :: "pystr option"
  opt_scheduled_at :: "datetime option"

text \<open>Python's \<open>x or d\<close> on an integer that may be \<open>None\<close>: 0 counts as missing.\<close>

definition int_or :: "int option \<Rightarrow> int \<Rightarrow> int" where
  "int_or x d = (case x of Some n \<Rightarrow> if n = 0 then d else n | None \<Rightarrow> d)"

definition create_outbox_event :: "libs \<Rightarrow> domain_service \<Rightarrow> uuid \<Rightarrow> instant \<Rightarrow> instant \<Rightarrow>
    pystr \<Rightarrow> uuid \<Rightarrow> pystr \<Rightarrow> pystr \<Rightarrow> pystr \<Rightarrow> jdict \<Rightarrow> create_options \<Rightarrow> outbox_event res" where
  "create_outbox_event L svc new_id now1 now2 agg_type agg_id ev_type topic_name part_key body opts =
     bindr (case opt_scheduled_at opts of None \<Rightarrow> Inr now2 | Some d \<Rightarrow> validate_timezone d) (\<lambda>sched.
     OutboxEvent_validate L (validation_context svc)
       \<lparr>event_id = new_id, event_type = strip ev_type, payload = body, headers = opt_headers opts,
        trace_id = opt_trace_id opts, idempotency_key = opt_idempotency_key opts,
        correlation_id = opt_correlation_id opts, causation_id = opt_causation_id opts,
        schema_version = opt_schema_version opts, status = PENDING, attempts_made = 0,
        max_attempts = int_or (opt_max_attempts opts) (svc_max_attempts svc), last_error = None,
        created_at = now1, scheduled_at = sched, completed_at = None, locked_at = None,
        locked_by = None,
        aggregate_type = strip agg_type, aggregate_id = agg_id, topic = strip topic_name,
        partition_key = strip part_key\<rparr>)"

definition create_inbox_event :: "libs \<Rightarrow> domain_service \<Rightarrow> uuid \<Rightarrow> instant \<Rightarrow> instant \<Rightarrow>
    pystr \<Rightarrow> pystr \<Rightarrow> pystr \<Rightarrow> pystr \<Rightarrow> jdict \<Rightarrow> (pystr \<times> pystr) list option \<Rightarrow>
    pystr option \<Rightarrow> pystr option \<Rightarrow> pystr option \<Rightarrow> pystr option \<Rightarrow> inbox_event res" where
  "create_inbox_event L svc new_id now1 now2 msg_id grp src ev_type body hdrs trace corr caus schema =
     InboxEvent_validate L (validation_context svc)
       \<lparr>event_id = new_id, event_type = strip ev_type, payload = body, headers = hdrs,
        trace_id = trace, idempotency_key = None, correlation_id = corr, causation_id = caus,
        schema_version = schema, status = PENDING, attempts_made = 0,
        max_attempts = svc_max_attempts svc, last_error = None,
        created_at = now1, scheduled_at = now2, completed_at = None, locked_at = None,
        locked_by = None,
        message_id = strip msg_id, consumer_group = strip grp, source = strip src\<rparr>"

section \<open>Transitions\<close>

text \<open>\<open>_copy_event_with_update\<close>: the event with the update applied, validated again.\<close>

definition copy_event_with_update :: "'x event_validate \<Rightarrow> libs \<Rightarrow> domain_service \<Rightarrow>
    'x base_event_scheme \<Rightarrow> 'x base_event_scheme res" where
  "copy_event_with_update V L svc updated = V L (validation_context svc) updated"

text \<open>A float number of seconds is a rational; a duration is compared in microseconds.\<close>

definition is_lock_stale :: "'x base_event_scheme \<Rightarrow> datetime \<Rightarrow> rat option \<Rightarrow> bool res" where
  "is_lock_stale e now stale_timeout_seconds =
     (case locked_at e of
        None \<Rightarrow> Inr False
      | Some since \<Rightarrow>
          let timeout = get_or stale_timeout_seconds (of_int DEFAULT_LEASE_TIMEOUT_SECONDS) in
          if timeout \<le> 0 then Inl ValueError
          else case now of
            Naive _ \<Rightarrow> Inl ValueError
          | Aware t _ \<Rightarrow> Inr (of_int (t - since) > timeout * of_int us_per_s))"

definition assert_locked_by :: "'x base_event_scheme \<Rightarrow> pystr \<Rightarrow> unit res" where
  "assert_locked_by e worker_id =
     (if strip worker_id = [] then Inl ValueError
      else if locked_at e = None then Inl (EventNotLockedError (event_id e))
      else if locked_by e \<noteq> Some (strip worker_id)
      then Inl (EventLockedByAnotherWorkerError (event_id e) (locked_by e) (strip worker_id))
      else Inr ())"

definition lock_event :: "'x event_validate \<Rightarrow> libs \<Rightarrow> domain_service \<Rightarrow>
    'x base_event_scheme \<Rightarrow> pystr \<Rightarrow> datetime \<Rightarrow> 'x base_event_scheme res" where
  "lock_event V L svc e worker_id when =
     (if status e \<noteq> PENDING then Inl (InvalidEventStateError (event_id e) (status e) [PENDING])
      else if strip worker_id = [] then Inl ValueError
      else if locked_at e \<noteq> None then Inl (EventAlreadyLockedError (event_id e) (locked_by e))
      else case when of
        Naive _ \<Rightarrow> Inl ValueError
      | Aware t _ \<Rightarrow>
          copy_event_with_update V L svc (e\<lparr>locked_at := Some t, locked_by := Some (strip worker_id)\<rparr>))"

definition refresh_event_lock :: "'x event_validate \<Rightarrow> libs \<Rightarrow> domain_service \<Rightarrow>
    'x base_event_scheme \<Rightarrow> pystr \<Rightarrow> datetime \<Rightarrow> 'x base_event_scheme res" where
  "refresh_event_lock V L svc e worker_id now =
     (if status e \<noteq> PENDING then Inl (InvalidEventStateError (event_id e) (status e) [PENDING])
      else bindr (assert_locked_by e worker_id) (\<lambda>_.
        case now of
          Naive _ \<Rightarrow> Inl ValueError
        | Aware t _ \<Rightarrow> copy_event_with_update V L svc (e\<lparr>locked_at := Some t\<rparr>)))"

definition unlock_event :: "'x event_validate \<Rightarrow> libs \<Rightarrow> domain_service \<Rightarrow>
    'x base_event_scheme \<Rightarrow> pystr \<Rightarrow> 'x base_event_scheme res" where
  "unlock_event V L svc e worker_id =
     (if status e \<noteq> PENDING then Inl (InvalidEventStateError (event_id e) (status e) [PENDING])
      else bindr (assert_locked_by e worker_id) (\<lambda>_.
        copy_event_with_update V L svc (e\<lparr>locked_at := None, locked_by := None\<rparr>)))"

definition force_unlock_event :: "'x event_validate \<Rightarrow> libs \<Rightarrow> domain_service \<Rightarrow>
    'x base_event_scheme \<Rightarrow> pystr \<Rightarrow> 'x base_event_scheme res" where
  "force_unlock_event V L svc e reason =
     (if locked_at e = None then Inl (EventNotLockedError (event_id e))
      else if strip reason = [] then Inl ValueError
      else if length (strip reason) > FORCE_UNLOCK_REASON_MAX_LENGTH then Inl ValueError
      else copy_event_with_update V L svc
        (e\<lparr>locked_at := None, locked_by := None,
           last_error := Some (lit ''Administrative force unlock: '' @ strip reason)\<rparr>))"

definition mark_event_completed :: "'x event_validate \<Rightarrow> libs \<Rightarrow> domain_service \<Rightarrow>
    'x base_event_scheme \<Rightarrow> datetime \<Rightarrow> pystr \<Rightarrow> 'x base_event_scheme res" where
  "mark_event_completed V L svc e when worker_id =
     bindr (assert_locked_by e worker_id) (\<lambda>_.
     if status e = COMPLETED then Inl (InvalidEventStateError (event_id e) (status e) [PENDING])
     else if status e = FAILED then Inl (InvalidEventStateError (event_id e) (status e) [PENDING])
     else case when of
       Naive _ \<Rightarrow> Inl ValueError
     | Aware t _ \<Rightarrow>
         if t < created_at e then Inl ValueError
         else if t < scheduled_at e then Inl ValueError
         else copy_event_with_update V L svc
           (e\<lparr>status := COMPLETED, completed_at := Some t, locked_at := None, locked_by := None\<rparr>))"

text \<open>The status and the counters \<open>mark_event_failed\<close> computes, before it looks at the retry time.\<close>

definition failed_update :: "'x base_event_scheme \<Rightarrow> pystr \<Rightarrow> bool \<Rightarrow> 'x base_event_scheme" where
  "failed_update e truncated_error count_as_attempt =
     (let new_attempts_made = attempts_made e + (if count_as_attempt then 1 else 0) in
      e\<lparr>status := (if new_attempts_made = max_attempts e then FAILED else PENDING),
        attempts_made := new_attempts_made, last_error := Some truncated_error,
        locked_at := None, locked_by := None\<rparr>)"

definition mark_event_failed :: "'x event_validate \<Rightarrow> libs \<Rightarrow> domain_service \<Rightarrow>
    'x base_event_scheme \<Rightarrow> pystr \<Rightarrow> pystr \<Rightarrow> bool \<Rightarrow> datetime option \<Rightarrow> 'x base_event_scheme res" where
  "mark_event_failed V L svc e err worker_id count_as_attempt next_retry_at =
     (if strip err = [] then Inl ValueError
      else if \<not> count_as_attempt \<and> next_retry_at = None then Inl ValueError
      else bindr (assert_locked_by e worker_id) (\<lambda>_.
        if status e = COMPLETED then Inl (InvalidEventStateError (event_id e) (status e) [PENDING])
        else if status e = FAILED then Inl (InvalidEventStateError (event_id e) (status e) [PENDING])
        else if attempts_made e + (if count_as_attempt then 1 else 0) > max_attempts e
        then Inl ValueError
        else bindr (truncate_error err (svc_last_error_max_length svc) (svc_truncation_suffix svc))
          (\<lambda>truncated.
          case next_retry_at of
            None \<Rightarrow> copy_event_with_update V L svc (failed_update e truncated count_as_attempt)
          | Some (Naive _) \<Rightarrow> Inl ValueError
          | Some (Aware t _) \<Rightarrow>
              if t < created_at e then Inl ValueError
              else if t - created_at e > svc_scheduled_at_max_future_seconds svc * us_per_s
              then Inl ValueError
              else copy_event_with_update V L svc
                ((failed_update e truncated count_as_attempt)\<lparr>scheduled_at := t\<rparr>))))"

section \<open>The transitions on a valid event\<close>

lemmas invariant_defs =
  validate_invariants_def validate_status_timing_def validate_attempts_def validate_lock_def
  is_locked_def

lemma locked_is_pending:
  "validate_invariants e \<Longrightarrow> locked_at e \<noteq> None \<Longrightarrow> status e = PENDING"
  by (auto simp: invariant_defs split: if_splits)

lemma pending_retryable:
  "validate_invariants e \<Longrightarrow> status e = PENDING \<Longrightarrow> attempts_made e < max_attempts e"
  by (auto simp: invariant_defs split: if_splits)

lemma assert_locked_by_Inr_iff:
  "assert_locked_by e w = Inr u \<longleftrightarrow>
     strip w \<noteq> [] \<and> locked_at e \<noteq> None \<and> locked_by e = Some (strip w)"
  by (auto simp: assert_locked_by_def)

lemma failed_update_sel [simp]:
  "status (failed_update e tr c) =
     (if attempts_made e + (if c then 1 else 0) = max_attempts e then FAILED else PENDING)"
  "attempts_made (failed_update e tr c) = attempts_made e + (if c then 1 else 0)"
  "max_attempts (failed_update e tr c) = max_attempts e"
  "last_error (failed_update e tr c) = Some tr"
  "locked_at (failed_update e tr c) = None"
  "locked_by (failed_update e tr c) = None"
  "completed_at (failed_update e tr c) = completed_at e"
  "created_at (failed_update e tr c) = created_at e"
  "scheduled_at (failed_update e tr c) = scheduled_at e"
  "base_event.more (failed_update e tr c) = base_event.more e"
  by (simp_all add: failed_update_def Let_def)

lemma validate_invariants_failed:
  assumes "completed_at e = None" and "attempts_made e + (if c then 1 else 0) \<le> max_attempts e"
  shows "validate_invariants ((failed_update e tr c)\<lparr>scheduled_at := t\<rparr>)"
proof (cases "attempts_made e + (if c then 1 else 0) = max_attempts e")
  case True
  then show ?thesis
    using assms(1)
    by (simp add: validate_invariants_def validate_status_timing_def validate_attempts_def
        validate_lock_def is_locked_def)
next
  case False
  then show ?thesis
    using assms
    by (simp add: validate_invariants_def validate_status_timing_def validate_attempts_def
        validate_lock_def is_locked_def)
qed

context event_class
begin

lemma copy_valid:
  assumes "orjson_roundtrip L" and "fields_ok L (validation_context svc) e'"
    and "validate_invariants e'" and "extra e" and "base_event.more e' = base_event.more e"
  shows "copy_event_with_update validate L svc e' = Inr e'"
  using assms class_idle [of L "validation_context svc" e'] class_extra [of e' e]
  by (simp add: copy_event_with_update_def)

lemma copy_is_valid:
  "orjson_roundtrip L \<Longrightarrow> copy_event_with_update validate L svc e = Inr e' \<Longrightarrow>
     valid_event extra L (validation_context svc) e'"
  unfolding copy_event_with_update_def by (rule valid_validate)

lemma lock_event_valid:
  assumes "orjson_roundtrip L" and "valid_event extra L (validation_context svc) e"
    and "status e = PENDING" and "locked_at e = None" and "field_ok WORKER_ID_MAX_LENGTH (strip w)"
  shows "lock_event validate L svc e w (Aware t off) =
    Inr (e\<lparr>locked_at := Some t, locked_by := Some (strip w)\<rparr>)"
proof -
  have "copy_event_with_update validate L svc (e\<lparr>locked_at := Some t, locked_by := Some (strip w)\<rparr>) =
      Inr (e\<lparr>locked_at := Some t, locked_by := Some (strip w)\<rparr>)"
    using assms
    by (intro copy_valid [where e = e])
      (auto simp: valid_event_def fields_ok_def invariant_defs split: if_splits)
  with assms show ?thesis
    by (simp add: lock_event_def field_ok_def)
qed

lemma refresh_event_lock_valid:
  assumes "orjson_roundtrip L" and "valid_event extra L (validation_context svc) e"
    and "locked_at e \<noteq> None" and "locked_by e = Some (strip w)"
  shows "refresh_event_lock validate L svc e w (Aware t off) = Inr (e\<lparr>locked_at := Some t\<rparr>)"
proof -
  have "copy_event_with_update validate L svc (e\<lparr>locked_at := Some t\<rparr>) = Inr (e\<lparr>locked_at := Some t\<rparr>)"
    using assms
    by (intro copy_valid [where e = e])
      (auto simp: valid_event_def fields_ok_def invariant_defs split: if_splits)
  moreover have "status e = PENDING" and "strip w \<noteq> []"
    using assms by (auto simp: valid_event_def fields_ok_def field_ok_def intro: locked_is_pending)
  ultimately show ?thesis
    using assms by (simp add: refresh_event_lock_def assert_locked_by_def)
qed

lemma copy_unlocked:
  assumes "orjson_roundtrip L" and "valid_event extra L (validation_context svc) e"
    and "status e = PENDING"
  shows "copy_event_with_update validate L svc (e\<lparr>locked_at := None, locked_by := None\<rparr>) =
    Inr (e\<lparr>locked_at := None, locked_by := None\<rparr>)"
  using assms
  by (intro copy_valid [where e = e])
    (auto simp: valid_event_def fields_ok_def invariant_defs split: if_splits)

lemma unlock_event_valid:
  assumes "orjson_roundtrip L" and "valid_event extra L (validation_context svc) e"
    and "locked_at e \<noteq> None" and "locked_by e = Some (strip w)"
  shows "unlock_event validate L svc e w = Inr (e\<lparr>locked_at := None, locked_by := None\<rparr>)"
proof -
  have "status e = PENDING" and "strip w \<noteq> []"
    using assms by (auto simp: valid_event_def fields_ok_def field_ok_def intro: locked_is_pending)
  with assms copy_unlocked show ?thesis
    by (simp add: unlock_event_def assert_locked_by_def)
qed

lemma mark_event_completed_valid:
  assumes "orjson_roundtrip L" and "valid_event extra L (validation_context svc) e"
    and "locked_at e \<noteq> None" and "locked_by e = Some (strip w)"
    and "created_at e \<le> t" and "scheduled_at e \<le> t"
  shows "mark_event_completed validate L svc e (Aware t off) w =
    Inr (e\<lparr>status := COMPLETED, completed_at := Some t, locked_at := None, locked_by := None\<rparr>)"
proof -
  have p: "status e = PENDING" and w: "strip w \<noteq> []"
    using assms by (auto simp: valid_event_def fields_ok_def field_ok_def intro: locked_is_pending)
  then have "copy_event_with_update validate L svc
      (e\<lparr>status := COMPLETED, completed_at := Some t, locked_at := None, locked_by := None\<rparr>) =
    Inr (e\<lparr>status := COMPLETED, completed_at := Some t, locked_at := None, locked_by := None\<rparr>)"
    using assms
    by (intro copy_valid [where e = e])
      (auto simp: valid_event_def fields_ok_def invariant_defs split: if_splits)
  with assms p w show ?thesis
    by (simp add: mark_event_completed_def assert_locked_by_def)
qed

text \<open>The update of a failure keeps an event valid, whatever the retry time it is given in range.\<close>

lemma copy_failed_update:
  assumes "orjson_roundtrip L" and "valid_event extra L (validation_context svc) e"
    and "status e = PENDING" and "int (length tr) \<le> LAST_ERROR_MAX_LENGTH"
    and "created_at e \<le> t \<and> t - created_at e \<le> svc_scheduled_at_max_future_seconds svc * us_per_s \<or>
      t = scheduled_at e"
  shows "copy_event_with_update validate L svc ((failed_update e tr c)\<lparr>scheduled_at := t\<rparr>) =
    Inr ((failed_update e tr c)\<lparr>scheduled_at := t\<rparr>)"
proof (rule copy_valid [where e = e])
  have "0 \<le> svc_scheduled_at_skew_seconds svc"
    using assms(2)
    by (auto simp: valid_event_def fields_ok_def validate_scheduled_at_def validation_context_def
        Let_def split: if_splits)
  then show "fields_ok L (validation_context svc) ((failed_update e tr c)\<lparr>scheduled_at := t\<rparr>)"
    using assms
    by (auto simp: valid_event_def fields_ok_def failed_update_def Let_def
        validate_scheduled_at_def validation_context_def split: if_splits)
  have inv: "validate_invariants e"
    using assms(2) by (simp add: valid_event_def)
  have "completed_at e = None"
    using inv assms(3) by (simp add: validate_invariants_def validate_status_timing_def)
  moreover have "attempts_made e + (if c then 1 else 0) \<le> max_attempts e"
    using pending_retryable [OF inv assms(3)] by simp
  ultimately show "validate_invariants ((failed_update e tr c)\<lparr>scheduled_at := t\<rparr>)"
    by (simp add: validate_invariants_failed)
qed (use assms in \<open>auto simp: valid_event_def failed_update_def Let_def\<close>)

lemma mark_event_failed_valid:
  assumes "orjson_roundtrip L" and "valid_event extra L (validation_context svc) e"
    and "locked_at e \<noteq> None" and "locked_by e = Some (strip w)"
    and "truncate_error err (svc_last_error_max_length svc) (svc_truncation_suffix svc) = Inr tr"
    and "int (length tr) \<le> LAST_ERROR_MAX_LENGTH"
    and "c \<or> nxt \<noteq> None"
    and "\<And>t. nxt = Some t \<Longrightarrow> created_at e \<le> t \<and>
      t - created_at e \<le> svc_scheduled_at_max_future_seconds svc * us_per_s"
  shows "mark_event_failed validate L svc e err w c (map_option (\<lambda>t. Aware t off) nxt) =
    Inr ((failed_update e tr c)\<lparr>scheduled_at := case nxt of None \<Rightarrow> scheduled_at e | Some t \<Rightarrow> t\<rparr>)"
proof -
  have inv: "validate_invariants e"
    using assms(2) by (simp add: valid_event_def)
  have p: "status e = PENDING" and w: "strip w \<noteq> []" and blank: "strip err \<noteq> []"
    using assms locked_is_pending [OF inv]
    by (auto simp: valid_event_def fields_ok_def field_ok_def truncate_error_def split: if_splits)
  have room: "attempts_made e + (if c then 1 else 0) \<le> max_attempts e"
    using pending_retryable [OF inv p] by simp
  have eta: "(failed_update e tr d)\<lparr>scheduled_at := scheduled_at e\<rparr> = failed_update e tr d" for d
    by (simp add: failed_update_def Let_def)
  show ?thesis
  proof (cases nxt)
    case None
    with assms p w blank room copy_failed_update [OF assms(1,2) p assms(6), of "scheduled_at e" c] show ?thesis
      by (simp add: mark_event_failed_def assert_locked_by_def eta)
  next
    case (Some t)
    with assms p w blank room copy_failed_update [OF assms(1,2) p assms(6), of t c] show ?thesis
      by (auto simp add: mark_event_failed_def assert_locked_by_def)
  qed
qed


text \<open>The update of every transition keeps the event's age and its budget of attempts.\<close>

lemma copy_same: "copy_event_with_update validate L svc u = Inr e' \<Longrightarrow> same_state e' u"
  unfolding copy_event_with_update_def by (rule class_same)

lemma lock_event_same:
  "lock_event validate L svc e w d = Inr e' \<Longrightarrow>
     (\<exists>t off. d = Aware t off \<and> same_state e' (e\<lparr>locked_at := Some t\<rparr>)) \<and> status e = PENDING \<and>
     locked_at e = None"
  by (auto simp: lock_event_def same_state_def split: if_splits datetime.splits dest!: copy_same)

lemma refresh_event_lock_same:
  "refresh_event_lock validate L svc e w d = Inr e' \<Longrightarrow>
     (\<exists>t off. d = Aware t off \<and> same_state e' (e\<lparr>locked_at := Some t\<rparr>)) \<and> status e = PENDING \<and>
     locked_at e \<noteq> None"
  by (auto simp: refresh_event_lock_def assert_locked_by_def res_simps same_state_def
      split: if_splits datetime.splits dest!: copy_same)

lemma unlock_event_same:
  "unlock_event validate L svc e w = Inr e' \<Longrightarrow>
     same_state e' (e\<lparr>locked_at := None\<rparr>) \<and> status e = PENDING \<and> locked_at e \<noteq> None"
  by (auto simp: unlock_event_def assert_locked_by_def res_simps same_state_def
      split: if_splits dest!: copy_same)

lemma force_unlock_event_same:
  "force_unlock_event validate L svc e r = Inr e' \<Longrightarrow>
     same_state e' (e\<lparr>locked_at := None\<rparr>) \<and> locked_at e \<noteq> None"
  by (auto simp: force_unlock_event_def same_state_def split: if_splits dest!: copy_same)

lemma mark_event_completed_same:
  "mark_event_completed validate L svc e d w = Inr e' \<Longrightarrow>
     (\<exists>t. same_state e' (e\<lparr>status := COMPLETED, completed_at := Some t, locked_at := None\<rparr>)) \<and>
     status e = PENDING \<and> locked_at e \<noteq> None"
  by (cases "status e") (auto simp: mark_event_completed_def assert_locked_by_def res_simps same_state_def
      split: if_splits datetime.splits dest!: copy_same)

lemma mark_event_failed_same:
  "mark_event_failed validate L svc e err w c nxt = Inr e' \<Longrightarrow>
     (\<exists>tr t. same_state e' ((failed_update e tr c)\<lparr>scheduled_at := t\<rparr>)) \<and>
     status e = PENDING \<and> locked_at e \<noteq> None"
  by (cases "status e") (auto simp: mark_event_failed_def assert_locked_by_def res_simps same_state_def
      split: if_splits datetime.splits option.splits dest!: copy_same)

end

section \<open>The life cycle of an event\<close>

text \<open>The calls a client makes on one event, and the event after a sequence of them.\<close>

datatype transition =
    Lock pystr datetime
  | Refresh pystr datetime
  | Unlock pystr
  | ForceUnlock pystr
  | Complete datetime pystr
  | Fail pystr pystr bool "datetime option"

fun apply_transition :: "'x event_validate \<Rightarrow> libs \<Rightarrow> domain_service \<Rightarrow> transition \<Rightarrow>
    'x base_event_scheme \<Rightarrow> 'x base_event_scheme res" where
  "apply_transition V L svc (Lock w d) e = lock_event V L svc e w d"
| "apply_transition V L svc (Refresh w d) e = refresh_event_lock V L svc e w d"
| "apply_transition V L svc (Unlock w) e = unlock_event V L svc e w"
| "apply_transition V L svc (ForceUnlock r) e = force_unlock_event V L svc e r"
| "apply_transition V L svc (Complete d w) e = mark_event_completed V L svc e d w"
| "apply_transition V L svc (Fail err w c nxt) e = mark_event_failed V L svc e err w c nxt"

fun run_transitions :: "'x event_validate \<Rightarrow> libs \<Rightarrow> domain_service \<Rightarrow> transition list \<Rightarrow>
    'x base_event_scheme \<Rightarrow> 'x base_event_scheme res" where
  "run_transitions V L svc [] e = Inr e"
| "run_transitions V L svc (tr # trs) e =
     bindr (apply_transition V L svc tr e) (run_transitions V L svc trs)"

lemma run_append:
  "run_transitions V L svc (xs @ ys) e =
     bindr (run_transitions V L svc xs e) (run_transitions V L svc ys)"
proof (induction xs arbitrary: e)
  case (Cons x xs)
  then show ?case
    by (cases "apply_transition V L svc x e") simp_all
qed simp

fun counted_failure :: "transition \<Rightarrow> bool" where
  "counted_failure (Fail _ _ c _) = c"
| "counted_failure _ = False"

definition counted_failures :: "transition list \<Rightarrow> int" where
  "counted_failures trs = int (length (List.filter counted_failure trs))"

context event_class
begin

lemma apply_valid:
  "orjson_roundtrip L \<Longrightarrow> apply_transition validate L svc tr e = Inr e' \<Longrightarrow>
     valid_event extra L (validation_context svc) e'"
  by (cases tr)
    (auto simp: lock_event_def refresh_event_lock_def unlock_event_def force_unlock_event_def
      mark_event_completed_def mark_event_failed_def res_simps
      split: if_splits datetime.splits option.splits intro: copy_is_valid)

lemma apply_counts:
  "apply_transition validate L svc tr e = Inr e' \<Longrightarrow>
     attempts_made e' = attempts_made e + (if counted_failure tr then 1 else 0) \<and>
     max_attempts e' = max_attempts e \<and> event_id e' = event_id e \<and> created_at e' = created_at e"
  by (cases tr)
    (auto simp: same_state_def failed_update_def Let_def dest!: lock_event_same refresh_event_lock_same
      unlock_event_same force_unlock_event_same mark_event_completed_same mark_event_failed_same)

lemma apply_needs_pending:
  assumes "validate_invariants e" and "apply_transition validate L svc tr e = Inr e'"
  shows "status e = PENDING"
  using assms(2) locked_is_pending [OF assms(1)]
  by (cases tr)
    (auto dest!: lock_event_same refresh_event_lock_same unlock_event_same force_unlock_event_same
      mark_event_completed_same mark_event_failed_same)

lemma run_valid:
  "orjson_roundtrip L \<Longrightarrow> valid_event extra L (validation_context svc) e \<Longrightarrow>
     run_transitions validate L svc trs e = Inr e' \<Longrightarrow> valid_event extra L (validation_context svc) e'"
  by (induction trs arbitrary: e) (auto simp: res_simps dest: apply_valid)

lemma run_counts:
  "run_transitions validate L svc trs e = Inr e' \<Longrightarrow>
     attempts_made e' = attempts_made e + counted_failures trs \<and>
     max_attempts e' = max_attempts e \<and> event_id e' = event_id e"
proof (induction trs arbitrary: e)
  case (Cons tr trs)
  then obtain m where "apply_transition validate L svc tr e = Inr m"
    and "run_transitions validate L svc trs m = Inr e'"
    by (auto simp: res_simps)
  with Cons.IH [of m] apply_counts [of L svc tr e m] show ?case
    by (simp add: counted_failures_def)
qed (simp add: counted_failures_def)

lemma run_bounded:
  assumes "orjson_roundtrip L" and "valid_event extra L (validation_context svc) e"
    and "run_transitions validate L svc trs e = Inr e'"
  shows "valid_event extra L (validation_context svc) e' \<and> event_id e' = event_id e \<and>
    attempts_made e' = attempts_made e + counted_failures trs \<and>
    counted_failures trs \<le> max_attempts e - attempts_made e"
  using run_valid [OF assms] run_counts [OF assms(3)]
  by (auto simp: valid_event_def validate_invariants_def validate_attempts_def split: if_splits)

lemma terminal_stuck:
  assumes "validate_invariants e" and "status e \<noteq> PENDING"
  shows "\<exists>err. apply_transition validate L svc tr e = Inl err"
  using apply_needs_pending [OF assms(1)] assms(2)
  by (cases "apply_transition validate L svc tr e") auto

text \<open>A lock, then a failure that counts and leaves the schedule: one delivery that went wrong.\<close>

lemma lock_then_fail:
  assumes "orjson_roundtrip L" and "valid_event extra L (validation_context svc) e"
    and "status e = PENDING" and "locked_at e = None" and "field_ok WORKER_ID_MAX_LENGTH (strip w)"
    and "truncate_error err (svc_last_error_max_length svc) (svc_truncation_suffix svc) = Inr tr"
    and "int (length tr) \<le> LAST_ERROR_MAX_LENGTH"
  shows "run_transitions validate L svc [Lock w (Aware t off), Fail err w True None] e =
    Inr (failed_update e tr True)"
proof -
  let ?l = "e\<lparr>locked_at := Some t, locked_by := Some (strip w)\<rparr>"
  have l: "lock_event validate L svc e w (Aware t off) = Inr ?l"
    using assms by (intro lock_event_valid)
  have "valid_event extra L (validation_context svc) ?l"
    using apply_valid [OF assms(1), of svc "Lock w (Aware t off)" e ?l] l by simp
  then have "mark_event_failed validate L svc ?l err w True None =
      Inr ((failed_update ?l tr True)\<lparr>scheduled_at := scheduled_at ?l\<rparr>)"
    using mark_event_failed_valid [OF assms(1), of svc ?l w err tr True None off] assms(6,7) by simp
  with l show ?thesis
    by (simp add: failed_update_def Let_def)
qed

lemma cycles_exhaust:
  assumes "orjson_roundtrip L" and "field_ok WORKER_ID_MAX_LENGTH (strip w)"
    and "truncate_error err (svc_last_error_max_length svc) (svc_truncation_suffix svc) = Inr tr"
    and "int (length tr) \<le> LAST_ERROR_MAX_LENGTH"
    and "valid_event extra L (validation_context svc) e" and "status e = PENDING" and "locked_at e = None"
    and "int n \<le> max_attempts e - attempts_made e" and "n \<noteq> 0"
  shows "run_transitions validate L svc
      (concat (replicate n [Lock w (Aware t off), Fail err w True None])) e =
    Inr (e\<lparr>status := (if int n = max_attempts e - attempts_made e then FAILED else PENDING),
       attempts_made := attempts_made e + int n, last_error := Some tr, locked_at := None,
       locked_by := None\<rparr>)"
  using assms(5-9)
proof (induction n arbitrary: e)
  case (Suc n)
  let ?cycle = "[Lock w (Aware t off), Fail err w True None]"
  let ?f = "failed_update e tr True"
  have one: "run_transitions validate L svc ?cycle e = Inr ?f"
    using lock_then_fail [OF assms(1) Suc.prems(1-3) assms(2-4)] .
  have split: "run_transitions validate L svc (?cycle @ rest) e = run_transitions validate L svc rest ?f"
    for rest
    using one by (simp only: run_append bindr.simps)
  show ?case
  proof (cases n)
    case 0
    with one show ?thesis by (simp add: failed_update_def Let_def)
  next
    case (Suc m)
    have "status ?f = PENDING"
      using Suc.prems(4) \<open>n = Suc m\<close> by simp
    moreover have "valid_event extra L (validation_context svc) ?f"
      using run_valid [OF assms(1) Suc.prems(1) one] .
    ultimately have "run_transitions validate L svc (concat (replicate n ?cycle)) ?f =
        Inr (?f\<lparr>status := (if int n = max_attempts ?f - attempts_made ?f then FAILED else PENDING),
           attempts_made := attempts_made ?f + int n, last_error := Some tr, locked_at := None,
           locked_by := None\<rparr>)"
      using Suc.prems(4) \<open>n = Suc m\<close> by (intro Suc.IH) simp_all
    with split [of "concat (replicate n ?cycle)"] show ?thesis
      by (simp add: failed_update_def Let_def algebra_simps)
  qed
qed simp

end

end
