(* ===== verification/Lifecycle.thy ===== *)
theory Lifecycle
  imports Domain
begin

text \<open>
  The promises of \<open>OmniBoxDomainService\<close> over a whole life of an event: valid after every
  transition, bounded attempts, terminal states, exclusive locks. They are the facts of the locale
  \<open>event_class\<close> at its two interpretations, with concrete events as witnesses.
\<close>

section \<open>A concrete event\<close>

definition sample_payload :: jdict where
  "sample_payload = [(lit ''a'', JInt 1)]"

definition sample_bytes :: "nat list" where
  "sample_bytes = lit ''{a:1}''"

definition sample_libs :: libs where
  "sample_libs = \<lparr>orjson_dumps = (\<lambda>v. if v = sample_payload then Some sample_bytes else None),
     orjson_loads = (\<lambda>b. if b = sample_bytes then JObj sample_payload else JNull),
     py_lower = (\<lambda>s. s)\<rparr>"

lemma sample_libs_roundtrip [simp]: "orjson_roundtrip sample_libs"
  by (simp add: orjson_roundtrip_def sample_libs_def)

definition sample_event :: outbox_event where
  "sample_event =
     \<lparr>event_id = UUID 7, event_type = lit ''t'', payload = sample_payload, headers = None,
      trace_id = None, idempotency_key = None, correlation_id = None, causation_id = None,
      schema_version = None, status = PENDING, attempts_made = 0, max_attempts = 2, last_error = None,
      created_at = 0, scheduled_at = 0, completed_at = None, locked_at = None, locked_by = None,
      aggregate_type = lit ''o'', aggregate_id = UUID 1, topic = lit ''q'', partition_key = lit ''k''\<rparr>"

definition sample_inbox_event :: inbox_event where
  "sample_inbox_event =
     \<lparr>event_id = UUID 7, event_type = lit ''t'', payload = sample_payload, headers = None,
      trace_id = None, idempotency_key = None, correlation_id = None, causation_id = None,
      schema_version = None, status = PENDING, attempts_made = 0, max_attempts = 2, last_error = None,
      created_at = 0, scheduled_at = 0, completed_at = None, locked_at = None, locked_by = None,
      message_id = lit ''m'', consumer_group = lit ''g'', source = lit ''s''\<rparr>"

lemma strip_simple [simp]: "\<not> py_space c \<Longrightarrow> strip [c] = [c]"
  by (simp add: strip_def)

lemma field_ok_letters [simp]:
  "field_ok n (lit [x]) \<longleftrightarrow> strip (lit [x]) = lit [x] \<and> 1 \<le> n"
  by (auto simp: field_ok_def lit_def)

lemma sample_payload_ok: "payload_ok sample_libs (validation_context default_service) sample_payload"
  by (simp add: payload_ok_def sample_libs_def sample_payload_def sample_bytes_def lit_def
      validation_context_def default_service_def limit_defs)

lemma sample_event_valid:
  "valid_event outbox_extra sample_libs (validation_context default_service) sample_event"
  using sample_payload_ok
  by (simp add: valid_event_def fields_ok_def sample_event_def outbox_extra_def invariant_defs
      validate_scheduled_at_def validation_context_def default_service_def limit_defs Let_def
      us_per_s_def lit_def field_ok_def py_space_def)

lemma sample_inbox_event_valid:
  "valid_event inbox_extra sample_libs (validation_context default_service) sample_inbox_event"
  using sample_payload_ok
  by (simp add: valid_event_def fields_ok_def sample_inbox_event_def inbox_extra_def invariant_defs
      validate_scheduled_at_def validation_context_def default_service_def limit_defs Let_def
      us_per_s_def lit_def field_ok_def py_space_def)

section \<open>Properties\<close>

text \<open>C34. Whatever sequence of lock, refresh, unlock, force unlock, complete and fail calls succeeds on a
  valid outbox event, the event stays valid, keeps its id, has made exactly as many attempts more as
  there were counted failures, and there were never more of these than its budget of attempts left.\<close>

theorem lifecycle_bounded:
  assumes "orjson_roundtrip L" and "valid_event outbox_extra L (validation_context svc) e"
    and "run_transitions OutboxEvent_validate L svc trs e = Inr e'"
  shows "valid_event outbox_extra L (validation_context svc) e' \<and> event_id e' = event_id e \<and>
    attempts_made e' = attempts_made e + counted_failures trs \<and>
    counted_failures trs \<le> max_attempts e - attempts_made e"
  using assms by (rule outbox_class.run_bounded)

theorem lifecycle_bounded_witness:
  "counted_failures [Lock (lit ''w'') (Aware 5 0), Unlock (lit ''w'')]
     \<le> max_attempts sample_event - attempts_made sample_event"
proof -
  let ?l = "sample_event\<lparr>locked_at := Some 5, locked_by := Some (lit ''w'')\<rparr>"
  have w: "strip (lit ''w'') = lit ''w''" "field_ok WORKER_ID_MAX_LENGTH (lit ''w'')"
    by (simp_all add: lit_def py_space_def field_ok_def limit_defs)
  have l: "lock_event OutboxEvent_validate sample_libs default_service sample_event (lit ''w'')
      (Aware 5 0) = Inr ?l"
    using outbox_class.lock_event_valid [OF sample_libs_roundtrip sample_event_valid, of "lit ''w''" 5 0] w
    by (simp add: sample_event_def)
  have "valid_event outbox_extra sample_libs (validation_context default_service) ?l"
    using outbox_class.apply_valid [OF sample_libs_roundtrip, of default_service "Lock (lit ''w'') (Aware 5 0)"
        sample_event ?l] l by simp
  then have "unlock_event OutboxEvent_validate sample_libs default_service ?l (lit ''w'') =
      Inr (?l\<lparr>locked_at := None, locked_by := None\<rparr>)"
    using w by (intro outbox_class.unlock_event_valid) simp_all
  with l have "run_transitions OutboxEvent_validate sample_libs default_service
      [Lock (lit ''w'') (Aware 5 0), Unlock (lit ''w'')] sample_event =
      Inr (?l\<lparr>locked_at := None, locked_by := None\<rparr>)"
    by simp
  from lifecycle_bounded [OF sample_libs_roundtrip sample_event_valid this] show ?thesis
    by blast
qed

text \<open>A completed or failed inbox event is terminal: every further call on it is refused.\<close>

theorem terminal_events_stuck:
  assumes "valid_event inbox_extra L ctx e" and "status e = COMPLETED \<or> status e = FAILED"
  shows "\<exists>err. apply_transition InboxEvent_validate L svc tr e = Inl err"
  using assms by (intro inbox_class.terminal_stuck) (auto simp: valid_event_def)

theorem terminal_events_stuck_witness:
  "\<exists>err. apply_transition InboxEvent_validate sample_libs default_service (Unlock (lit ''w''))
     (sample_inbox_event\<lparr>status := COMPLETED, completed_at := Some 3\<rparr>) = Inl err"
proof (rule terminal_events_stuck [where ctx = "validation_context default_service"])
  show "valid_event inbox_extra sample_libs (validation_context default_service)
      (sample_inbox_event\<lparr>status := COMPLETED, completed_at := Some 3\<rparr>)"
    using sample_inbox_event_valid
    by (simp add: valid_event_def fields_ok_def sample_inbox_event_def inbox_extra_def invariant_defs)
qed simp

text \<open>Retries are bounded and then exhausted: after \<open>n\<close> deliveries that lock a pending event and
  fail with a counted error, the event is pending and unlocked with \<open>n\<close> more attempts while the
  budget lasts, and failed exactly when the budget is used up.\<close>

theorem retries_exhaust:
  assumes "orjson_roundtrip L" and "valid_event outbox_extra L (validation_context svc) e"
    and "status e = PENDING" and "locked_at e = None"
    and "field_ok WORKER_ID_MAX_LENGTH (strip w)"
    and "truncate_error err (svc_last_error_max_length svc) (svc_truncation_suffix svc) = Inr tr"
    and "int (length tr) \<le> LAST_ERROR_MAX_LENGTH"
    and "int n \<le> max_attempts e - attempts_made e" and "n \<noteq> 0"
  shows "run_transitions OutboxEvent_validate L svc
      (concat (replicate n [Lock w (Aware t off), Fail err w True None])) e =
    Inr (e\<lparr>status := (if int n = max_attempts e - attempts_made e then FAILED else PENDING),
       attempts_made := attempts_made e + int n, last_error := Some tr, locked_at := None,
       locked_by := None\<rparr>)"
  by (rule outbox_class.cycles_exhaust) (use assms in auto)

theorem retries_exhaust_witness:
  "run_transitions OutboxEvent_validate sample_libs default_service
      (concat (replicate 2 [Lock (lit ''w'') (Aware 5 0), Fail (lit ''x'') (lit ''w'') True None]))
      sample_event =
    Inr (sample_event\<lparr>status := FAILED, attempts_made := 2, last_error := Some (lit ''x''),
       locked_at := None, locked_by := None\<rparr>)"
proof -
  have tr: "truncate_error (lit ''x'') (svc_last_error_max_length default_service)
      (svc_truncation_suffix default_service) = Inr (lit ''x'')"
    by (simp add: truncate_error_def default_service_def limit_defs lit_def py_space_def
        encode_text_ok surrogate_def encode1_def)
  show ?thesis
    using retries_exhaust [OF sample_libs_roundtrip sample_event_valid _ _ _ tr, of "lit ''w''" 2 5 0]
    by (simp add: sample_event_def lit_def py_space_def field_ok_def limit_defs)
qed

text \<open>A lock is exclusive and reversible: once a worker has locked a valid event, every other
  worker's lock, refresh, unlock, complete and fail call is refused, naming the holder, and the
  holder's unlock gives back the event as it was.\<close>

theorem lock_is_exclusive:
  assumes "orjson_roundtrip L" and "valid_event outbox_extra L (validation_context svc) e"
    and "field_ok WORKER_ID_MAX_LENGTH (strip w)"
    and "lock_event OutboxEvent_validate L svc e w (Aware t off) = Inr e'"
    and "strip v \<noteq> []" and "strip v \<noteq> strip w"
    and "strip err \<noteq> []"
  shows "lock_event OutboxEvent_validate L svc e' v d =
      Inl (EventAlreadyLockedError (event_id e) (Some (strip w))) \<and>
    refresh_event_lock OutboxEvent_validate L svc e' v d =
      Inl (EventLockedByAnotherWorkerError (event_id e) (Some (strip w)) (strip v)) \<and>
    unlock_event OutboxEvent_validate L svc e' v =
      Inl (EventLockedByAnotherWorkerError (event_id e) (Some (strip w)) (strip v)) \<and>
    mark_event_completed OutboxEvent_validate L svc e' d v =
      Inl (EventLockedByAnotherWorkerError (event_id e) (Some (strip w)) (strip v)) \<and>
    mark_event_failed OutboxEvent_validate L svc e' err v True nxt =
      Inl (EventLockedByAnotherWorkerError (event_id e) (Some (strip w)) (strip v)) \<and>
    unlock_event OutboxEvent_validate L svc e' w = Inr e"
proof -
  have pre: "status e = PENDING" "locked_at e = None"
    using outbox_class.lock_event_same [OF assms(4)] by simp_all
  then have e': "e' = e\<lparr>locked_at := Some t, locked_by := Some (strip w)\<rparr>"
    using outbox_class.lock_event_valid [OF assms(1,2) _ _ assms(3), of t off] assms(4) by simp
  have "locked_by e = None"
    using assms(2) pre(2) by (simp add: valid_event_def validate_invariants_def validate_lock_def
        split: if_splits)
  then have "e'\<lparr>locked_at := None, locked_by := None\<rparr> = e"
    using pre by (cases e) (simp add: e')
  moreover have "valid_event outbox_extra L (validation_context svc) e'"
    using outbox_class.apply_valid [OF assms(1), of svc "Lock w (Aware t off)" e e'] assms(4) by simp
  ultimately have "unlock_event OutboxEvent_validate L svc e' w = Inr e"
    using outbox_class.unlock_event_valid [OF assms(1), of svc e' w] by (simp add: e')
  with pre assms(5-7) show ?thesis
    by (simp add: e' lock_event_def refresh_event_lock_def unlock_event_def mark_event_completed_def
        mark_event_failed_def assert_locked_by_def)
qed

theorem lock_is_exclusive_witness:
  "unlock_event OutboxEvent_validate sample_libs default_service
     (sample_event\<lparr>locked_at := Some 5, locked_by := Some (lit ''w'')\<rparr>) (lit ''w'') = Inr sample_event"
proof -
  have w: "strip (lit ''w'') = lit ''w''" "field_ok WORKER_ID_MAX_LENGTH (lit ''w'')"
    and v: "strip (lit ''v'') = lit ''v''" "lit ''v'' \<noteq> []" "lit ''v'' \<noteq> lit ''w''"
    by (simp_all add: lit_def py_space_def field_ok_def limit_defs)
  have "lock_event OutboxEvent_validate sample_libs default_service sample_event (lit ''w'')
      (Aware 5 0) = Inr (sample_event\<lparr>locked_at := Some 5, locked_by := Some (lit ''w'')\<rparr>)"
    using outbox_class.lock_event_valid [OF sample_libs_roundtrip sample_event_valid, of "lit ''w''" 5 0] w
    by (simp add: sample_event_def)
  from lock_is_exclusive [OF sample_libs_roundtrip sample_event_valid _ this, of "lit ''v''" "lit ''v''"]
  show ?thesis
    using w v by simp
qed

end
