(* ===== verification/Sql.thy ===== *)
theory Sql
  imports Domain "HOL-Library.Multiset"
begin

text \<open>
  What the PostgreSQL repositories call and the repository does not contain: SQLAlchemy and the
  server. An \<open>engine\<close> is a parameter: the table, the transaction's \<open>now()\<close> and one function per kind
  of statement. The locale \<open>sql_engine\<close> names the documented behaviour of these statements the
  repositories rely on; a statement may fail at any time, and then leaves the table as it was. Of the
  table's constraints only the primary key is enforced on an insert, \<open>id\<close> or, when the table is partitioned,
  \<open>(id, created_at)\<close>; any other is a reason to fail. The
  statements of one call run without interference by other transactions.
\<close>

section \<open>Statements\<close>

datatype sql_error = IntegrityError | DatabaseError

text \<open>
  A \<open>SELECT\<close>: the \<open>WHERE\<close> clause, which may look at the whole table (\<open>EXISTS\<close>), the \<open>ORDER BY\<close> columns,
  \<open>LIMIT\<close> and \<open>FOR UPDATE SKIP LOCKED\<close>. The rows are those of the event tables, column by column an
  event.
\<close>

record 'r query =
  q_where :: "'r set \<Rightarrow> 'r \<Rightarrow> bool"
  q_order :: "'r \<Rightarrow> int list"
  q_limit :: "int option"
  q_skip_locked :: bool

definition select_where :: "('r \<Rightarrow> bool) \<Rightarrow> 'r query" where
  "select_where p = \<lparr>q_where = (\<lambda>_. p), q_order = (\<lambda>_. []), q_limit = None, q_skip_locked = False\<rparr>"

record ('db, 'r) engine =
  table_rows :: "'db \<Rightarrow> 'r multiset"
  tx_now :: "'db \<Rightarrow> instant"
  held_elsewhere :: "'db \<Rightarrow> uuid set"
  partitioned_table :: bool
  sql_select :: "'r query \<Rightarrow> 'db \<Rightarrow> (sql_error + 'r list) \<times> 'db"
  sql_update :: "('r \<Rightarrow> bool) \<Rightarrow> ('r \<Rightarrow> 'r) \<Rightarrow> 'db \<Rightarrow> (sql_error + 'r list) \<times> 'db"
  sql_update_from :: "'r query \<Rightarrow> ('r \<Rightarrow> 'r) \<Rightarrow> 'db \<Rightarrow> (sql_error + 'r list) \<times> 'db"
  sql_delete_from :: "'r query \<Rightarrow> 'db \<Rightarrow> (sql_error + 'r list) \<times> 'db"
  sql_insert :: "('r \<Rightarrow> 'r \<Rightarrow> bool) \<Rightarrow> 'r list \<Rightarrow> 'db \<Rightarrow> (sql_error + 'r list) \<times> 'db"
  sql_advisory_lock :: "pystr list \<Rightarrow> 'db \<Rightarrow> (sql_error + unit) \<times> 'db"

section \<open>The documented behaviour\<close>

definition limited :: "int option \<Rightarrow> 'r list \<Rightarrow> 'r list" where
  "limited n s = (case n of None \<Rightarrow> s | Some k \<Rightarrow> take (nat k) s)"

text \<open>
  The rows a \<open>SELECT\<close> may return: the first \<open>LIMIT\<close> ones, in \<open>ORDER BY\<close> order, of the rows that match;
  \<open>SKIP LOCKED\<close> leaves out those another transaction holds.
\<close>

definition candidates :: "'x base_event_scheme query \<Rightarrow> uuid set \<Rightarrow> 'x base_event_scheme multiset \<Rightarrow>
    'x base_event_scheme multiset" where
  "candidates q held tbl = filter_mset
     (\<lambda>r. q_where q (set_mset tbl) r \<and> \<not> (q_skip_locked q \<and> event_id r \<in> held)) tbl"

definition selects :: "'x base_event_scheme query \<Rightarrow> uuid set \<Rightarrow> 'x base_event_scheme multiset \<Rightarrow>
    'x base_event_scheme list \<Rightarrow> bool" where
  "selects q held tbl rs \<longleftrightarrow> (\<exists>s. rs = limited (q_limit q) s \<and> sorted (map (q_order q) s) \<and>
     mset s = candidates q held tbl)"

definition updated_rows :: "('r \<Rightarrow> bool) \<Rightarrow> ('r \<Rightarrow> 'r) \<Rightarrow> 'r multiset \<Rightarrow> 'r multiset" where
  "updated_rows p f tbl = image_mset (\<lambda>r. if p r then f r else r) tbl"

text \<open>\<open>INSERT ... ON CONFLICT (target) DO NOTHING\<close>: a row that conflicts with the table, or with a row the
  same statement inserted before it, is skipped; the others are inserted and returned.\<close>

fun inserted_rows :: "('r \<Rightarrow> 'r \<Rightarrow> bool) \<Rightarrow> 'r list \<Rightarrow> 'r set \<Rightarrow> 'r list" where
  "inserted_rows conflict [] tbl = []"
| "inserted_rows conflict (v # vs) tbl =
     (if \<exists>r\<in>tbl. conflict v r then inserted_rows conflict vs tbl
      else v # inserted_rows conflict vs (insert v tbl))"

text \<open>The primary key: \<open>id\<close>, and \<open>(id, created_at)\<close> on a partitioned table, whose key must hold the partition column.\<close>

definition primary_key :: "bool \<Rightarrow> 'x base_event_scheme \<Rightarrow> uuid \<times> instant option" where
  "primary_key partitioned r = (event_id r, if partitioned then Some (created_at r) else None)"

definition unique_keys :: "bool \<Rightarrow> 'x base_event_scheme multiset \<Rightarrow> bool" where
  "unique_keys partitioned tbl \<longleftrightarrow>
     (\<forall>k\<in>primary_key partitioned ` set_mset tbl. size (filter_mset (\<lambda>r. primary_key partitioned r = k) tbl) \<le> 1)"

text \<open>No two rows share an id.\<close>

definition unique_ids :: "'x base_event_scheme multiset \<Rightarrow> bool" where
  "unique_ids tbl \<longleftrightarrow> (\<forall>i\<in>event_id ` set_mset tbl. size (filter_mset (\<lambda>r. event_id r = i) tbl) \<le> 1)"

lemma unique_keys_plain: "unique_keys False tbl = unique_ids tbl"
  by (simp add: unique_keys_def unique_ids_def primary_key_def)

text \<open>On a partitioned table the key tells rows of one id apart only by their creation time.\<close>

lemma unique_keys_ids:
  assumes "unique_keys partitioned tbl"
    and "partitioned \<Longrightarrow> \<forall>a\<in>#tbl. \<forall>b\<in>#tbl. event_id a = event_id b \<longrightarrow> created_at a = created_at b"
  shows "unique_ids tbl"
  unfolding unique_ids_def
proof
  fix i
  assume "i \<in> event_id ` set_mset tbl"
  then obtain a where a: "a \<in># tbl" "event_id a = i"
    by blast
  have "event_id r = i \<longleftrightarrow> primary_key partitioned r = primary_key partitioned a" if "r \<in># tbl" for r
  proof (cases partitioned)
    case True
    from bspec [OF bspec [OF assms(2) [OF True] that] a(1)] a(2) show ?thesis
      by (auto simp: primary_key_def True)
  qed (use a(2) in \<open>simp add: primary_key_def\<close>)
  then have "filter_mset (\<lambda>r. event_id r = i) tbl =
      filter_mset (\<lambda>r. primary_key partitioned r = primary_key partitioned a) tbl"
    by (rule filter_mset_cong [OF refl])
  moreover have "primary_key partitioned a \<in> primary_key partitioned ` set_mset tbl"
    using a(1) by (rule imageI)
  ultimately show "size (filter_mset (\<lambda>r. event_id r = i) tbl) \<le> 1"
    using assms(1) unfolding unique_keys_def by metis
qed

text \<open>A statement changes neither the transaction's time nor what other transactions hold.\<close>

definition same_session :: "('db, 'r) engine \<Rightarrow> 'db \<Rightarrow> 'db \<Rightarrow> bool" where
  "same_session E db' db \<longleftrightarrow> tx_now E db' = tx_now E db \<and> held_elsewhere E db' = held_elsewhere E db"

locale sql_engine =
  fixes E :: "('db, 'x base_event_scheme) engine"
  assumes select_law: "sql_select E q db = (r, db') \<Longrightarrow>
      table_rows E db' = table_rows E db \<and> same_session E db' db \<and>
      (\<forall>rs. r = Inr rs \<longrightarrow> selects q (held_elsewhere E db) (table_rows E db) rs)"
    and update_law: "sql_update E p f db = (Inr rs, db') \<Longrightarrow>
      same_session E db' db \<and> table_rows E db' = updated_rows p f (table_rows E db) \<and>
      mset rs = image_mset f (filter_mset p (table_rows E db))"
    and update_err: "sql_update E p f db = (Inl e, db') \<Longrightarrow>
      same_session E db' db \<and> table_rows E db' = table_rows E db"
    and update_from_law: "sql_update_from E q f db = (Inr rs, db') \<Longrightarrow>
      \<exists>chosen. selects q (held_elsewhere E db) (table_rows E db) chosen \<and> same_session E db' db \<and>
        table_rows E db' =
          updated_rows (\<lambda>r. event_id r \<in> event_id ` set chosen) f (table_rows E db) \<and>
        mset rs = image_mset f
          (filter_mset (\<lambda>r. event_id r \<in> event_id ` set chosen) (table_rows E db))"
    and update_from_err: "sql_update_from E q f db = (Inl e, db') \<Longrightarrow>
      same_session E db' db \<and> table_rows E db' = table_rows E db"
    and delete_from_law: "sql_delete_from E q db = (Inr rs, db') \<Longrightarrow>
      \<exists>chosen. selects q (held_elsewhere E db) (table_rows E db) chosen \<and> same_session E db' db \<and>
        table_rows E db' =
          filter_mset (\<lambda>r. event_id r \<notin> event_id ` set chosen) (table_rows E db) \<and>
        mset rs = filter_mset (\<lambda>r. event_id r \<in> event_id ` set chosen) (table_rows E db)"
    and delete_from_err: "sql_delete_from E q db = (Inl e, db') \<Longrightarrow>
      same_session E db' db \<and> table_rows E db' = table_rows E db"
    and insert_law: "sql_insert E conflict vs db = (Inr rs, db') \<Longrightarrow>
      same_session E db' db \<and>
      rs = inserted_rows conflict vs (set_mset (table_rows E db)) \<and>
      table_rows E db' = table_rows E db + mset rs \<and> unique_keys (partitioned_table E) (table_rows E db')"
    and insert_err: "sql_insert E conflict vs db = (Inl e, db') \<Longrightarrow>
      same_session E db' db \<and> table_rows E db' = table_rows E db"
    and lock_law: "sql_advisory_lock E tokens db = (u, db') \<Longrightarrow>
      same_session E db' db \<and> table_rows E db' = table_rows E db"

section \<open>Facts on what a statement returns\<close>

lemma limited_length: "length (limited (Some k) s) \<le> nat k"
  by (simp add: limited_def)

lemma mset_limited: "mset (limited n s) \<subseteq># mset s"
proof (cases n)
  case (Some k)
  have "mset s = mset (take (nat k) s) + mset (drop (nat k) s)"
    by (metis append_take_drop_id mset_append)
  with Some show ?thesis by (simp add: limited_def)
qed (simp add: limited_def)

lemma selects_mset:
  assumes "selects q held tbl rs"
  shows "mset rs \<subseteq># candidates q held tbl"
proof -
  from assms obtain s where "rs = limited (q_limit q) s" and "mset s = candidates q held tbl"
    unfolding selects_def by blast
  then show ?thesis
    using mset_limited [of "q_limit q" s] by simp
qed

lemma selects_where:
  assumes "selects q held tbl rs" and "r \<in> set rs"
  shows "r \<in># tbl \<and> q_where q (set_mset tbl) r"
  using mset_subset_eqD [OF selects_mset [OF assms(1)], of r] assms(2) by (simp add: candidates_def)

lemma selects_length: "selects q held tbl rs \<Longrightarrow> q_limit q = Some k \<Longrightarrow> length rs \<le> nat k"
  using limited_length by (auto simp: selects_def)

lemma selects_all: "selects q held tbl rs \<Longrightarrow> q_limit q = None \<Longrightarrow> mset rs = candidates q held tbl"
  by (auto simp: selects_def limited_def)

text \<open>Fewer rows than the limit: there were no more.\<close>

lemma selects_short:
  assumes "selects q held tbl rs" and "q_limit q = Some k" and "length rs < nat k"
  shows "mset rs = candidates q held tbl"
  using assms by (auto simp: selects_def limited_def)

lemma selects_where_all: "selects (select_where p) held tbl rs \<Longrightarrow> mset rs = filter_mset p tbl"
  using selects_all [of "select_where p"] by (simp add: select_where_def candidates_def)

lemma set_updated_rows:
  "set_mset (updated_rows p f tbl) = (\<lambda>r. if p r then f r else r) ` set_mset tbl"
  by (simp add: updated_rows_def)

lemma updated_rows_idle: "(\<And>r. r \<in># tbl \<Longrightarrow> \<not> p r) \<Longrightarrow> updated_rows p f tbl = tbl"
  by (simp add: updated_rows_def cong: image_mset_cong)

lemma updated_rows_same:
  "(\<And>r. r \<in># tbl \<Longrightarrow> p r \<longleftrightarrow> p' r) \<Longrightarrow> (\<And>r. r \<in># tbl \<Longrightarrow> p r \<Longrightarrow> f r = f' r) \<Longrightarrow>
     updated_rows p f tbl = updated_rows p' f' tbl"
  by (auto simp: updated_rows_def intro!: image_mset_cong)

lemma image_if_split:
  "image_mset (\<lambda>r. if p r then f r else r) tbl =
     image_mset f (filter_mset p tbl) + filter_mset (\<lambda>r. \<not> p r) tbl"
  by (induction tbl) auto

lemma inserted_rows_conflict:
  "v \<in> set (inserted_rows c vs tbl) \<Longrightarrow> \<forall>r\<in>tbl. \<not> c v r"
  by (induction c vs tbl rule: inserted_rows.induct) (auto split: if_splits)

lemma inserted_rows_subset: "set (inserted_rows c vs tbl) \<subseteq> set vs"
  by (induction c vs tbl rule: inserted_rows.induct) auto

lemma unique_ids_size: "unique_ids tbl \<longleftrightarrow> (\<forall>i. size (filter_mset (\<lambda>r. event_id r = i) tbl) \<le> 1)"
proof -
  have "filter_mset (\<lambda>r. event_id r = i) tbl = {#}" if "i \<notin> event_id ` set_mset tbl" for i
    using that by (intro multiset_eqI) (auto simp: not_in_iff)
  then show ?thesis
    unfolding unique_ids_def by (metis le_numeral_extra(1) size_empty)
qed

lemma unique_same:
  assumes "unique_ids tbl" and "a \<in># tbl" and "b \<in># tbl" and "event_id a = event_id b"
  shows "a = b"
proof (rule ccontr)
  assume "a \<noteq> b"
  with assms(2,3) have "{#a, b#} \<subseteq># tbl"
    by (metis insert_subset_eq_iff multi_member_split add_mset_remove_trivial insert_noteq_member
        single_subset_iff)
  then have "filter_mset (\<lambda>r. event_id r = event_id b) {#a, b#} \<subseteq>#
      filter_mset (\<lambda>r. event_id r = event_id b) tbl"
    by (rule multiset_filter_mono)
  then have "2 \<le> size (filter_mset (\<lambda>r. event_id r = event_id b) tbl)"
    using assms(4) size_mset_mono by fastforce
  with assms(1) show False
    unfolding unique_ids_size by (metis Suc_1 not_less_eq_eq)
qed

lemma unique_updated:
  assumes "\<And>r. r \<in># tbl \<Longrightarrow> p r \<Longrightarrow> event_id (f r) = event_id r"
  shows "unique_ids (updated_rows p f tbl) = unique_ids tbl"
proof -
  have "filter_mset (\<lambda>r. event_id (if p r then f r else r) = i) tbl =
      filter_mset (\<lambda>r. event_id r = i) tbl" for i
    using assms by (intro filter_mset_cong) auto
  then show ?thesis
    by (simp add: unique_ids_size updated_rows_def filter_mset_image_mset)
qed

lemma unique_filter: "unique_ids tbl \<Longrightarrow> unique_ids (filter_mset p tbl)"
  unfolding unique_ids_size
  by (metis multiset_filter_mono multiset_filter_subset size_mset_mono order_trans)

lemma unique_selected:
  "unique_ids tbl \<Longrightarrow> set cs \<subseteq> set_mset tbl \<Longrightarrow> r \<in># tbl \<Longrightarrow>
     event_id r \<in> event_id ` set cs \<longleftrightarrow> r \<in> set cs"
  using unique_same by blast

section \<open>An engine\<close>

text \<open>
  A list of rows, a clock that stands still during the transaction, and the ids of the rows other
  transactions hold: \<open>SKIP LOCKED\<close> leaves these out. It shows that the documented behaviour can be
  had, and the properties are evaluated on it.
\<close>

record 'r listdb =
  db_rows :: "'r list"
  db_now :: instant
  db_held :: "uuid set"

definition list_chosen :: "'x base_event_scheme query \<Rightarrow> 'x base_event_scheme listdb \<Rightarrow>
    'x base_event_scheme list" where
  "list_chosen q db =
     limited (q_limit q) (sort_key (q_order q)
       (filter (\<lambda>r. q_where q (set (db_rows db)) r \<and> \<not> (q_skip_locked q \<and> event_id r \<in> db_held db))
         (db_rows db)))"

definition list_update :: "('r \<Rightarrow> bool) \<Rightarrow> ('r \<Rightarrow> 'r) \<Rightarrow> 'r listdb \<Rightarrow> (sql_error + 'r list) \<times> 'r listdb" where
  "list_update p f db =
     (Inr (map f (filter p (db_rows db))), db\<lparr>db_rows := map (\<lambda>r. if p r then f r else r) (db_rows db)\<rparr>)"

definition list_delete :: "('r \<Rightarrow> bool) \<Rightarrow> 'r listdb \<Rightarrow> (sql_error + 'r list) \<times> 'r listdb" where
  "list_delete p db =
     (Inr (filter p (db_rows db)), db\<lparr>db_rows := filter (\<lambda>r. \<not> p r) (db_rows db)\<rparr>)"

definition list_engine :: "('x base_event_scheme listdb, 'x base_event_scheme) engine" where
  "list_engine = \<lparr>
     table_rows = (\<lambda>db. mset (db_rows db)),
     tx_now = db_now,
     held_elsewhere = db_held,
     partitioned_table = False,
     sql_select = (\<lambda>q db. (Inr (list_chosen q db), db)),
     sql_update = list_update,
     sql_update_from = (\<lambda>q f db.
       list_update (\<lambda>r. event_id r \<in> event_id ` set (list_chosen q db)) f db),
     sql_delete_from = (\<lambda>q db. list_delete (\<lambda>r. event_id r \<in> event_id ` set (list_chosen q db)) db),
     sql_insert = (\<lambda>conflict vs db.
       let new = inserted_rows conflict vs (set (db_rows db)) in
       if unique_ids (mset (db_rows db @ new)) then (Inr new, db\<lparr>db_rows := db_rows db @ new\<rparr>)
       else (Inl IntegrityError, db)),
     sql_advisory_lock = (\<lambda>_ db. (Inr (), db))\<rparr>"

lemma list_chosen_selects: "selects q (db_held db) (mset (db_rows db)) (list_chosen q db)"
  unfolding selects_def list_chosen_def candidates_def
  by (intro exI conjI, rule refl) (simp_all add: mset_filter)

interpretation list_sql: sql_engine list_engine
  by unfold_locales
    (auto simp: list_engine_def unique_keys_plain same_session_def list_update_def list_delete_def updated_rows_def Let_def
      mset_filter mset_map list_chosen_selects intro!: exI [of _ "list_chosen _ _"] split: if_splits)

text \<open>The same over a partitioned table.\<close>

definition partitioned_engine :: "('x base_event_scheme listdb, 'x base_event_scheme) engine" where
  "partitioned_engine = list_engine\<lparr>partitioned_table := True,
     sql_insert := (\<lambda>conflict vs db.
       let new = inserted_rows conflict vs (set (db_rows db)) in
       if unique_keys True (mset (db_rows db @ new)) then (Inr new, db\<lparr>db_rows := db_rows db @ new\<rparr>)
       else (Inl IntegrityError, db))\<rparr>"

interpretation partitioned_sql: sql_engine partitioned_engine
  by unfold_locales
    (auto simp: partitioned_engine_def list_engine_def same_session_def list_update_def list_delete_def updated_rows_def
      Let_def mset_filter mset_map list_chosen_selects intro!: exI [of _ "list_chosen _ _"] split: if_splits)

end
