(* ===== verification/Repository.thy ===== *)
theory Repository
  imports Sql
begin

text \<open>
  \<open>PostgresEventRepository\<close> (\<open>repositories/base.py\<close>) with what \<open>outbox.py\<close> and \<open>inbox.py\<close> configure, and
  the row constraints of \<open>orm.py\<close>: the queries, the transitions of one row, the bulk forms and the
  maintenance calls. Every method is a computation over the engine's state; creation is in
  \<open>Creation\<close>.
\<close>

section \<open>Columns and configuration\<close>

datatype cell = CText pystr | CUuid uuid | CTime instant | CInt int | CStatus event_status

text \<open>The columns a filter, an ordering key or an index may name: all but the two of type JSONB.\<close>

type_synonym 'x column = "'x base_event_scheme \<Rightarrow> cell option"

definition base_column :: "string \<Rightarrow> 'x column option" where
  "base_column = map_of
     [(''id'', \<lambda>r. Some (CUuid (event_id r))),
      (''event_type'', \<lambda>r. Some (CText (event_type r))),
      (''trace_id'', \<lambda>r. map_option CText (trace_id r)),
      (''idempotency_key'', \<lambda>r. map_option CText (idempotency_key r)),
      (''correlation_id'', \<lambda>r. map_option CText (correlation_id r)),
      (''causation_id'', \<lambda>r. map_option CText (causation_id r)),
      (''schema_version'', \<lambda>r. map_option CText (schema_version r)),
      (''last_error'', \<lambda>r. map_option CText (last_error r)),
      (''status'', \<lambda>r. Some (CStatus (status r))),
      (''attempts_made'', \<lambda>r. Some (CInt (attempts_made r))),
      (''max_attempts'', \<lambda>r. Some (CInt (max_attempts r))),
      (''scheduled_at'', \<lambda>r. Some (CTime (scheduled_at r))),
      (''completed_at'', \<lambda>r. map_option CTime (completed_at r)),
      (''locked_at'', \<lambda>r. map_option CTime (locked_at r)),
      (''locked_by'', \<lambda>r. map_option CText (locked_by r)),
      (''created_at'', \<lambda>r. Some (CTime (created_at r)))]"

definition outbox_column :: "string \<Rightarrow> (outbox_event \<Rightarrow> cell option) option" where
  "outbox_column = base_column ++ map_of
     [(''aggregate_type'', \<lambda>r. Some (CText (aggregate_type r))),
      (''aggregate_id'', \<lambda>r. Some (CUuid (aggregate_id r))),
      (''topic'', \<lambda>r. Some (CText (topic r))),
      (''partition_key'', \<lambda>r. Some (CText (partition_key r)))]"

definition inbox_column :: "string \<Rightarrow> (inbox_event \<Rightarrow> cell option) option" where
  "inbox_column = base_column ++ map_of
     [(''message_id'', \<lambda>r. Some (CText (message_id r))),
      (''consumer_group'', \<lambda>r. Some (CText (consumer_group r))),
      (''source'', \<lambda>r. Some (CText (source r)))]"

text \<open>The check constraints of \<open>get_event_constraints\<close>.\<close>

definition attempts_valid :: "'x base_event_scheme \<Rightarrow> bool" where
  "attempts_valid r \<longleftrightarrow> attempts_made r \<le> max_attempts r"

definition completed_status_consistency :: "'x base_event_scheme \<Rightarrow> bool" where
  "completed_status_consistency r \<longleftrightarrow>
     (status r = COMPLETED \<and> completed_at r \<noteq> None) \<or> (status r \<noteq> COMPLETED \<and> completed_at r = None)"

definition lock_consistency :: "'x base_event_scheme \<Rightarrow> bool" where
  "lock_consistency r \<longleftrightarrow>
     (locked_at r = None \<and> locked_by r = None) \<or> (locked_at r \<noteq> None \<and> locked_by r \<noteq> None)"

definition REPO_BATCH_SIZE :: int where "REPO_BATCH_SIZE = 1000"
definition MAX_BATCH_SIZE :: int where "MAX_BATCH_SIZE = 10000"

text \<open>
  A repository and what its class overrides: the mapped columns, the ordering key, the dedup columns
  of an inbox (\<open>None\<close> for an outbox) and the entity's class.
\<close>

record 'x repository =
  repo_columns :: "string \<Rightarrow> 'x column option"
  repo_ordering_key_columns :: "string list"
  repo_inbox_dedup_columns :: "string list option"
  repo_validate :: "'x event_validate"
  repo_conflict_index_id :: "string list"
  repo_conflict_index_idempotency :: "string list"
  repo_batch_size :: int
  repo_error_max_length :: int
  repo_truncation_suffix :: pystr
  repo_scheduled_at_skew_seconds :: int

text \<open>\<open>_as_list(argument or attribute of the model) or default\<close>.\<close>

definition conflict_index :: "string list option \<Rightarrow> string list option \<Rightarrow> string list \<Rightarrow> string list" where
  "conflict_index arg attribute fallback =
     (case arg of Some (c # cs) \<Rightarrow> c # cs
      | _ \<Rightarrow> (case attribute of Some (c # cs) \<Rightarrow> c # cs | _ \<Rightarrow> fallback))"

definition PostgresEventRepository_init :: "(string \<Rightarrow> 'x column option) \<Rightarrow> string list \<Rightarrow>
    string list option \<Rightarrow> 'x event_validate \<Rightarrow> string list option \<Rightarrow> string list option \<Rightarrow>
    string list option \<Rightarrow> string list option \<Rightarrow> int \<Rightarrow> int \<Rightarrow> pystr \<Rightarrow> int \<Rightarrow> 'x repository res" where
  "PostgresEventRepository_init cols order_cols dedup V model_id model_idem index_id index_idem
       batch_size error_max_length suffix skew =
     (if batch_size < 1 then Inl ValueError
      else if batch_size > MAX_BATCH_SIZE then Inl ValueError
      else if error_max_length < 1 then Inl ValueError
      else if skew < 0 then Inl ValueError
      else bindr (encode suffix) (\<lambda>suffix_bytes.
        if int (length suffix_bytes) \<ge> error_max_length then Inl ValueError
        else Inr \<lparr>repo_columns = cols, repo_ordering_key_columns = order_cols,
               repo_inbox_dedup_columns = dedup, repo_validate = V,
               repo_conflict_index_id = conflict_index index_id model_id [''id''],
               repo_conflict_index_idempotency =
                 conflict_index index_idem model_idem [''idempotency_key''],
               repo_batch_size = batch_size, repo_error_max_length = error_max_length,
               repo_truncation_suffix = suffix, repo_scheduled_at_skew_seconds = skew\<rparr>))"

text \<open>The two tables of each kind, with the conflict targets their models declare.\<close>

definition PostgresOutboxRepository_init :: "bool \<Rightarrow> string list option \<Rightarrow> string list option \<Rightarrow>
    int \<Rightarrow> int \<Rightarrow> pystr \<Rightarrow> int \<Rightarrow> unit outbox_event_ext repository res" where
  "PostgresOutboxRepository_init partitioned =
     PostgresEventRepository_init outbox_column [''topic'', ''partition_key''] None OutboxEvent_validate
       (if partitioned then Some [''id'', ''created_at''] else None)
       (if partitioned then Some [''idempotency_key'', ''created_at''] else None)"

definition PostgresInboxRepository_init :: "bool \<Rightarrow> string list option \<Rightarrow> string list option \<Rightarrow>
    int \<Rightarrow> int \<Rightarrow> pystr \<Rightarrow> int \<Rightarrow> unit inbox_event_ext repository res" where
  "PostgresInboxRepository_init partitioned =
     PostgresEventRepository_init inbox_column []
       (Some (if partitioned then [''message_id'', ''consumer_group'', ''created_at'']
              else [''message_id'', ''consumer_group'']))
       InboxEvent_validate None None"

text \<open>\<open>_to_entity\<close>: the row's columns, validated with a trusted payload.\<close>

definition entity_context :: "'x repository \<Rightarrow> vctx" where
  "entity_context R = \<lparr>
     scheduled_at_skew_seconds = Some (repo_scheduled_at_skew_seconds R),
     scheduled_at_max_future_seconds = None, payload_trusted = True, payload_max_bytes = None,
     headers_max_count = None, header_key_max_length = None, header_value_max_length = None\<rparr>"

definition to_entity :: "libs \<Rightarrow> 'x repository \<Rightarrow> 'x base_event_scheme \<Rightarrow> 'x base_event_scheme res" where
  "to_entity L R row = repo_validate R L (entity_context R) row"

fun map_res :: "('a \<Rightarrow> 'e + 'b) \<Rightarrow> 'a list \<Rightarrow> 'e + 'b list" where
  "map_res f [] = Inr []"
| "map_res f (x # xs) = bindr (f x) (\<lambda>y. bindr (map_res f xs) (\<lambda>ys. Inr (y # ys)))"

lemma map_res_Inr_iff [res_simps]: "map_res f xs = Inr ys \<longleftrightarrow> list_all2 (\<lambda>x y. f x = Inr y) xs ys"
  by (induction xs arbitrary: ys) (auto simp: bindr_Inr_iff list_all2_Cons1)

section \<open>Errors of the driver\<close>

text \<open>A statement inside \<open>try: ... except SQLAlchemyError as e: raise StorageError\<close>.\<close>

fun storage_error :: "(sql_error + 'a) \<times> 'db \<Rightarrow> (error + 'a) \<times> 'db" where
  "storage_error (Inl _, db) = (Inl StorageError, db)"
| "storage_error (Inr a, db) = (Inr a, db)"

lemma storage_error_Inr [res_simps]: "storage_error x = (Inr a, db) \<longleftrightarrow> x = (Inr a, db)"
  by (cases x rule: storage_error.cases) auto

lemma storage_error_Inl [res_simps]:
  "storage_error x = (Inl err, db) \<longleftrightarrow> err = StorageError \<and> (\<exists>e. x = (Inl e, db))"
  by (cases x rule: storage_error.cases) auto

text \<open>\<open>result.scalar_one_or_none()\<close>; \<open>MultipleResultsFound\<close> is a \<open>SQLAlchemyError\<close>, so inside the \<open>try\<close> it
  comes out as \<open>StorageError\<close>.\<close>

definition MultipleResultsFound :: error where
  "MultipleResultsFound = Raised \<lparr>exn_mro = [''MultipleResultsFound'', ''InvalidRequestError'',
     ''SQLAlchemyError'', ''Exception''], exn_text = lit ''Multiple rows were found''\<rparr>"

fun scalar_one_or_none :: "error \<Rightarrow> 'r list \<Rightarrow> 'r option res" where
  "scalar_one_or_none err [] = Inr None"
| "scalar_one_or_none err [r] = Inr (Some r)"
| "scalar_one_or_none err (_ # _ # _) = Inl err"

lemma scalar_one_or_none_Inr [res_simps]:
  "scalar_one_or_none err rs = Inr x \<longleftrightarrow> (rs = [] \<and> x = None) \<or> (\<exists>r. rs = [r] \<and> x = Some r)"
  by (cases "(err, rs)" rule: scalar_one_or_none.cases) auto

lemma scalar_one_or_none_Inl [res_simps]:
  "scalar_one_or_none err rs = Inl e \<longleftrightarrow> e = err \<and> 2 \<le> length rs"
  by (cases "(err, rs)" rule: scalar_one_or_none.cases) auto

section \<open>Reading\<close>

definition get_by_id :: "('db, 'x base_event_scheme) engine \<Rightarrow> libs \<Rightarrow> 'x repository \<Rightarrow> uuid \<Rightarrow>
    ('db, 'x base_event_scheme option) act" where
  "get_by_id E L R i =
     andthen (\<lambda>db. storage_error (sql_select E (select_where (\<lambda>r. event_id r = i)) db)) (\<lambda>rs.
     andthen (lift_res (scalar_one_or_none StorageError rs)) (\<lambda>x.
     lift_res (map_res_opt (to_entity L R) x)))"

text \<open>\<open>_apply_filters\<close>: equality, or membership for a list; a column the model lacks is an
  \<open>AttributeError\<close>. A \<open>NULL\<close> column matches nothing.\<close>

datatype filter_value = One cell | Many "cell list"

definition AttributeError :: error where
  "AttributeError = Raised \<lparr>exn_mro = [''AttributeError'', ''Exception''], exn_text = []\<rparr>"

fun filter_matches :: "filter_value \<Rightarrow> cell option \<Rightarrow> bool" where
  "filter_matches _ None = False"
| "filter_matches (One c) (Some d) = (d = c)"
| "filter_matches (Many cs) (Some d) = (d \<in> set cs)"

fun apply_filters :: "'x repository \<Rightarrow> (string \<times> filter_value option) list \<Rightarrow>
    ('x base_event_scheme \<Rightarrow> bool) res" where
  "apply_filters R [] = Inr (\<lambda>_. True)"
| "apply_filters R ((key, None) # fs) = apply_filters R fs"
| "apply_filters R ((key, Some v) # fs) =
     (case repo_columns R key of
        None \<Rightarrow> Inl AttributeError
      | Some col \<Rightarrow> bindr (apply_filters R fs) (\<lambda>p. Inr (\<lambda>r. filter_matches v (col r) \<and> p r)))"

text \<open>\<open>ORDER BY scheduled_at, created_at, id\<close>.\<close>

definition fetch_order :: "'x base_event_scheme \<Rightarrow> int list" where
  "fetch_order r = [scheduled_at r, created_at r, uint (uuid_int (event_id r))]"

definition fetch_pending :: "('db, 'x base_event_scheme) engine \<Rightarrow> libs \<Rightarrow> 'x repository \<Rightarrow> int \<Rightarrow>
    (string \<times> filter_value option) list \<Rightarrow> ('db, 'x base_event_scheme list) act" where
  "fetch_pending E L R limit filters =
     andthen (lift_res (apply_filters R filters)) (\<lambda>wanted.
     andthen (\<lambda>db. storage_error (sql_select E
       \<lparr>q_where = (\<lambda>_ r. status r = PENDING \<and> locked_at r = None \<and> scheduled_at r \<le> tx_now E db \<and>
          attempts_made r < max_attempts r \<and> wanted r),
        q_order = fetch_order, q_limit = Some limit, q_skip_locked = False\<rparr> db)) (\<lambda>rs.
     lift_res (map_res (to_entity L R) rs)))"

section \<open>Transitions of one row\<close>

text \<open>The event is in the table, pending, and held by this worker: the \<open>WHERE\<close> clause of the commits.\<close>

definition held_by :: "pystr \<Rightarrow> 'x base_event_scheme \<Rightarrow> bool" where
  "held_by worker_id r \<longleftrightarrow> status r = PENDING \<and> locked_at r \<noteq> None \<and> locked_by r = Some worker_id"

definition mark_processing :: "('db, 'x base_event_scheme) engine \<Rightarrow> uuid \<Rightarrow> pystr \<Rightarrow> ('db, bool) act" where
  "mark_processing E i worker_id =
     andthen (\<lambda>db. storage_error (sql_update E
       (\<lambda>r. event_id r = i \<and> status r = PENDING \<and> locked_at r = None)
       (\<lambda>r. r\<lparr>locked_at := Some (tx_now E db), locked_by := Some worker_id\<rparr>) db)) (\<lambda>rs.
     andthen (lift_res (scalar_one_or_none StorageError rs)) (\<lambda>x. ret (x \<noteq> None)))"

definition completed_row :: "instant \<Rightarrow> 'x base_event_scheme \<Rightarrow> 'x base_event_scheme" where
  "completed_row now r =
     r\<lparr>status := COMPLETED, completed_at := Some now, locked_at := None, locked_by := None\<rparr>"

definition mark_completed :: "('db, 'x base_event_scheme) engine \<Rightarrow> uuid \<Rightarrow> pystr \<Rightarrow> ('db, unit) act" where
  "mark_completed E i worker_id =
     andthen (\<lambda>db. storage_error (sql_update E (\<lambda>r. event_id r = i \<and> held_by worker_id r)
       (completed_row (tx_now E db)) db)) (\<lambda>rs.
     andthen (lift_res (scalar_one_or_none StorageError rs)) (\<lambda>x.
     case x of None \<Rightarrow> throw (EventConcurrentUpdateError 1 0 [i]) | Some _ \<Rightarrow> ret ()))"

text \<open>The \<open>values\<close> of \<open>mark_failed\<close>.\<close>

definition failed_row :: "pystr \<Rightarrow> instant option \<Rightarrow> bool \<Rightarrow> 'x base_event_scheme \<Rightarrow> 'x base_event_scheme" where
  "failed_row err next_retry_at count_as_attempt r =
     (let r1 = r\<lparr>last_error := Some err, locked_at := None, locked_by := None\<rparr>;
          r2 = (case next_retry_at of None \<Rightarrow> r1 | Some t \<Rightarrow> r1\<lparr>scheduled_at := t\<rparr>) in
      if count_as_attempt
      then r2\<lparr>attempts_made := attempts_made r + 1,
              status := (if attempts_made r + 1 \<ge> max_attempts r then FAILED else PENDING)\<rparr>
      else r2)"

definition repo_truncate_error :: "'x repository \<Rightarrow> pystr \<Rightarrow> pystr res" where
  "repo_truncate_error R err = truncate_error err (repo_error_max_length R) (repo_truncation_suffix R)"

definition mark_failed :: "('db, 'x base_event_scheme) engine \<Rightarrow> 'x repository \<Rightarrow> uuid \<Rightarrow> pystr \<Rightarrow> pystr \<Rightarrow>
    instant option \<Rightarrow> bool \<Rightarrow> ('db, unit) act" where
  "mark_failed E R i err worker_id next_retry_at count_as_attempt =
     andthen (lift_res (repo_truncate_error R err)) (\<lambda>truncated_err.
     andthen (\<lambda>db. storage_error (sql_update E (\<lambda>r. event_id r = i \<and> held_by worker_id r)
       (failed_row truncated_err next_retry_at count_as_attempt) db)) (\<lambda>rs.
     andthen (lift_res (scalar_one_or_none StorageError rs)) (\<lambda>x.
     case x of None \<Rightarrow> throw (EventConcurrentUpdateError 1 0 [i]) | Some _ \<Rightarrow> ret ())))"

definition unlocked_row :: "'x base_event_scheme \<Rightarrow> 'x base_event_scheme" where
  "unlocked_row r = r\<lparr>locked_at := None, locked_by := None\<rparr>"

definition force_unlock :: "('db, 'x base_event_scheme) engine \<Rightarrow> uuid \<Rightarrow> pystr \<Rightarrow> ('db, bool) act" where
  "force_unlock E i reason =
     (if strip reason = [] then throw ValueError
      else if length (strip reason) > FORCE_UNLOCK_REASON_MAX_LENGTH then throw ValueError
      else andthen (\<lambda>db. storage_error (sql_update E (\<lambda>r. event_id r = i \<and> locked_at r \<noteq> None)
          (\<lambda>r. (unlocked_row r)\<lparr>last_error := Some (lit ''Force unlock: '' @ strip reason)\<rparr>) db)) (\<lambda>rs.
        andthen (lift_res (scalar_one_or_none StorageError rs)) (\<lambda>x.
        case x of None \<Rightarrow> throw (EventConcurrentUpdateError 1 0 [i]) | Some _ \<Rightarrow> ret True)))"

text \<open>In these two \<open>scalar_one_or_none\<close> runs after the \<open>try\<close>; they look at the lock, not at the status.\<close>

definition locked_row_of :: "uuid \<Rightarrow> pystr \<Rightarrow> 'x base_event_scheme \<Rightarrow> bool" where
  "locked_row_of i worker_id r \<longleftrightarrow> event_id r = i \<and> locked_by r = Some worker_id \<and> locked_at r \<noteq> None"

definition refresh_lock :: "('db, 'x base_event_scheme) engine \<Rightarrow> uuid \<Rightarrow> pystr \<Rightarrow> ('db, bool) act" where
  "refresh_lock E i worker_id =
     andthen (\<lambda>db. storage_error (sql_update E (locked_row_of i worker_id)
       (\<lambda>r. r\<lparr>locked_at := Some (tx_now E db)\<rparr>) db)) (\<lambda>rs.
     andthen (lift_res (scalar_one_or_none MultipleResultsFound rs)) (\<lambda>x. ret (x \<noteq> None)))"

definition release_lock :: "('db, 'x base_event_scheme) engine \<Rightarrow> uuid \<Rightarrow> pystr \<Rightarrow> ('db, bool) act" where
  "release_lock E i worker_id =
     andthen (\<lambda>db. storage_error (sql_update E (locked_row_of i worker_id) unlocked_row db)) (\<lambda>rs.
     andthen (lift_res (scalar_one_or_none MultipleResultsFound rs)) (\<lambda>x. ret (x \<noteq> None)))"

definition requeued_row :: "instant \<Rightarrow> 'x base_event_scheme \<Rightarrow> 'x base_event_scheme" where
  "requeued_row now r = r\<lparr>status := PENDING, attempts_made := 0, last_error := None, scheduled_at := now\<rparr>"

definition requeue_failed :: "('db, 'x base_event_scheme) engine \<Rightarrow> uuid \<Rightarrow> ('db, bool) act" where
  "requeue_failed E i =
     andthen (\<lambda>db. storage_error (sql_update E (\<lambda>r. event_id r = i \<and> status r = FAILED)
       (requeued_row (tx_now E db)) db)) (\<lambda>rs.
     andthen (lift_res (scalar_one_or_none StorageError rs)) (\<lambda>x. ret (x \<noteq> None)))"

section \<open>Bulk calls\<close>

text \<open>\<open>for i in range(0, len(xs), batch_size)\<close>, adding up what the statements return.\<close>

fun sum_batches :: "('c \<Rightarrow> ('db, int) act) \<Rightarrow> 'c list \<Rightarrow> ('db, int) act" where
  "sum_batches body [] = ret 0"
| "sum_batches body (c # cs) =
     andthen (body c) (\<lambda>n. andthen (sum_batches body cs) (\<lambda>m. ret (n + m)))"

definition get_existing_ids :: "('db, 'x base_event_scheme) engine \<Rightarrow> uuid list \<Rightarrow> ('db, uuid list) act" where
  "get_existing_ids E ids =
     andthen (\<lambda>db. storage_error (sql_select E (select_where (\<lambda>r. event_id r \<in> set ids)) db)) (\<lambda>rs.
     ret (map event_id rs))"

text \<open>\<open>sorted(set(ids) - set(existing_ids))\<close>.\<close>

definition missing_of :: "uuid list \<Rightarrow> uuid list \<Rightarrow> uuid list" where
  "missing_of ids existing = sorted_list_of_set (set ids - set existing)"

definition check_total :: "('db, 'x base_event_scheme) engine \<Rightarrow> uuid list \<Rightarrow> int \<Rightarrow> ('db, int) act" where
  "check_total E ids updated =
     (if updated \<noteq> int (length ids)
      then andthen (get_existing_ids E ids) (\<lambda>existing.
        throw (EventConcurrentUpdateError (int (length ids)) updated (missing_of ids existing)))
      else ret updated)"

definition complete_batch :: "('db, 'x base_event_scheme) engine \<Rightarrow> pystr \<Rightarrow> uuid list \<Rightarrow> ('db, int) act" where
  "complete_batch E worker_id batch =
     andthen (\<lambda>db. storage_error (sql_update E (\<lambda>r. event_id r \<in> set batch \<and> held_by worker_id r)
       (completed_row (tx_now E db)) db)) (\<lambda>rs. ret (int (length rs)))"

definition bulk_mark_completed :: "('db, 'x base_event_scheme) engine \<Rightarrow> 'x repository \<Rightarrow> uuid list \<Rightarrow>
    pystr \<Rightarrow> ('db, int) act" where
  "bulk_mark_completed E R ids worker_id =
     (if ids = [] then ret 0
      else if \<not> distinct ids then throw ValueError
      else andthen (sum_batches (complete_batch E worker_id) (chunks (nat (repo_batch_size R)) (sort ids)))
        (check_total E (sort ids)))"

record failure_update =
  fail_id :: uuid
  fail_error :: pystr
  fail_retry_at :: "instant option"

text \<open>\<open>values_data\<close>: what the \<open>UPDATE\<close> joins on \<open>id\<close>.\<close>

definition failure_data :: "'x repository \<Rightarrow> failure_update list \<Rightarrow>
    (uuid \<times> pystr \<times> instant option) list res" where
  "failure_data R batch = map_res (\<lambda>f. bindr (repo_truncate_error R (fail_error f)) (\<lambda>err.
     Inr (fail_id f, err, fail_retry_at f))) batch"

definition join_failure :: "(uuid \<times> pystr \<times> instant option) list \<Rightarrow> bool \<Rightarrow> 'x base_event_scheme \<Rightarrow>
    'x base_event_scheme" where
  "join_failure data count_as_attempt r =
     (case map_of data (event_id r) of
        None \<Rightarrow> r
      | Some (err, next_retry) \<Rightarrow> failed_row err next_retry count_as_attempt r)"

definition fail_batch :: "('db, 'x base_event_scheme) engine \<Rightarrow> 'x repository \<Rightarrow> pystr \<Rightarrow> bool \<Rightarrow>
    failure_update list \<Rightarrow> ('db, int) act" where
  "fail_batch E R worker_id count_as_attempt batch =
     andthen (lift_res (failure_data R batch)) (\<lambda>data.
     andthen (\<lambda>db. storage_error (sql_update E
       (\<lambda>r. event_id r \<in> fst ` set data \<and> status r = PENDING \<and> locked_by r = Some worker_id)
       (join_failure data count_as_attempt) db)) (\<lambda>rs.
     ret (int (length rs))))"

definition bulk_mark_failed :: "('db, 'x base_event_scheme) engine \<Rightarrow> 'x repository \<Rightarrow>
    failure_update list \<Rightarrow> pystr \<Rightarrow> bool \<Rightarrow> ('db, int) act" where
  "bulk_mark_failed E R failures worker_id count_as_attempt =
     (if failures = [] then ret 0
      else if \<not> distinct (map fail_id failures) then throw ValueError
      else andthen (sum_batches (fail_batch E R worker_id count_as_attempt)
          (chunks (nat (repo_batch_size R)) (sort_key fail_id failures)))
        (check_total E (map fail_id (sort_key fail_id failures))))"

text \<open>No check for duplicates, no sorting, and no search for the missing ids.\<close>

definition release_batch :: "('db, 'x base_event_scheme) engine \<Rightarrow> pystr \<Rightarrow> uuid list \<Rightarrow> ('db, int) act" where
  "release_batch E worker_id batch =
     andthen (\<lambda>db. storage_error (sql_update E
       (\<lambda>r. event_id r \<in> set batch \<and> locked_at r \<noteq> None \<and> locked_by r = Some worker_id) unlocked_row db))
     (\<lambda>rs. ret (int (length rs)))"

definition bulk_release_locks :: "('db, 'x base_event_scheme) engine \<Rightarrow> 'x repository \<Rightarrow> uuid list \<Rightarrow>
    pystr \<Rightarrow> ('db, int) act" where
  "bulk_release_locks E R ids worker_id =
     (if ids = [] then ret 0
      else andthen (sum_batches (release_batch E worker_id) (chunks (nat (repo_batch_size R)) ids)) (\<lambda>updated.
        if updated \<noteq> int (length ids)
        then throw (EventConcurrentUpdateError (int (length ids)) updated [])
        else ret updated))"

section \<open>Fetch and lock\<close>

text \<open>\<open>_WORKER_ID_PATTERN\<close>: ASCII letters, digits, and the characters dash, dot, slash and colon.\<close>

definition worker_char :: "nat \<Rightarrow> bool" where
  "worker_char c \<longleftrightarrow> 65 \<le> c \<and> c \<le> 90 \<or> 97 \<le> c \<and> c \<le> 122 \<or> 48 \<le> c \<and> c \<le> 57 \<or>
     c = 46 \<or> c = 45 \<or> c = 47 \<or> c = 58"

definition normalize_worker_id :: "pystr \<Rightarrow> pystr res" where
  "normalize_worker_id worker_id =
     (let s = strip worker_id in
      if s = [] then Inl ValueError
      else if length s > 255 then Inl ValueError
      else if \<not> list_all worker_char s then Inl ValueError
      else Inr s)"

text \<open>\<open>timedelta(seconds=n)\<close> raises beyond 999999999 days.\<close>

definition timedelta_ok :: "int \<Rightarrow> bool" where
  "timedelta_ok seconds \<longleftrightarrow> - 999999999 * 86400 \<le> seconds \<and> seconds < 1000000000 * 86400"

text \<open>\<open>_earlier_event_in_line\<close>: a comparison with a \<open>NULL\<close> key column is not true.\<close>

definition same_line :: "'x repository \<Rightarrow> 'x base_event_scheme \<Rightarrow> 'x base_event_scheme \<Rightarrow> bool" where
  "same_line R a b \<longleftrightarrow> (\<forall>c\<in>set (repo_ordering_key_columns R).
     case repo_columns R c of
       None \<Rightarrow> False
     | Some col \<Rightarrow> col a \<noteq> None \<and> col a = col b)"

definition written_before :: "'x base_event_scheme \<Rightarrow> 'x base_event_scheme \<Rightarrow> bool" where
  "written_before a b \<longleftrightarrow>
     created_at a < created_at b \<or> (created_at a = created_at b \<and> event_id a < event_id b)"

definition holds_line :: "instant \<Rightarrow> 'x base_event_scheme \<Rightarrow> bool" where
  "holds_line now e \<longleftrightarrow> scheduled_at e \<le> now \<or> last_error e \<noteq> None \<or> locked_at e \<noteq> None"

definition earlier_event_in_line :: "'x repository \<Rightarrow> instant \<Rightarrow> 'x base_event_scheme set \<Rightarrow>
    'x base_event_scheme \<Rightarrow> bool" where
  "earlier_event_in_line R now tbl row \<longleftrightarrow>
     (\<exists>earlier\<in>tbl. same_line R earlier row \<and> status earlier = PENDING \<and>
        written_before earlier row \<and> holds_line now earlier)"

text \<open>\<open>lock_filter\<close>: a \<open>ttl\<close> of 0 counts as none.\<close>

definition lock_filter :: "int option \<Rightarrow> instant \<Rightarrow> 'x base_event_scheme \<Rightarrow> bool" where
  "lock_filter ttl now r =
     (case ttl of
        None \<Rightarrow> locked_at r = None
      | Some n \<Rightarrow>
          if n = 0 then locked_at r = None
          else (case locked_at r of None \<Rightarrow> True | Some t \<Rightarrow> t < now - n * us_per_s))"

definition fetchable :: "'x repository \<Rightarrow> int option \<Rightarrow> ('x base_event_scheme \<Rightarrow> bool) \<Rightarrow> instant \<Rightarrow>
    'x base_event_scheme set \<Rightarrow> 'x base_event_scheme \<Rightarrow> bool" where
  "fetchable R ttl wanted now tbl r \<longleftrightarrow>
     status r = PENDING \<and> lock_filter ttl now r \<and> scheduled_at r \<le> now \<and>
     attempts_made r < max_attempts r \<and> wanted r \<and>
     (repo_ordering_key_columns R \<noteq> [] \<longrightarrow> \<not> earlier_event_in_line R now tbl r)"

definition pending_query :: "'x repository \<Rightarrow> int option \<Rightarrow> ('x base_event_scheme \<Rightarrow> bool) \<Rightarrow> instant \<Rightarrow>
    int \<Rightarrow> 'x base_event_scheme query" where
  "pending_query R ttl wanted now limit =
     \<lparr>q_where = fetchable R ttl wanted now, q_order = fetch_order, q_limit = Some limit,
      q_skip_locked = True\<rparr>"

definition fetch_and_lock_pending :: "('db, 'x base_event_scheme) engine \<Rightarrow> libs \<Rightarrow> 'x repository \<Rightarrow>
    int \<Rightarrow> pystr \<Rightarrow> int option \<Rightarrow> (string \<times> filter_value option) list \<Rightarrow>
    ('db, 'x base_event_scheme list) act" where
  "fetch_and_lock_pending E L R limit worker_id ttl filters =
     (if limit < 1 then throw ValueError
      else andthen (lift_res (normalize_worker_id worker_id)) (\<lambda>worker_id.
        if pred_option timedelta_ok ttl
        then andthen (lift_res (apply_filters R filters)) (\<lambda>wanted.
          andthen (\<lambda>db. storage_error (sql_update_from E
            (pending_query R ttl wanted (tx_now E db) limit)
            (\<lambda>r. r\<lparr>locked_at := Some (tx_now E db), locked_by := Some worker_id\<rparr>) db)) (\<lambda>rs.
          lift_res (map_res (to_entity L R) rs)))
        else throw OverflowError))"

section \<open>Maintenance\<close>

definition delete_old_completed :: "('db, 'x base_event_scheme) engine \<Rightarrow> int \<Rightarrow> int \<Rightarrow> ('db, int) act" where
  "delete_old_completed E retention_days batch_size =
     (if retention_days < 1 then throw ValueError
      else if retention_days > 999999999 then throw OverflowError
      else andthen (\<lambda>db. storage_error (sql_delete_from E
          \<lparr>q_where = (\<lambda>_ r. status r = COMPLETED \<and>
             (case completed_at r of None \<Rightarrow> False
              | Some t \<Rightarrow> t < tx_now E db - retention_days * 86400 * us_per_s)),
           q_order = (\<lambda>_. []), q_limit = Some batch_size, q_skip_locked = False\<rparr> db))
        (\<lambda>rs. ret (int (length rs))))"

definition stale_row :: "instant \<Rightarrow> 'x base_event_scheme \<Rightarrow> bool" where
  "stale_row threshold r \<longleftrightarrow> status r = PENDING \<and>
     (case locked_at r of None \<Rightarrow> False | Some t \<Rightarrow> t < threshold)"

definition stale_query :: "'x repository \<Rightarrow> instant \<Rightarrow> 'x base_event_scheme query" where
  "stale_query R threshold =
     \<lparr>q_where = (\<lambda>_. stale_row threshold), q_order = (\<lambda>_. []), q_limit = Some (repo_batch_size R),
      q_skip_locked = True\<rparr>"

text \<open>The loop: at most \<open>n\<close> more rounds, until one releases less than a batch.\<close>

fun release_stale_loop :: "('db, 'x base_event_scheme) engine \<Rightarrow> 'x repository \<Rightarrow> int \<Rightarrow> nat \<Rightarrow> int \<Rightarrow>
    ('db, int) act" where
  "release_stale_loop E R seconds 0 updated = ret updated"
| "release_stale_loop E R seconds (Suc n) updated =
     andthen (\<lambda>db. storage_error (sql_update_from E
       (stale_query R (tx_now E db - seconds * us_per_s)) unlocked_row db)) (\<lambda>rs.
     if int (length rs) < repo_batch_size R then ret (updated + int (length rs))
     else release_stale_loop E R seconds n (updated + int (length rs)))"

definition release_stale_locks :: "('db, 'x base_event_scheme) engine \<Rightarrow> 'x repository \<Rightarrow> int \<Rightarrow> int \<Rightarrow>
    ('db, int) act" where
  "release_stale_locks E R stale_timeout_seconds max_iterations =
     (if stale_timeout_seconds < 1 then throw ValueError
      else if max_iterations < 1 then throw ValueError
      else if \<not> timedelta_ok stale_timeout_seconds then throw OverflowError
      else release_stale_loop E R stale_timeout_seconds (nat max_iterations) 0)"

end
