(* ===== verification/Creation.thy ===== *)
theory Creation
  imports Repository
begin

text \<open>
  Creation of rows: \<open>create\<close> and \<open>bulk_create\<close> of \<open>repositories/base.py\<close> and the overrides and lookups of
  \<open>inbox.py\<close>. A row that conflicts with an earlier one is not inserted, the earlier one is returned.
  On a partitioned table the identity is serialized by advisory locks, taken before the lookup.
\<close>

section \<open>Identity of a row\<close>

definition truthy :: "pystr option \<Rightarrow> bool" where
  "truthy x \<longleftrightarrow> (case x of None \<Rightarrow> False | Some s \<Rightarrow> s \<noteq> [])"

definition column_value :: "'x repository \<Rightarrow> string \<Rightarrow> 'x base_event_scheme \<Rightarrow> cell option" where
  "column_value R c r = (case repo_columns R c of None \<Rightarrow> None | Some col \<Rightarrow> col r)"

text \<open>The conflict a unique index on these columns sees: no \<open>NULL\<close>, all equal; \<open>keyed_only\<close> is the
  predicate \<open>idempotency_key IS NOT NULL\<close> of a partial index.\<close>

definition conflict_on :: "'x repository \<Rightarrow> string list \<Rightarrow> bool \<Rightarrow> 'x base_event_scheme \<Rightarrow>
    'x base_event_scheme \<Rightarrow> bool" where
  "conflict_on R cols keyed_only v r \<longleftrightarrow>
     (keyed_only \<longrightarrow> idempotency_key v \<noteq> None \<and> idempotency_key r \<noteq> None) \<and>
     (\<forall>c\<in>set cols. column_value R c v \<noteq> None \<and> column_value R c v = column_value R c r)"

definition idempotency_index_is_partition_scoped :: "'x repository \<Rightarrow> bool" where
  "idempotency_index_is_partition_scoped R \<longleftrightarrow> ''created_at'' \<in> set (repo_conflict_index_idempotency R)"

definition idempotency_identity_columns :: "'x repository \<Rightarrow> string list" where
  "idempotency_identity_columns R =
     filter (\<lambda>c. c \<noteq> ''created_at'') (repo_conflict_index_idempotency R)"

definition identity_of :: "'x repository \<Rightarrow> 'x base_event_scheme \<Rightarrow> cell option list" where
  "identity_of R r = map (\<lambda>c. column_value R c r) (idempotency_identity_columns R)"

text \<open>\<open>str(value)\<close> of a column and the token the advisory lock is taken on. \<open>py_str\<close> renders an identifier
  or a time; the columns of the shipped models are text.\<close>

definition cell_str :: "(cell \<Rightarrow> pystr) \<Rightarrow> cell option \<Rightarrow> pystr" where
  "cell_str py_str x = (case x of
     None \<Rightarrow> lit ''None'' | Some (CText s) \<Rightarrow> s | Some c \<Rightarrow> py_str c)"

definition IDENTITY_TOKEN_SEPARATOR :: pystr where "IDENTITY_TOKEN_SEPARATOR = [31]"

fun join_with :: "pystr \<Rightarrow> pystr list \<Rightarrow> pystr" where
  "join_with sep [] = []"
| "join_with sep [s] = s"
| "join_with sep (s # t # ts) = s @ sep @ join_with sep (t # ts)"

definition identity_token :: "(cell \<Rightarrow> pystr) \<Rightarrow> 'x repository \<Rightarrow> 'x base_event_scheme \<Rightarrow> pystr" where
  "identity_token py_str R r = join_with IDENTITY_TOKEN_SEPARATOR (map (cell_str py_str) (identity_of R r))"

section \<open>Lookups\<close>

text \<open>\<open>except IntegrityError: raise StorageIntegrityError\<close>, \<open>except SQLAlchemyError: raise StorageError\<close>.\<close>

fun creation_error :: "(sql_error + 'a) \<times> 'db \<Rightarrow> (error + 'a) \<times> 'db" where
  "creation_error (Inl IntegrityError, db) = (Inl StorageIntegrityError, db)"
| "creation_error (Inl DatabaseError, db) = (Inl StorageError, db)"
| "creation_error (Inr a, db) = (Inr a, db)"

lemma creation_error_Inr [res_simps]: "creation_error x = (Inr a, db) \<longleftrightarrow> x = (Inr a, db)"
  by (cases x rule: creation_error.cases) auto

lemma creation_error_Inl [res_simps]:
  "creation_error x = (Inl err, db) \<longleftrightarrow>
     (\<exists>e. x = (Inl e, db) \<and> err = (if e = IntegrityError then StorageIntegrityError else StorageError))"
  by (cases x rule: creation_error.cases) auto

definition find_existing_by_identity :: "('db, 'x base_event_scheme) engine \<Rightarrow> 'x repository \<Rightarrow>
    'x base_event_scheme \<Rightarrow> ('db, 'x base_event_scheme option) act" where
  "find_existing_by_identity E R e =
     andthen (\<lambda>db. creation_error (sql_select E
       \<lparr>q_where = (\<lambda>_ r. identity_of R r = identity_of R e), q_order = (\<lambda>r. [created_at r]),
        q_limit = Some 1, q_skip_locked = False\<rparr> db)) (\<lambda>rs.
     lift_res (scalar_one_or_none StorageError rs))"

definition base_fetch_existing_event :: "('db, 'x base_event_scheme) engine \<Rightarrow> 'x repository \<Rightarrow>
    'x base_event_scheme \<Rightarrow> ('db, 'x base_event_scheme option) act" where
  "base_fetch_existing_event E R e =
     (if \<not> truthy (idempotency_key e)
      then andthen (\<lambda>db. creation_error (sql_select E (select_where (\<lambda>r. event_id r = event_id e)) db))
        (\<lambda>rs. lift_res (scalar_one_or_none StorageError rs))
      else find_existing_by_identity E R e)"

text \<open>The same message for the same consumer group: the business key of an inbox row.\<close>

definition same_message :: "'x repository \<Rightarrow> 'x base_event_scheme \<Rightarrow> 'x base_event_scheme \<Rightarrow> bool" where
  "same_message R e r \<longleftrightarrow> column_value R ''message_id'' r = column_value R ''message_id'' e \<and>
     column_value R ''consumer_group'' r = column_value R ''consumer_group'' e"

definition inbox_fetch_existing_event :: "('db, 'x base_event_scheme) engine \<Rightarrow> 'x repository \<Rightarrow>
    string list \<Rightarrow> 'x base_event_scheme \<Rightarrow> ('db, 'x base_event_scheme option) act" where
  "inbox_fetch_existing_event E R dedup_cols e =
     andthen (\<lambda>db. creation_error (sql_select E (select_where (\<lambda>r. same_message R e r \<and>
       (''created_at'' \<in> set dedup_cols \<longrightarrow> created_at r = created_at e))) db)) (\<lambda>rs.
     lift_res (scalar_one_or_none StorageError rs))"

definition fetch_existing_event :: "('db, 'x base_event_scheme) engine \<Rightarrow> 'x repository \<Rightarrow>
    'x base_event_scheme \<Rightarrow> ('db, 'x base_event_scheme option) act" where
  "fetch_existing_event E R e =
     (case repo_inbox_dedup_columns R of
        None \<Rightarrow> base_fetch_existing_event E R e
      | Some cols \<Rightarrow> inbox_fetch_existing_event E R cols e)"

text \<open>\<open>_build_insert_stmt\<close> and \<open>_execute_insert\<close>.\<close>

definition insert_conflict :: "'x repository \<Rightarrow> 'x base_event_scheme \<Rightarrow> 'x base_event_scheme \<Rightarrow>
    'x base_event_scheme \<Rightarrow> bool" where
  "insert_conflict R e =
     (case repo_inbox_dedup_columns R of
        None \<Rightarrow> if truthy (idempotency_key e) then conflict_on R (repo_conflict_index_idempotency R) True
                else conflict_on R (repo_conflict_index_id R) False
      | Some cols \<Rightarrow> conflict_on R cols False)"

definition execute_insert :: "('db, 'x base_event_scheme) engine \<Rightarrow> 'x repository \<Rightarrow>
    'x base_event_scheme \<Rightarrow> ('db, 'x base_event_scheme option) act" where
  "execute_insert E R e =
     andthen (\<lambda>db. creation_error (sql_insert E (insert_conflict R e) [e] db)) (\<lambda>rs.
     lift_res (scalar_one_or_none StorageError rs))"

definition lock_identity_and_find_existing :: "('db, 'x base_event_scheme) engine \<Rightarrow> (cell \<Rightarrow> pystr) \<Rightarrow>
    'x repository \<Rightarrow> 'x base_event_scheme \<Rightarrow> ('db, 'x base_event_scheme option) act" where
  "lock_identity_and_find_existing E py_str R e =
     andthen (\<lambda>db. creation_error (sql_advisory_lock E [identity_token py_str R e] db)) (\<lambda>_.
     find_existing_by_identity E R e)"

section \<open>One event\<close>

text \<open>Insert, and return the row that is there when the insert found a conflict.\<close>

definition insert_or_fetch :: "('db, 'x base_event_scheme) engine \<Rightarrow> libs \<Rightarrow> 'x repository \<Rightarrow>
    'x base_event_scheme \<Rightarrow> ('db, 'x base_event_scheme) act" where
  "insert_or_fetch E L R e =
     andthen (execute_insert E R e) (\<lambda>inserted.
     case inserted of
       Some row \<Rightarrow> lift_res (to_entity L R row)
     | None \<Rightarrow>
         andthen (fetch_existing_event E R e) (\<lambda>existing.
         case existing of
           Some row \<Rightarrow> lift_res (to_entity L R row)
         | None \<Rightarrow> throw (EventConcurrentUpdateError 1 0 [event_id e])))"

definition base_create :: "('db, 'x base_event_scheme) engine \<Rightarrow> (cell \<Rightarrow> pystr) \<Rightarrow> libs \<Rightarrow> 'x repository \<Rightarrow>
    'x base_event_scheme \<Rightarrow> ('db, 'x base_event_scheme) act" where
  "base_create E py_str L R e =
     (if truthy (idempotency_key e) \<and> idempotency_index_is_partition_scoped R
      then andthen (lock_identity_and_find_existing E py_str R e) (\<lambda>existing.
        case existing of
          Some row \<Rightarrow> lift_res (to_entity L R row)
        | None \<Rightarrow> insert_or_fetch E L R e)
      else insert_or_fetch E L R e)"

definition message_cell :: "'x repository \<Rightarrow> string \<Rightarrow> 'x base_event_scheme \<Rightarrow> pystr" where
  "message_cell R c e = cell_str (\<lambda>_. []) (column_value R c e)"

definition inbox_create :: "('db, 'x base_event_scheme) engine \<Rightarrow> (cell \<Rightarrow> pystr) \<Rightarrow> libs \<Rightarrow> 'x repository \<Rightarrow>
    string list \<Rightarrow> 'x base_event_scheme \<Rightarrow> ('db, 'x base_event_scheme) act" where
  "inbox_create E py_str L R dedup_cols e =
     (if ''created_at'' \<notin> set dedup_cols then base_create E py_str L R e
      else
        andthen (\<lambda>db. creation_error (sql_advisory_lock E
          [message_cell R ''message_id'' e, message_cell R ''consumer_group'' e] db)) (\<lambda>_.
        andthen (\<lambda>db. creation_error (sql_select E
          \<lparr>q_where = (\<lambda>_. same_message R e), q_order = (\<lambda>r. [created_at r]), q_limit = Some 1,
           q_skip_locked = False\<rparr> db)) (\<lambda>rs.
        andthen (lift_res (scalar_one_or_none StorageError rs)) (\<lambda>existing.
        case existing of
          Some row \<Rightarrow> lift_res (to_entity L R row)
        | None \<Rightarrow> insert_or_fetch E L R e))))"

definition create :: "('db, 'x base_event_scheme) engine \<Rightarrow> (cell \<Rightarrow> pystr) \<Rightarrow> libs \<Rightarrow> 'x repository \<Rightarrow>
    'x base_event_scheme \<Rightarrow> ('db, 'x base_event_scheme) act" where
  "create E py_str L R e =
     (case repo_inbox_dedup_columns R of
        None \<Rightarrow> base_create E py_str L R e
      | Some cols \<Rightarrow> inbox_create E py_str L R cols e)"

section \<open>Many events\<close>

text \<open>The rows already there for the events of a batch that were not inserted.\<close>

fun fetch_skipped :: "('db, 'x base_event_scheme) engine \<Rightarrow> libs \<Rightarrow> 'x repository \<Rightarrow>
    'x base_event_scheme list \<Rightarrow> ('db, 'x base_event_scheme list) act" where
  "fetch_skipped E L R [] = ret []"
| "fetch_skipped E L R (e # es) =
     andthen (fetch_existing_event E R e) (\<lambda>existing.
     andthen (case existing of
         None \<Rightarrow> ret []
       | Some row \<Rightarrow> andthen (lift_res (to_entity L R row)) (\<lambda>x. ret [x])) (\<lambda>found.
     andthen (fetch_skipped E L R es) (\<lambda>rest. ret (found @ rest))))"

definition create_batch :: "('db, 'x base_event_scheme) engine \<Rightarrow> libs \<Rightarrow> 'x repository \<Rightarrow> string list \<Rightarrow>
    'x base_event_scheme list \<Rightarrow> ('db, 'x base_event_scheme list) act" where
  "create_batch E L R index batch =
     andthen (\<lambda>db. creation_error (sql_insert E
       (conflict_on R index (index = repo_conflict_index_idempotency R)) batch db)) (\<lambda>inserted.
     andthen (lift_res (map_res (to_entity L R) inserted)) (\<lambda>created.
     if length inserted < length batch
     then andthen (fetch_skipped E L R
         (filter (\<lambda>e. event_id e \<notin> event_id ` set inserted) batch)) (\<lambda>skipped.
       ret (created @ skipped))
     else ret created))"

fun create_group :: "('db, 'x base_event_scheme) engine \<Rightarrow> libs \<Rightarrow> 'x repository \<Rightarrow> string list \<Rightarrow>
    'x base_event_scheme list list \<Rightarrow> ('db, 'x base_event_scheme list) act" where
  "create_group E L R index [] = ret []"
| "create_group E L R index (batch # batches) =
     andthen (create_batch E L R index batch) (\<lambda>created.
     andthen (create_group E L R index batches) (\<lambda>rest. ret (created @ rest)))"

text \<open>\<open>_settle_partition_scoped_duplicates\<close>: the first event of each identity, the others dropped.\<close>

fun first_by_token :: "('e \<Rightarrow> pystr) \<Rightarrow> 'e list \<Rightarrow> (pystr \<times> 'e) list \<Rightarrow> 'e list \<Rightarrow>
    (pystr \<times> 'e) list \<times> 'e list" where
  "first_by_token token [] firsts dropped = (firsts, dropped)"
| "first_by_token token (e # es) firsts dropped =
     (if token e \<in> fst ` set firsts then first_by_token token es firsts (dropped @ [e])
      else first_by_token token es (firsts @ [(token e, e)]) dropped)"

text \<open>\<open>collation\<close> is the rank the server's \<open>ORDER BY\<close> gives to the identity columns.\<close>

definition settle_partition_scoped_duplicates :: "('db, 'x base_event_scheme) engine \<Rightarrow>
    (cell \<Rightarrow> pystr) \<Rightarrow> (cell option list \<Rightarrow> int) \<Rightarrow> libs \<Rightarrow> 'x repository \<Rightarrow> 'x base_event_scheme list \<Rightarrow>
    ('db, 'x base_event_scheme list \<times> 'x base_event_scheme list \<times> 'x base_event_scheme list) act" where
  "settle_partition_scoped_duplicates E py_str collation L R events =
     (let token = identity_token py_str R; (firsts, dropped) = first_by_token token events [] [] in
      andthen (\<lambda>db. creation_error (sql_advisory_lock E (sort (map fst firsts)) db)) (\<lambda>_.
      andthen (\<lambda>db. creation_error (sql_select E
        \<lparr>q_where = (\<lambda>_ r. identity_of R r \<in> (\<lambda>kv. identity_of R (snd kv)) ` set firsts),
         q_order = (\<lambda>r. [collation (identity_of R r), created_at r]),
         q_limit = None, q_skip_locked = False\<rparr> db)) (\<lambda>rows.
      let existing_by_token = (\<lambda>t. List.find (\<lambda>r. token r = t) rows);
          existing = List.map_filter (\<lambda>kv. existing_by_token (fst kv)) firsts;
          to_insert = map snd (filter (\<lambda>kv. existing_by_token (fst kv) = None) firsts) in
      andthen (lift_res (map_res (to_entity L R) existing)) (\<lambda>created.
      ret (to_insert, dropped, created)))))"

definition bulk_create :: "('db, 'x base_event_scheme) engine \<Rightarrow> (cell \<Rightarrow> pystr) \<Rightarrow>
    (cell option list \<Rightarrow> int) \<Rightarrow> libs \<Rightarrow> 'x repository \<Rightarrow> 'x base_event_scheme list \<Rightarrow>
    ('db, 'x base_event_scheme list) act" where
  "bulk_create E py_str collation L R events =
     (if events = [] then ret []
      else
        let with_idem = filter (\<lambda>e. truthy (idempotency_key e)) events;
            without_idem = filter (\<lambda>e. \<not> truthy (idempotency_key e)) events;
            n = nat (repo_batch_size R) in
        andthen (if with_idem \<noteq> [] \<and> idempotency_index_is_partition_scoped R
                 then settle_partition_scoped_duplicates E py_str collation L R with_idem
                 else ret (with_idem, [], [])) (\<lambda>(to_insert, dropped, created).
        andthen (create_group E L R (repo_conflict_index_idempotency R) (chunks n to_insert)) (\<lambda>keyed.
        andthen (create_group E L R (repo_conflict_index_id R) (chunks n without_idem)) (\<lambda>unkeyed.
        andthen (fetch_skipped E L R dropped) (\<lambda>duplicates.
        ret (created @ keyed @ unkeyed @ duplicates))))))"

section \<open>Inbox lookups\<close>

definition key_is :: "pystr \<Rightarrow> pystr \<Rightarrow> inbox_event \<Rightarrow> bool" where
  "key_is msg_id grp r \<longleftrightarrow> message_id r = msg_id \<and> consumer_group r = grp"

definition get_by_message_id :: "('db, inbox_event) engine \<Rightarrow> libs \<Rightarrow> unit inbox_event_ext repository \<Rightarrow>
    pystr \<Rightarrow> pystr \<Rightarrow> ('db, inbox_event option) act" where
  "get_by_message_id E L R msg_id grp =
     andthen (\<lambda>db. storage_error (sql_select E
       \<lparr>q_where = (\<lambda>_. key_is msg_id grp), q_order = (\<lambda>r. [- created_at r]), q_limit = Some 1,
        q_skip_locked = False\<rparr> db)) (\<lambda>rs.
     andthen (lift_res (scalar_one_or_none StorageError rs)) (\<lambda>x.
     lift_res (map_res_opt (to_entity L R) x)))"

definition exists :: "('db, inbox_event) engine \<Rightarrow> pystr \<Rightarrow> pystr \<Rightarrow> ('db, bool) act" where
  "exists E msg_id grp =
     andthen (\<lambda>db. storage_error (sql_select E
       ((select_where (key_is msg_id grp))\<lparr>q_limit := Some 1\<rparr>) db)) (\<lambda>rs. ret (rs \<noteq> []))"

definition has_completed_sibling_for_inbox_key :: "('db, inbox_event) engine \<Rightarrow>
    unit inbox_event_ext repository \<Rightarrow> pystr \<Rightarrow> pystr \<Rightarrow> uuid \<Rightarrow> ('db, bool) act" where
  "has_completed_sibling_for_inbox_key E R msg_id grp exclude =
     (if ''created_at'' \<notin> set (get_or (repo_inbox_dedup_columns R) []) then ret False
      else andthen (\<lambda>db. storage_error (sql_select E
          ((select_where (\<lambda>r. key_is msg_id grp r \<and> status r = COMPLETED \<and> event_id r \<noteq> exclude))
            \<lparr>q_limit := Some 1\<rparr>) db)) (\<lambda>rs. ret (rs \<noteq> [])))"

end
