(* ===== verification/RowSteps.thy ===== *)
theory RowSteps
  imports Creation
begin

text \<open>
  An abstract machine for one row of an event table: who may change it, and how. Every method of the
  repository, whether it returns or raises, changes the table by steps of this machine, inserts of
  new events and deletes of completed ones. Invariants of the table are invariants of the machine.
\<close>

section \<open>The steps\<close>

text \<open>A caller: a worker (with the \<open>ttl\<close> it fetches by), the sweep of stale locks, a producer, an
  operator.\<close>

datatype actor = Worker pystr "int option" | Sweeper int | Producer | Operator

inductive row_step :: "instant \<Rightarrow> actor \<Rightarrow> 'x base_event_scheme \<Rightarrow> 'x base_event_scheme \<Rightarrow> bool"
  for now :: instant where
  take: "status r = PENDING \<Longrightarrow> lock_filter ttl now r \<Longrightarrow>
    row_step now (Worker w ttl) r (r\<lparr>locked_at := Some now, locked_by := Some w\<rparr>)"
| refresh: "locked_by r = Some w \<Longrightarrow> locked_at r \<noteq> None \<Longrightarrow>
    row_step now (Worker w ttl) r (r\<lparr>locked_at := Some now\<rparr>)"
| release: "locked_by r = Some w \<Longrightarrow> locked_at r \<noteq> None \<Longrightarrow>
    row_step now (Worker w ttl) r (unlocked_row r)"
| complete: "held_by w r \<Longrightarrow> row_step now (Worker w ttl) r (completed_row now r)"
| fail: "status r = PENDING \<Longrightarrow> locked_by r = Some w \<Longrightarrow>
    row_step now (Worker w ttl) r (failed_row err nxt c r)"
| sweep: "stale_row (now - n * us_per_s) r \<Longrightarrow> row_step now (Sweeper n) r (unlocked_row r)"
| force: "locked_at r \<noteq> None \<Longrightarrow> row_step now Operator r ((unlocked_row r)\<lparr>last_error := Some err\<rparr>)"
| requeue: "status r = FAILED \<Longrightarrow> row_step now Operator r (requeued_row now r)"

inductive_cases worker_stepE: "row_step now (Worker w ttl) r r'"

inductive table_step :: "instant \<Rightarrow> actor \<Rightarrow> ('x base_event_scheme \<Rightarrow> bool) \<Rightarrow>
    'x base_event_scheme multiset \<Rightarrow> 'x base_event_scheme multiset \<Rightarrow> bool"
  for now :: instant and a :: actor and new :: "'x base_event_scheme \<Rightarrow> bool" where
  update: "(\<And>r. r \<in># T \<Longrightarrow> p r \<Longrightarrow> row_step now a r (f r)) \<Longrightarrow>
    table_step now a new T (updated_rows p f T)"
| delete: "a = Operator \<Longrightarrow> (\<And>r. r \<in># T \<Longrightarrow> d r \<Longrightarrow> status r = COMPLETED) \<Longrightarrow>
    table_step now a new T (filter_mset (\<lambda>r. \<not> d r) T)"
| insert: "a = Producer \<Longrightarrow> (\<And>r. r \<in># N \<Longrightarrow> new r) \<Longrightarrow> table_step now a new T (T + N)"

section \<open>Invariants by steps\<close>

text \<open>What every row of a table satisfies: the check constraints, and the rules of \<open>validate_attempts\<close>
  and \<open>validate_lock\<close>.\<close>

definition row_ok :: "'x base_event_scheme \<Rightarrow> bool" where
  "row_ok r \<longleftrightarrow> validate_attempts r \<and> validate_lock r \<and> attempts_valid r \<and>
     completed_status_consistency r \<and> lock_consistency r \<and> 0 \<le> attempts_made r \<and> 1 \<le> max_attempts r"

lemmas row_defs = row_ok_def validate_attempts_def validate_lock_def is_locked_def attempts_valid_def
  completed_status_consistency_def lock_consistency_def

lemma row_ok_locked: "row_ok r \<Longrightarrow> locked_at r \<noteq> None \<Longrightarrow> status r = PENDING"
  by (auto simp: row_ok_def validate_lock_def is_locked_def split: if_splits)

lemma row_ok_cases:
  "row_ok r \<longleftrightarrow> 0 \<le> attempts_made r \<and> 1 \<le> max_attempts r \<and> attempts_made r \<le> max_attempts r \<and>
     ((locked_at r = None) = (locked_by r = None)) \<and>
     (locked_at r \<noteq> None \<longrightarrow> status r = PENDING) \<and> ((completed_at r \<noteq> None) = (status r = COMPLETED)) \<and>
     (status r = FAILED \<longrightarrow> attempts_made r = max_attempts r) \<and>
     (status r = PENDING \<longrightarrow> attempts_made r < max_attempts r)"
  by (cases "status r"; cases "locked_at r"; cases "locked_by r"; cases "completed_at r";
      auto simp: row_defs)

lemma failed_row_sel [simp]:
  "event_id (failed_row err nxt c r) = event_id r"
  "locked_at (failed_row err nxt c r) = None"
  "locked_by (failed_row err nxt c r) = None"
  "last_error (failed_row err nxt c r) = Some err"
  "attempts_made (failed_row err nxt c r) = attempts_made r + (if c then 1 else 0)"
  "max_attempts (failed_row err nxt c r) = max_attempts r"
  "completed_at (failed_row err nxt c r) = completed_at r"
  "created_at (failed_row err nxt c r) = created_at r"
  "scheduled_at (failed_row err nxt c r) = (case nxt of None \<Rightarrow> scheduled_at r | Some t \<Rightarrow> t)"
  "status (failed_row err nxt c r) =
     (if c then if attempts_made r + 1 \<ge> max_attempts r then FAILED else PENDING else status r)"
  by (cases nxt; simp add: failed_row_def Let_def)+

lemma row_step_ok:
  assumes "row_step now a r r'" and "row_ok r"
  shows "row_ok r'"
  using assms
  by (induction rule: row_step.induct)
    (auto simp: row_ok_cases held_by_def completed_row_def unlocked_row_def requeued_row_def)

lemma row_step_id: "row_step now a r r' \<Longrightarrow> event_id r' = event_id r"
  by (induction rule: row_step.induct)
    (auto simp: completed_row_def unlocked_row_def requeued_row_def)

lemma row_step_created: "row_step now a r r' \<Longrightarrow> created_at r' = created_at r"
  by (induction rule: row_step.induct)
    (auto simp: completed_row_def unlocked_row_def requeued_row_def)

lemma table_step_ok:
  assumes "table_step now a row_ok T T'" and "\<forall>r\<in>#T. row_ok r"
  shows "\<forall>r\<in>#T'. row_ok r"
  using assms
  by (induction rule: table_step.induct) (auto simp: set_updated_rows dest: row_step_ok)

lemma table_steps_ok:
  assumes "(table_step now a row_ok)\<^sup>*\<^sup>* T T'" and "\<forall>r\<in>#T. row_ok r"
  shows "\<forall>r\<in>#T'. row_ok r"
  using assms by (induction rule: rtranclp_induct) (auto dest: table_step_ok)

text \<open>A row no step of the caller can change stays in the table.\<close>

lemma table_steps_keep:
  assumes "(table_step now a new)\<^sup>*\<^sup>* T T'" and "r \<in># T"
    and "\<And>r'. row_step now a r r' \<Longrightarrow> r' = r" and "status r \<noteq> COMPLETED"
  shows "r \<in># T'"
  using assms(1,2)
proof (induction rule: rtranclp_induct)
  case (step T1 T2)
  from step.hyps(2) step.IH [OF step.prems] show ?case
  proof (cases rule: table_step.cases)
    case (update p f)
    have "(if p r then f r else r) = r"
      using update(2) [OF step.IH [OF step.prems]] assms(3) by auto
    then show ?thesis
      using step.IH [OF step.prems] unfolding update(1) set_updated_rows
      by (intro image_eqI [where x = r]) simp_all
  qed (use step.IH [OF step.prems] assms(4) in auto)
qed

section \<open>Ids\<close>

text \<open>No id belongs to events of two creation times, among the rows and the events to come.\<close>

definition one_birth :: "('x base_event_scheme \<Rightarrow> bool) \<Rightarrow> 'x base_event_scheme multiset \<Rightarrow> bool" where
  "one_birth new T \<longleftrightarrow> (\<forall>a b. (a \<in># T \<or> new a) \<and> (b \<in># T \<or> new b) \<and> event_id a = event_id b \<longrightarrow>
     created_at a = created_at b)"

text \<open>Ids are unique, and an insert keeps them so: by the primary key, on a partitioned table by that and \<open>one_birth\<close>.\<close>

definition sound_ids :: "('db, 'x base_event_scheme) engine \<Rightarrow> ('x base_event_scheme \<Rightarrow> bool) \<Rightarrow>
    'x base_event_scheme multiset \<Rightarrow> bool" where
  "sound_ids E new T \<longleftrightarrow> unique_ids T \<and> (partitioned_table E \<longrightarrow> one_birth new T)"

lemma one_birth_step:
  assumes "table_step now a new T T'" and "one_birth new T"
  shows "one_birth new T'"
proof -
  have origin: "\<exists>q. (q \<in># T \<or> new q) \<and> event_id q = event_id r \<and> created_at q = created_at r" if "r \<in># T' \<or> new r" for r
    using assms(1) that
  proof (induction rule: table_step.induct)
    case (update T p f)
    show ?case
    proof (cases "new r")
      case False
      with update(2) obtain q where q: "q \<in># T" "r = (if p q then f q else q)"
        by (auto simp: set_updated_rows)
      with row_step_id [OF update(1)] row_step_created [OF update(1)] show ?thesis
        by (intro exI [of _ q]) auto
    qed blast
  qed auto
  show ?thesis
    unfolding one_birth_def
  proof (intro allI impI, elim conjE)
    fix x y
    assume "x \<in># T' \<or> new x" "y \<in># T' \<or> new y" "event_id x = event_id y"
    with origin [of x] origin [of y] assms(2) show "created_at x = created_at y"
      unfolding one_birth_def by metis
  qed
qed

lemma sound_ids_plain: "\<not> partitioned_table E \<Longrightarrow> sound_ids E new T = unique_ids T"
  by (simp add: sound_ids_def)

lemma sound_ids_unique [dest]: "sound_ids E new T \<Longrightarrow> unique_ids T"
  by (simp add: sound_ids_def)

lemma unique_sound: "unique_ids T \<Longrightarrow> sound_ids E (\<lambda>_. False) T"
  using unique_same by (auto simp: sound_ids_def one_birth_def)

section \<open>Computations that take only such steps\<close>

definition evolves :: "('db, 'x base_event_scheme) engine \<Rightarrow> actor \<Rightarrow> ('x base_event_scheme \<Rightarrow> bool) \<Rightarrow>
    'db \<Rightarrow> 'db \<Rightarrow> bool" where
  "evolves E a new db db' \<longleftrightarrow> same_session E db' db \<and> sound_ids E new (table_rows E db') \<and>
     (table_step (tx_now E db) a new)\<^sup>*\<^sup>* (table_rows E db) (table_rows E db')"

definition safe :: "('db, 'x base_event_scheme) engine \<Rightarrow> actor \<Rightarrow> ('x base_event_scheme \<Rightarrow> bool) \<Rightarrow>
    ('db \<Rightarrow> 'b \<times> 'db) \<Rightarrow> bool" where
  "safe E a new m \<longleftrightarrow>
     (\<forall>db r db'. m db = (r, db') \<longrightarrow> sound_ids E new (table_rows E db) \<longrightarrow> evolves E a new db db')"

lemma evolves_refl: "sound_ids E new (table_rows E db) \<Longrightarrow> evolves E a new db db"
  by (simp add: evolves_def same_session_def)

lemma evolves_trans: "evolves E a new db db1 \<Longrightarrow> evolves E a new db1 db2 \<Longrightarrow> evolves E a new db db2"
  by (auto simp: evolves_def same_session_def)

lemma evolves_same: "same_session E db' db \<Longrightarrow> table_rows E db' = table_rows E db \<Longrightarrow>
    sound_ids E new (table_rows E db) \<Longrightarrow> evolves E a new db db'"
  by (simp add: evolves_def)

lemma evolves_step: "same_session E db' db \<Longrightarrow> sound_ids E new (table_rows E db) \<Longrightarrow> unique_ids (table_rows E db') \<Longrightarrow>
    table_step (tx_now E db) a new (table_rows E db) (table_rows E db') \<Longrightarrow> evolves E a new db db'"
  using one_birth_step by (auto simp: evolves_def sound_ids_def intro: r_into_rtranclp)

lemma safeD: "safe E a new m \<Longrightarrow> m db = (r, db') \<Longrightarrow> sound_ids E new (table_rows E db) \<Longrightarrow> evolves E a new db db'"
  by (simp add: safe_def)

lemma safe_pure [inv_intros]:
  "safe E a new (ret x)" "safe E a new (throw e)" "safe E a new (lift_res r)"
  by (simp_all add: safe_def evolves_refl)

lemma safe_andthen_post:
  assumes "safe E a new m" and "\<And>x db db'. m db = (Inr x, db') \<Longrightarrow> safe E a new (f x)"
  shows "safe E a new (andthen m f)"
  unfolding safe_def
proof (intro allI impI)
  fix db r db'
  assume run: "andthen m f db = (r, db')" and u: "sound_ids E new (table_rows E db)"
  obtain x db1 where m: "m db = (x, db1)" by (cases "m db")
  then have 1: "evolves E a new db db1"
    using safeD [OF assms(1) _ u] by blast
  then have u1: "sound_ids E new (table_rows E db1)"
    by (simp add: evolves_def)
  show "evolves E a new db db'"
  proof (cases x)
    case (Inl e)
    with run m 1 show ?thesis by (simp add: andthen_def)
  next
    case (Inr y)
    with run m have "f y db1 = (r, db')" by (simp add: andthen_def)
    moreover have "safe E a new (f y)"
      using m unfolding Inr by (rule assms(2))
    ultimately show ?thesis
      by (intro evolves_trans [OF 1] safeD [OF _ _ u1])
  qed
qed

lemma safe_andthen [inv_intros]:
  "safe E a new m \<Longrightarrow> (\<And>x. safe E a new (f x)) \<Longrightarrow> safe E a new (andthen m f)"
  by (rule safe_andthen_post)

lemma safe_if [inv_intros]: "safe E a new m \<Longrightarrow> safe E a new m' \<Longrightarrow> safe E a new (if b then m else m')"
  by simp

lemma safe_option [inv_intros]:
  "safe E a new m \<Longrightarrow> (\<And>y. safe E a new (f y)) \<Longrightarrow>
     safe E a new (case x of None \<Rightarrow> m | Some y \<Rightarrow> f y)"
  by (cases x) simp_all

lemma safe_prod [inv_intros]:
  "(\<And>y z. safe E a new (f y z)) \<Longrightarrow> safe E a new (case x of (y, z) \<Rightarrow> f y z)"
  by (cases x) simp

lemma safe_sum_batches [inv_intros]:
  "(\<And>c. safe E a new (body c)) \<Longrightarrow> safe E a new (sum_batches body cs)"
  by (induction cs) (simp_all add: safe_pure safe_andthen)

text \<open>The wrappers of \<open>SQLAlchemyError\<close> change the error only.\<close>

lemma storage_error_snd: "storage_error x = (r, db) \<Longrightarrow> x = (fst x, db)"
  by (cases x rule: storage_error.cases) auto

lemma creation_error_snd: "creation_error x = (r, db) \<Longrightarrow> x = (fst x, db)"
  by (cases x rule: creation_error.cases) auto

lemma safe_storage_error:
  "safe E a new m \<Longrightarrow> safe E a new (\<lambda>db. storage_error (m db))"
  unfolding safe_def by (blast dest: storage_error_snd)

lemma safe_creation_error:
  "safe E a new m \<Longrightarrow> safe E a new (\<lambda>db. creation_error (m db))"
  unfolding safe_def by (blast dest: creation_error_snd)

lemma chosen_row:
  assumes "unique_ids T" and "selects q held T chosen" and "r \<in># T" and "event_id r \<in> event_id ` set chosen"
  shows "r \<in> set chosen"
proof -
  have "set chosen \<subseteq> set_mset T"
    using selects_where [OF assms(2)] by blast
  then show ?thesis
    using unique_selected [OF assms(1)] assms(3,4) by blast
qed

context sql_engine
begin

lemma safe_select: "safe E a new (\<lambda>db. sql_select E (q (tx_now E db)) db)"
  unfolding safe_def by (auto dest!: select_law intro: evolves_same)

lemma safe_lock: "safe E a new (sql_advisory_lock E tokens)"
  unfolding safe_def by (auto dest!: lock_law intro: evolves_same)

lemma safe_update:
  assumes "\<And>now r. p now r \<Longrightarrow> row_step now a r (f now r)"
  shows "safe E a new (\<lambda>db. sql_update E (p (tx_now E db)) (f (tx_now E db)) db)"
  unfolding safe_def
proof (intro allI impI)
  fix db r db'
  assume run: "sql_update E (p (tx_now E db)) (f (tx_now E db)) db = (r, db')"
    and u: "sound_ids E new (table_rows E db)"
  show "evolves E a new db db'"
  proof (cases r)
    case (Inl e)
    with run u show ?thesis by (auto dest!: update_err intro: evolves_same)
  next
    case (Inr rs)
    from update_law [OF run [unfolded Inr]] have now: "same_session E db' db"
      and rows: "table_rows E db' = updated_rows (p (tx_now E db)) (f (tx_now E db)) (table_rows E db)"
      by blast+
    have "unique_ids (table_rows E db')"
      unfolding rows by (subst unique_updated) (use sound_ids_unique [OF u] row_step_id [OF assms] in auto)
    then show ?thesis
      using now u assms by (intro evolves_step) (auto simp: rows intro: table_step.update)
  qed
qed

lemma safe_update_from:
  assumes "\<And>now T r. q_where (q now) T r \<Longrightarrow> row_step now a r (f now r)"
  shows "safe E a new (\<lambda>db. sql_update_from E (q (tx_now E db)) (f (tx_now E db)) db)"
  unfolding safe_def
proof (intro allI impI)
  fix db r db'
  let ?now = "tx_now E db"
  assume run: "sql_update_from E (q ?now) (f ?now) db = (r, db')" and u: "sound_ids E new (table_rows E db)"
  show "evolves E a new db db'"
  proof (cases r)
    case (Inl e)
    with run u show ?thesis by (auto dest!: update_from_err intro: evolves_same)
  next
    case (Inr rs)
    from update_from_law [OF run [unfolded Inr]] obtain chosen where sel: "selects (q ?now) (held_elsewhere E db) (table_rows E db) chosen"
      and now: "same_session E db' db" and rows: "table_rows E db' =
        updated_rows (\<lambda>r. event_id r \<in> event_id ` set chosen) (f ?now) (table_rows E db)"
      by blast
    have step: "row_step ?now a r (f ?now r)"
      if "r \<in># table_rows E db" "event_id r \<in> event_id ` set chosen" for r
      by (rule assms, rule selects_where [OF sel chosen_row [OF sound_ids_unique [OF u] sel that], THEN conjunct2])
    have "unique_ids (table_rows E db')"
      unfolding rows by (subst unique_updated) (use sound_ids_unique [OF u] row_step_id [OF step] in auto)
    then show ?thesis
      using now u step by (intro evolves_step) (auto simp: rows intro!: table_step.update)
  qed
qed

lemma safe_delete_from:
  assumes "\<And>now T r. q_where (q now) T r \<Longrightarrow> status r = COMPLETED"
  shows "safe E Operator new (\<lambda>db. sql_delete_from E (q (tx_now E db)) db)"
  unfolding safe_def
proof (intro allI impI)
  fix db r db'
  assume run: "sql_delete_from E (q (tx_now E db)) db = (r, db')" and u: "sound_ids E new (table_rows E db)"
  show "evolves E Operator new db db'"
  proof (cases r)
    case (Inl e)
    with run u show ?thesis by (auto dest!: delete_from_err intro: evolves_same)
  next
    case (Inr rs)
    from delete_from_law [OF run [unfolded Inr]] obtain chosen where
        sel: "selects (q (tx_now E db)) (held_elsewhere E db) (table_rows E db) chosen" and now: "same_session E db' db"
      and rows: "table_rows E db' =
        filter_mset (\<lambda>r. event_id r \<notin> event_id ` set chosen) (table_rows E db)"
      by blast
    have "status r = COMPLETED"
      if "r \<in># table_rows E db" "event_id r \<in> event_id ` set chosen" for r
      by (rule assms, rule selects_where [OF sel chosen_row [OF sound_ids_unique [OF u] sel that], THEN conjunct2])
    then show ?thesis
      using now u sound_ids_unique [OF u] by (intro evolves_step)
        (auto simp: rows unique_filter intro!: table_step.delete)
  qed
qed

lemma safe_insert:
  assumes "\<And>v. v \<in> set vs \<Longrightarrow> new v"
  shows "safe E Producer new (sql_insert E conflict vs)"
  unfolding safe_def
proof (intro allI impI)
  fix db r db'
  assume run: "sql_insert E conflict vs db = (r, db')" and u: "sound_ids E new (table_rows E db)"
  show "evolves E Producer new db db'"
  proof (cases r)
    case (Inl e)
    with run u show ?thesis by (auto dest!: insert_err intro: evolves_same)
  next
    case (Inr rs)
    from insert_law [OF run [unfolded Inr]] have now: "same_session E db' db"
      and keys: "unique_keys (partitioned_table E) (table_rows E db')"
      and rows: "table_rows E db' = table_rows E db + mset rs"
      and rs: "rs = inserted_rows conflict vs (set_mset (table_rows E db))"
      by blast+
    have "set rs \<subseteq> set vs"
      using inserted_rows_subset unfolding rs by fast
    then have step: "table_step (tx_now E db) Producer new (table_rows E db) (table_rows E db')"
      using assms unfolding rows by (intro table_step.insert) auto
    have "unique_ids (table_rows E db')"
    proof (rule unique_keys_ids [OF keys])
      assume "partitioned_table E"
      with one_birth_step [OF step] u show
        "\<forall>a\<in>#table_rows E db'. \<forall>b\<in>#table_rows E db'. event_id a = event_id b \<longrightarrow> created_at a = created_at b"
        unfolding sound_ids_def one_birth_def by blast
    qed
    with now u step show ?thesis
      by (intro evolves_step)
  qed
qed

lemmas safe_stmt = safe_storage_error safe_creation_error safe_select safe_lock safe_update
  safe_update_from safe_delete_from safe_insert

section \<open>The methods\<close>

lemma safe_reads [inv_intros]:
  "safe E a new (get_by_id E L R i)"
  "safe E a new (fetch_pending E L R n fs)"
  "safe E a new (get_existing_ids E ids)"
  unfolding get_by_id_def fetch_pending_def get_existing_ids_def
  by (intro inv_intros safe_storage_error safe_select)+

lemma normalize_worker_id_strip: "normalize_worker_id w = Inr x \<Longrightarrow> x = strip w"
  by (auto simp: normalize_worker_id_def Let_def split: if_splits)

lemma safe_lift_normalized:
  "safe E a new (f (strip w)) \<Longrightarrow> safe E a new (andthen (lift_res (normalize_worker_id w)) f)"
  by (cases "normalize_worker_id w")
    (auto simp: safe_def andthen_def evolves_refl dest: normalize_worker_id_strip)

lemma safe_worker [inv_intros]:
  "safe E (Worker w ttl) new (mark_processing E i w)"
  "safe E (Worker w ttl) new (mark_completed E i w)"
  "safe E (Worker w ttl) new (mark_failed E R i err w nxt c)"
  "safe E (Worker w ttl) new (refresh_lock E i w)"
  "safe E (Worker w ttl) new (release_lock E i w)"
proof -
  have p: "status r = PENDING \<Longrightarrow> locked_at r = None \<Longrightarrow>
      row_step now (Worker w ttl) r (r\<lparr>locked_at := Some now, locked_by := Some w\<rparr>)" for now r
    by (rule take) (auto simp: lock_filter_def split: option.splits)
  have f: "held_by w r \<Longrightarrow> row_step now (Worker w ttl) r (failed_row err nxt c r)" for now r err nxt c
    by (rule fail) (auto simp: held_by_def)
  show "safe E (Worker w ttl) new (mark_processing E i w)"
    unfolding mark_processing_def by (intro inv_intros safe_stmt p) simp_all
  show "safe E (Worker w ttl) new (mark_completed E i w)"
    unfolding mark_completed_def by (intro inv_intros safe_stmt complete) simp_all
  show "safe E (Worker w ttl) new (mark_failed E R i err w nxt c)"
    unfolding mark_failed_def by (intro inv_intros safe_stmt f) simp_all
  show "safe E (Worker w ttl) new (refresh_lock E i w)" "safe E (Worker w ttl) new (release_lock E i w)"
    unfolding refresh_lock_def release_lock_def
    by (intro inv_intros safe_stmt refresh release; simp add: locked_row_of_def)+
qed

lemma safe_operator [inv_intros]:
  "safe E Operator new (force_unlock E i reason)"
  "safe E Operator new (requeue_failed E i)"
  "safe E Operator new (delete_old_completed E days n)"
  unfolding force_unlock_def requeue_failed_def delete_old_completed_def
  by (intro inv_intros safe_stmt force requeue; simp)+

lemma safe_fetch [inv_intros]:
  "safe E (Worker (strip w) ttl) new (fetch_and_lock_pending E L R n w ttl fs)"
  unfolding fetch_and_lock_pending_def
  by (intro inv_intros safe_lift_normalized safe_stmt take) (auto simp: pending_query_def fetchable_def)

lemma safe_bulk_completed [inv_intros]:
  "safe E (Worker w ttl) new (bulk_mark_completed E R ids w)"
  unfolding bulk_mark_completed_def complete_batch_def check_total_def
  by (intro inv_intros safe_stmt complete) simp_all

lemma safe_bulk_release [inv_intros]:
  "safe E (Worker w ttl) new (bulk_release_locks E R ids w)"
  unfolding bulk_release_locks_def release_batch_def
  by (intro inv_intros safe_stmt release) simp_all

lemma join_failure_step:
  assumes "event_id r \<in> fst ` set data" and "status r = PENDING" and "locked_by r = Some w"
  shows "row_step now (Worker w ttl) r (join_failure data c r)"
proof -
  obtain err nxt where "map_of data (event_id r) = Some (err, nxt)"
    using assms(1) by (metis not_None_eq map_of_eq_None_iff surj_pair)
  then show ?thesis
    using assms(2,3) by (simp add: join_failure_def fail)
qed

lemma safe_bulk_failed [inv_intros]:
  "safe E (Worker w ttl) new (bulk_mark_failed E R failures w c)"
  unfolding bulk_mark_failed_def fail_batch_def check_total_def
  by (intro inv_intros safe_stmt join_failure_step) simp_all

lemma safe_stale_loop: "safe E (Sweeper n) new (release_stale_loop E R n k m)"
proof (induction k arbitrary: m)
  case (Suc k)
  show ?case
    unfolding release_stale_loop.simps
    by (intro inv_intros safe_stmt sweep Suc.IH) (simp add: stale_query_def)
qed (simp add: safe_pure)

lemma safe_stale [inv_intros]: "safe E (Sweeper n) new (release_stale_locks E R n k)"
  unfolding release_stale_locks_def by (intro inv_intros safe_stale_loop)

lemma safe_lookups [inv_intros]:
  "safe E a new (find_existing_by_identity E R e)"
  "safe E a new (fetch_existing_event E R e)"
  "safe E a new (lock_identity_and_find_existing E py_str R e)"
  unfolding find_existing_by_identity_def fetch_existing_event_def base_fetch_existing_event_def
    inbox_fetch_existing_event_def lock_identity_and_find_existing_def
  by (intro inv_intros safe_creation_error safe_select safe_lock)+

lemma safe_insert_or_fetch [inv_intros]:
  "new e \<Longrightarrow> safe E Producer new (insert_or_fetch E L R e)"
  unfolding insert_or_fetch_def execute_insert_def
  by (intro inv_intros safe_creation_error safe_insert) simp_all

lemma safe_create [inv_intros]: "new e \<Longrightarrow> safe E Producer new (create E py_str L R e)"
  unfolding create_def base_create_def inbox_create_def
  by (intro inv_intros safe_creation_error safe_select safe_lock) simp_all

lemma safe_fetch_skipped [inv_intros]: "safe E a new (fetch_skipped E L R es)"
proof (induction es)
  case (Cons e es)
  then show ?case
    unfolding fetch_skipped.simps by (intro inv_intros)
qed (simp only: fetch_skipped.simps safe_pure)

lemma safe_create_group [inv_intros]:
  "(\<And>b e. b \<in> set batches \<Longrightarrow> e \<in> set b \<Longrightarrow> new e) \<Longrightarrow>
     safe E Producer new (create_group E L R index batches)"
proof (induction batches)
  case (Cons b batches)
  have "safe E Producer new (create_batch E L R index b)"
    unfolding create_batch_def
    by (intro inv_intros safe_creation_error safe_insert Cons.prems) simp_all
  moreover have "safe E Producer new (create_group E L R index batches)"
    by (rule Cons.IH, rule Cons.prems) auto
  ultimately show ?case
    unfolding create_group.simps by (intro inv_intros)
qed (simp only: create_group.simps safe_pure)

lemma first_by_token_subset:
  "snd ` set (fst (first_by_token token es firsts dropped)) \<subseteq> snd ` set firsts \<union> set es"
proof (induction es arbitrary: firsts dropped)
  case (Cons e es)
  have "snd ` set (fst (first_by_token token es firsts (dropped @ [e]))) \<subseteq> snd ` set firsts \<union> set (e # es)"
    by (rule order_trans [OF Cons.IH]) auto
  moreover have "snd ` set (fst (first_by_token token es (firsts @ [(token e, e)]) dropped))
      \<subseteq> snd ` set firsts \<union> set (e # es)"
    by (rule order_trans [OF Cons.IH]) auto
  ultimately show ?case
    by (cases "token e \<in> fst ` set firsts") (simp_all only: first_by_token.simps if_True if_False)
qed simp

lemma settle_subset:
  assumes "settle_partition_scoped_duplicates E py_str collation L R es db =
    (Inr (to_insert, dropped, created), db')"
  shows "set to_insert \<subseteq> set es"
proof -
  obtain firsts ds where f: "first_by_token (identity_token py_str R) es [] [] = (firsts, ds)"
    by fastforce
  have "set to_insert \<subseteq> snd ` set firsts"
    using assms by (auto simp: settle_partition_scoped_duplicates_def f Let_def res_simps)
  then show ?thesis
    using first_by_token_subset [of "identity_token py_str R" es "[]" "[]"] f by auto
qed

lemma safe_settle: "safe E a new (settle_partition_scoped_duplicates E py_str collation L R es)"
  unfolding settle_partition_scoped_duplicates_def Let_def
  by (intro inv_intros safe_creation_error safe_select safe_lock)

lemma safe_bulk_create [inv_intros]:
  assumes "\<And>e. e \<in> set events \<Longrightarrow> new e"
  shows "safe E Producer new (bulk_create E py_str collation L R events)"
proof -
  have group: "safe E Producer new (create_group E L R index (chunks n es))"
    if "set es \<subseteq> set events" for index n es
    by (rule safe_create_group) (use that assms chunks_subset in fast)
  show ?thesis
    unfolding bulk_create_def Let_def
  proof (intro safe_if safe_pure safe_andthen_post [where m = "if _ then _ else _"] safe_settle, goal_cases)
    case (1 x db db')
    obtain es ds cs where x: "x = (es, ds, cs)" by (cases x)
    have "set es \<subseteq> set events"
      using 1 by (auto simp: x split: if_splits dest!: settle_subset)
    then show ?case
      unfolding x prod.case by (intro inv_intros group) auto
  qed
qed

end

end
