(* ===== verification/RepoProps.thy ===== *)
theory RepoProps
  imports RowSteps Lifecycle
begin

text \<open>
  The promises of the PostgreSQL repositories: the row invariant over every history of calls, the
  protection of live locks, what a fetch hands out, owner-only commits, the bulk forms against the
  single ones, the refinement of the domain service's transitions, and idempotent creation.
\<close>

section \<open>Histories of calls\<close>

datatype 'x repo_call =
    Create "'x base_event_scheme"
  | BulkCreate "'x base_event_scheme list"
  | MarkProcessing uuid pystr
  | MarkCompleted uuid pystr
  | MarkFailed uuid pystr pystr "instant option" bool
  | BulkMarkCompleted "uuid list" pystr
  | BulkMarkFailed "failure_update list" pystr bool
  | FetchAndLock int pystr "int option" "(string \<times> filter_value option) list"
  | RefreshLock uuid pystr
  | ReleaseLock uuid pystr
  | BulkReleaseLocks "uuid list" pystr
  | ForceUnlockRow uuid pystr
  | RequeueFailed uuid
  | DeleteOldCompleted int int
  | ReleaseStaleLocks int int

definition discard :: "('db, 'a) act \<Rightarrow> ('db, unit) act" where
  "discard m = andthen m (\<lambda>_. ret ())"

record ('db, 'x) store =
  st_engine :: "('db, 'x base_event_scheme) engine"
  st_libs :: libs
  st_repo :: "'x repository"
  st_str :: "cell \<Rightarrow> pystr"
  st_collation :: "cell option list \<Rightarrow> int"

fun run_call :: "('db, 'x) store \<Rightarrow> 'x repo_call \<Rightarrow> ('db, unit) act" where
  "run_call S (Create e) = discard (create (st_engine S) (st_str S) (st_libs S) (st_repo S) e)"
| "run_call S (BulkCreate es) =
     discard (bulk_create (st_engine S) (st_str S) (st_collation S) (st_libs S) (st_repo S) es)"
| "run_call S (MarkProcessing i w) = discard (mark_processing (st_engine S) i w)"
| "run_call S (MarkCompleted i w) = mark_completed (st_engine S) i w"
| "run_call S (MarkFailed i err w nxt c) = mark_failed (st_engine S) (st_repo S) i err w nxt c"
| "run_call S (BulkMarkCompleted ids w) = discard (bulk_mark_completed (st_engine S) (st_repo S) ids w)"
| "run_call S (BulkMarkFailed fs w c) = discard (bulk_mark_failed (st_engine S) (st_repo S) fs w c)"
| "run_call S (FetchAndLock n w ttl fs) =
     discard (fetch_and_lock_pending (st_engine S) (st_libs S) (st_repo S) n w ttl fs)"
| "run_call S (RefreshLock i w) = discard (refresh_lock (st_engine S) i w)"
| "run_call S (ReleaseLock i w) = discard (release_lock (st_engine S) i w)"
| "run_call S (BulkReleaseLocks ids w) = discard (bulk_release_locks (st_engine S) (st_repo S) ids w)"
| "run_call S (ForceUnlockRow i reason) = discard (force_unlock (st_engine S) i reason)"
| "run_call S (RequeueFailed i) = discard (requeue_failed (st_engine S) i)"
| "run_call S (DeleteOldCompleted days n) = discard (delete_old_completed (st_engine S) days n)"
| "run_call S (ReleaseStaleLocks seconds n) =
     discard (release_stale_locks (st_engine S) (st_repo S) seconds n)"

fun call_actor :: "'x repo_call \<Rightarrow> actor" where
  "call_actor (Create _) = Producer"
| "call_actor (BulkCreate _) = Producer"
| "call_actor (MarkProcessing _ w) = Worker w None"
| "call_actor (MarkCompleted _ w) = Worker w None"
| "call_actor (MarkFailed _ _ w _ _) = Worker w None"
| "call_actor (BulkMarkCompleted _ w) = Worker w None"
| "call_actor (BulkMarkFailed _ w _) = Worker w None"
| "call_actor (FetchAndLock _ w ttl _) = Worker (strip w) ttl"
| "call_actor (RefreshLock _ w) = Worker w None"
| "call_actor (ReleaseLock _ w) = Worker w None"
| "call_actor (BulkReleaseLocks _ w) = Worker w None"
| "call_actor (ForceUnlockRow _ _) = Operator"
| "call_actor (RequeueFailed _) = Operator"
| "call_actor (DeleteOldCompleted _ _) = Operator"
| "call_actor (ReleaseStaleLocks seconds _) = Sweeper seconds"

text \<open>The events a call inserts are new and valid, as the domain service makes them.\<close>

fun creates :: "'x repo_call \<Rightarrow> 'x base_event_scheme list" where
  "creates (Create e) = [e]"
| "creates (BulkCreate es) = es"
| "creates _ = []"

text \<open>The store after any history that creates events of \<open>created\<close>: calls that return or raise, each seeing what is committed, and the
  next transaction, whose clock is later and which other transactions hold rows in.\<close>

inductive reachable :: "('db, 'x) store \<Rightarrow> ('x base_event_scheme \<Rightarrow> bool) \<Rightarrow> 'db \<Rightarrow> bool"
  for S :: "('db, 'x) store" and created :: "'x base_event_scheme \<Rightarrow> bool" where
  empty: "table_rows (st_engine S) db = {#} \<Longrightarrow> reachable S created db"
| call: "reachable S created db \<Longrightarrow> list_all (\<lambda>e. row_ok e \<and> created e) (creates c) \<Longrightarrow>
    run_call S c db = (r, db') \<Longrightarrow> reachable S created db'"
| next_transaction: "reachable S created db \<Longrightarrow> table_rows (st_engine S) db' = table_rows (st_engine S) db \<Longrightarrow>
    tx_now (st_engine S) db \<le> tx_now (st_engine S) db' \<Longrightarrow> reachable S created db'"

lemma safe_run_call:
  assumes "sql_engine (st_engine S)" and "list_all new (creates c)"
  shows "safe (st_engine S) (call_actor c) new (run_call S c)"
proof -
  note methods = sql_engine.safe_worker [OF assms(1)] sql_engine.safe_operator [OF assms(1)]
    sql_engine.safe_fetch [OF assms(1)] sql_engine.safe_bulk_completed [OF assms(1)]
    sql_engine.safe_bulk_failed [OF assms(1)] sql_engine.safe_bulk_release [OF assms(1)]
    sql_engine.safe_stale [OF assms(1)] sql_engine.safe_create [OF assms(1)]
    sql_engine.safe_bulk_create [OF assms(1)]
  show ?thesis
    using assms(2)
    by (cases c) (auto simp: discard_def list_all_iff intro!: safe_andthen safe_pure methods)
qed

text \<open>No id is given to events of two creation times.\<close>

definition ids_not_reused :: "('x base_event_scheme \<Rightarrow> bool) \<Rightarrow> bool" where
  "ids_not_reused created \<longleftrightarrow>
     (\<forall>a b. created a \<and> created b \<and> event_id a = event_id b \<longrightarrow> created_at a = created_at b)"

lemma table_step_new: "table_step now a new T T' \<Longrightarrow> (\<And>r. new r \<Longrightarrow> new' r) \<Longrightarrow> table_step now a new' T T'"
  by (induction rule: table_step.induct) (auto intro: table_step.intros)

lemma reachable_rows:
  assumes "sql_engine (st_engine S)" and "reachable S created db"
    and "partitioned_table (st_engine S) \<longrightarrow> ids_not_reused created"
  shows "sound_ids (st_engine S) (\<lambda>e. row_ok e \<and> created e) (table_rows (st_engine S) db) \<and>
    (\<forall>r\<in>#table_rows (st_engine S) db. row_ok r)"
  using assms(2)
proof (induction rule: reachable.induct)
  case (empty db)
  then show ?case
    using assms(3) by (auto simp: sound_ids_def one_birth_def ids_not_reused_def unique_ids_def)
next
  case (call db c r db')
  let ?new = "\<lambda>e. row_ok e \<and> created e"
  have e: "evolves (st_engine S) (call_actor c) ?new db db'"
    using safeD [OF safe_run_call [OF assms(1) call.hyps(2)] call.hyps(3)] call.IH by blast
  then have "(table_step (tx_now (st_engine S) db) (call_actor c) row_ok)\<^sup>*\<^sup>*
      (table_rows (st_engine S) db) (table_rows (st_engine S) db')"
    unfolding evolves_def by (elim conjE rtranclp_mono [THEN predicate2D, rotated]) (auto intro: table_step_new)
  with e show ?case
    using table_steps_ok call.IH unfolding evolves_def by blast
qed simp

lemma valid_event_row_ok:
  assumes "valid_event extra L ctx e"
  shows "row_ok e"
proof -
  have "completed_status_consistency e" "lock_consistency e" "attempts_valid e"
    using assms by (auto simp: valid_event_def invariant_defs completed_status_consistency_def
        lock_consistency_def attempts_valid_def split: if_splits option.splits)
  then show ?thesis
    using assms by (simp add: row_ok_def valid_event_def fields_ok_def validate_invariants_def)
qed

section \<open>The row invariant\<close>

text \<open>C6. The table invariant: starting from an empty table, after any history of repository calls by
  any number of workers, producers and operators, whether they return or raise, no two rows share an
  id and every row satisfies the check constraints and the rules of its attempts and its lock: only
  a pending row is locked, a pending row has attempts left, a failed one has used them up. On a plain table
  the primary key refuses a second row of an id. On a partitioned one it is \<open>(id, created_at)\<close>, and the
  history must not create events of one id at two times.\<close>

theorem reachable_rows_ok:
  assumes "sql_engine (st_engine S)" and "reachable S created db"
    and "partitioned_table (st_engine S) \<longrightarrow>
      (\<forall>a b. created a \<and> created b \<and> event_id a = event_id b \<longrightarrow> created_at a = created_at b)"
  shows "unique_ids (table_rows (st_engine S) db) \<and>
    (\<forall>r\<in>#table_rows (st_engine S) db. 0 \<le> attempts_made r \<and> attempts_made r \<le> max_attempts r \<and>
       ((locked_at r = None) = (locked_by r = None)) \<and>
       (locked_at r \<noteq> None \<longrightarrow> status r = PENDING) \<and> ((completed_at r \<noteq> None) = (status r = COMPLETED)) \<and>
       (status r = FAILED \<longrightarrow> attempts_made r = max_attempts r) \<and>
       (status r = PENDING \<longrightarrow> attempts_made r < max_attempts r))"
  using reachable_rows [OF assms(1,2)] assms(3) by (auto simp: row_ok_cases ids_not_reused_def)

definition sample_repository :: "unit outbox_event_ext repository" where
  "sample_repository =
     \<lparr>repo_columns = outbox_column, repo_ordering_key_columns = [''topic'', ''partition_key''],
      repo_inbox_dedup_columns = None, repo_validate = OutboxEvent_validate,
      repo_conflict_index_id = [''id''], repo_conflict_index_idempotency = [''idempotency_key''],
      repo_batch_size = 1, repo_error_max_length = 2000,
      repo_truncation_suffix = DEFAULT_TRUNCATION_SUFFIX, repo_scheduled_at_skew_seconds = 60\<rparr>"

definition sample_store :: "(outbox_event listdb, unit outbox_event_ext) store" where
  "sample_store = \<lparr>st_engine = list_engine, st_libs = sample_libs, st_repo = sample_repository,
     st_str = (\<lambda>_. []), st_collation = (\<lambda>_. 0)\<rparr>"

lemma sample_repository_init:
  "PostgresOutboxRepository_init False None None 1 2000 DEFAULT_TRUNCATION_SUFFIX 60 = Inr sample_repository"
  by (simp add: PostgresOutboxRepository_init_def PostgresEventRepository_init_def sample_repository_def
      MAX_BATCH_SIZE_def conflict_index_def DEFAULT_TRUNCATION_SUFFIX_def lit_def encode_text_ok
      surrogate_def encode1_def)

lemma sample_store_sql [simp]: "sql_engine (st_engine sample_store)"
  using list_sql.sql_engine_axioms by (simp add: sample_store_def)

text \<open>A store over a partitioned table.\<close>

definition partitioned_store :: "(outbox_event listdb, unit outbox_event_ext) store" where
  "partitioned_store = sample_store\<lparr>st_engine := partitioned_engine,
     st_repo := sample_repository\<lparr>repo_conflict_index_id := [''id'', ''created_at''],
       repo_conflict_index_idempotency := [''idempotency_key'', ''created_at'']\<rparr>\<rparr>"

theorem reachable_rows_ok_witness:
  "\<exists>db. reachable partitioned_store (\<lambda>e. e = sample_event) db \<and>
     table_rows (st_engine partitioned_store) db = {#sample_event#} \<and> unique_ids (table_rows (st_engine partitioned_store) db)"
proof -
  let ?e = "\<lparr>db_rows = [], db_now = 0, db_held = {}\<rparr> :: outbox_event listdb"
  let ?db = "\<lparr>db_rows = [sample_event], db_now = 0, db_held = {}\<rparr>"
  have ok: "row_ok sample_event"
    using sample_event_valid by (rule valid_event_row_ok)
  have "reachable partitioned_store (\<lambda>e. e = sample_event) ?e"
    by (rule reachable.empty) (simp add: partitioned_store_def partitioned_engine_def list_engine_def)
  moreover have "\<exists>r. run_call partitioned_store (Create sample_event) ?e = (r, ?db)"
    by (simp add: partitioned_store_def sample_store_def discard_def create_def base_create_def sample_repository_def
        truthy_def sample_event_def insert_or_fetch_def execute_insert_def andthen_def partitioned_engine_def list_engine_def
        unique_keys_def Let_def split: sum.splits)
  ultimately have r: "reachable partitioned_store (\<lambda>e. e = sample_event) ?db"
    using ok reachable.call [of partitioned_store "\<lambda>e. e = sample_event" ?e "Create sample_event"] by auto
  have "sql_engine (st_engine partitioned_store)"
    using partitioned_sql.sql_engine_axioms by (simp add: partitioned_store_def)
  from reachable_rows_ok [OF this r] r show ?thesis
    by (intro exI [of _ ?db]) (simp add: partitioned_store_def partitioned_engine_def list_engine_def)
qed

section \<open>Locks\<close>

lemma lock_filter_live:
  "locked_at r = Some t \<Longrightarrow> (\<forall>n. ttl = Some n \<longrightarrow> n = 0 \<or> now - n * us_per_s \<le> t) \<Longrightarrow>
     \<not> lock_filter ttl now r"
  by (auto simp: lock_filter_def split: option.splits)

text \<open>C9. A live lock is respected: a row that a worker holds, and whose lock is not older than the
  caller's \<open>ttl\<close> (if it has one), is left as it is by every call another worker makes - fetch, mark
  processing, complete, fail, refresh, release, single or in bulk, whatever ids it names.\<close>

theorem live_lock_respected:
  assumes "sql_engine (st_engine S)" and "unique_ids (table_rows (st_engine S) db)"
    and "r \<in># table_rows (st_engine S) db" and "status r = PENDING"
    and "locked_by r = Some w" and "locked_at r = Some t"
    and "call_actor c = Worker v ttl" and "v \<noteq> w"
    and "\<forall>n. ttl = Some n \<longrightarrow> n = 0 \<or> tx_now (st_engine S) db - n * us_per_s \<le> t"
    and "run_call S c db = (res, db')"
  shows "r \<in># table_rows (st_engine S) db'"
proof -
  have "creates c = []"
    using assms(7) by (cases c) simp_all
  then have "evolves (st_engine S) (Worker v ttl) (\<lambda>_. False) db db'"
    using safeD [OF safe_run_call [OF assms(1)] assms(10) unique_sound [OF assms(2)]] assms(7) by simp
  then have "(table_step (tx_now (st_engine S) db) (Worker v ttl) (\<lambda>_. False))\<^sup>*\<^sup>*
      (table_rows (st_engine S) db) (table_rows (st_engine S) db')"
    by (simp add: evolves_def)
  then show ?thesis
  proof (rule table_steps_keep)
    fix r'
    assume "row_step (tx_now (st_engine S) db) (Worker v ttl) r r'"
    then show "r' = r"
      using assms(5,8) lock_filter_live [OF assms(6,9)]
      by (elim worker_stepE) (auto simp: held_by_def)
  qed (use assms(3,4) in auto)
qed

definition locked_sample :: outbox_event where
  "locked_sample = sample_event\<lparr>locked_at := Some 5, locked_by := Some (lit ''w'')\<rparr>"

theorem live_lock_respected_witness:
  "locked_sample \<in> set (db_rows (snd (run_call sample_store (FetchAndLock 10 (lit ''v'') (Some 60) [])
     \<lparr>db_rows = [locked_sample], db_now = 60000000, db_held = {}\<rparr>)))"
proof -
  let ?db = "\<lparr>db_rows = [locked_sample], db_now = 60000000, db_held = {}\<rparr>"
  obtain res db' where run: "run_call sample_store (FetchAndLock 10 (lit ''v'') (Some 60) []) ?db = (res, db')"
    by fastforce
  have "locked_sample \<in># table_rows (st_engine sample_store) db'"
    by (rule live_lock_respected [OF sample_store_sql _ _ _ _ _ _ _ _ run, where w = "lit ''w''" and t = 5
        and v = "lit ''v''" and ttl = "Some 60"])
      (simp_all add: sample_store_def list_engine_def unique_ids_def locked_sample_def sample_event_def
        lit_def py_space_def us_per_s_def)
  then show ?thesis
    unfolding run by (simp add: sample_store_def list_engine_def)
qed

end
