(* ===== verification/Commits.thy ===== *)
theory Commits
  imports RepoProps
begin

text \<open>
  Commits and maintenance of the repositories: who may complete or fail a row, the bulk calls as the
  single ones on all ids or an error, the release of stale locks, the domain transitions the rows
  refine, and idempotent creation.
\<close>

section \<open>Counting rows by id\<close>

lemma unique_size:
  assumes "unique_ids M"
  shows "size M = card (event_id ` set_mset M)"
proof -
  have "count M r = (if r \<in># M then 1 else 0)" for r
  proof -
    have "count M r \<le> size (filter_mset (\<lambda>x. event_id x = event_id r) M)"
      using count_le_size [of "filter_mset (\<lambda>x. event_id x = event_id r) M" r] by simp
    then have "count M r \<le> 1"
      using assms unfolding unique_ids_size by (meson order_trans)
    then show ?thesis
      by (metis count_eq_zero_iff le_antisym less_one not_le)
  qed
  then have "M = mset_set (set_mset M)"
    by (intro multiset_eqI) simp
  then have "size M = card (set_mset M)"
    by (metis size_mset_set)
  moreover have "inj_on event_id (set_mset M)"
    using unique_same [OF assms] by (meson inj_onI)
  ultimately show ?thesis
    by (simp add: card_image)
qed

text \<open>As many rows as ids, all with these ids: there is one for each.\<close>

lemma all_ids_found:
  assumes "unique_ids T" and "distinct ids"
    and "size (filter_mset (\<lambda>r. event_id r \<in> set ids \<and> P r) T) = length ids" and "i \<in> set ids"
  shows "\<exists>r\<in>#T. event_id r = i \<and> P r"
proof -
  let ?M = "filter_mset (\<lambda>r. event_id r \<in> set ids \<and> P r) T"
  have "card (event_id ` set_mset ?M) = card (set ids)"
    using unique_size [OF unique_filter [OF assms(1)]] assms(2,3) by (metis distinct_card)
  then have "event_id ` set_mset ?M = set ids"
    by (intro card_subset_eq) auto
  then have "i \<in> event_id ` set_mset ?M"
    using assms(4) by simp
  then show ?thesis by auto
qed

lemma ids_found_size:
  assumes "unique_ids T" and "distinct ids" and "\<And>i. i \<in> set ids \<Longrightarrow> \<exists>r\<in>#T. event_id r = i \<and> P r"
  shows "size (filter_mset (\<lambda>r. event_id r \<in> set ids \<and> P r) T) = length ids"
proof -
  let ?M = "filter_mset (\<lambda>r. event_id r \<in> set ids \<and> P r) T"
  have "event_id ` set_mset ?M = set ids"
    using assms(3) by fastforce
  then show ?thesis
    using unique_size [OF unique_filter [OF assms(1)]] assms(2) by (metis distinct_card)
qed

lemma filter_by_id:
  assumes "unique_ids T"
  shows "filter_mset (\<lambda>r. event_id r = i \<and> P r) T = {#} \<and> \<not> (\<exists>r\<in>#T. event_id r = i \<and> P r) \<or>
    (\<exists>r\<in>#T. event_id r = i \<and> P r \<and> filter_mset (\<lambda>r. event_id r = i \<and> P r) T = {#r#})"
proof (cases "\<exists>r\<in>#T. event_id r = i \<and> P r")
  case True
  then obtain r where r: "r \<in># T" "event_id r = i" "P r" by blast
  then have "size (filter_mset (\<lambda>x. event_id x \<in> set [i] \<and> P x) T) = length [i]"
    by (intro ids_found_size [OF assms]) auto
  then obtain x where x: "filter_mset (\<lambda>x. event_id x = i \<and> P x) T = {#x#}"
    using size_1_singleton_mset by fastforce
  then have "x \<in># filter_mset (\<lambda>x. event_id x = i \<and> P x) T" by simp
  then have "x \<in># T" "event_id x = i" "P x" by simp_all
  with x show ?thesis by blast
next
  case False
  then show ?thesis
    by (intro disjI1 conjI multiset_eqI) (auto simp: not_in_iff)
qed

section \<open>One row\<close>

context sql_engine
begin

text \<open>A statement on the row of an id, and the row it found or not.\<close>

lemma update_by_id:
  assumes "unique_ids (table_rows E db)"
    and "sql_update E (\<lambda>r. event_id r = i \<and> P r) f db = (res, db')"
  shows "(\<exists>e. res = Inl e \<and> table_rows E db' = table_rows E db) \<or>
    (\<exists>r\<in>#table_rows E db. event_id r = i \<and> P r \<and> res = Inr [f r] \<and>
      table_rows E db' = updated_rows (\<lambda>x. event_id x = i) f (table_rows E db)) \<or>
    (res = Inr [] \<and> \<not> (\<exists>r\<in>#table_rows E db. event_id r = i \<and> P r) \<and>
      table_rows E db' = table_rows E db)"
proof (cases res)
  case (Inl e)
  with assms(2) show ?thesis by (auto dest: update_err)
next
  case (Inr rs)
  note law = update_law [OF assms(2) [unfolded Inr]]
  from filter_by_id [OF assms(1), of i P] show ?thesis
  proof
    assume none: "filter_mset (\<lambda>r. event_id r = i \<and> P r) (table_rows E db) = {#} \<and>
      \<not> (\<exists>r\<in>#table_rows E db. event_id r = i \<and> P r)"
    then have "mset rs = {#}"
      using law by (metis image_mset_empty)
    then have "rs = []" by simp
    moreover have "updated_rows (\<lambda>r. event_id r = i \<and> P r) f (table_rows E db) = table_rows E db"
      using none by (intro updated_rows_idle) blast
    then have "table_rows E db' = table_rows E db"
      using law by simp
    ultimately show ?thesis
      using none Inr by blast
  next
    assume "\<exists>r\<in>#table_rows E db. event_id r = i \<and> P r \<and>
      filter_mset (\<lambda>r. event_id r = i \<and> P r) (table_rows E db) = {#r#}"
    then obtain r where r: "r \<in># table_rows E db" "event_id r = i" "P r"
      and one: "filter_mset (\<lambda>r. event_id r = i \<and> P r) (table_rows E db) = {#r#}" by blast
    then have "rs = [f r]"
      using law by (simp add: mset_single_iff)
    moreover have "updated_rows (\<lambda>r. event_id r = i \<and> P r) f (table_rows E db) =
        updated_rows (\<lambda>x. event_id x = i) f (table_rows E db)"
    proof (rule updated_rows_same)
      fix x
      assume "x \<in># table_rows E db"
      then show "event_id x = i \<and> P x \<longleftrightarrow> event_id x = i"
        using unique_same [OF assms(1) r(1), of x] r(2,3) by blast
    qed simp
    then have "table_rows E db' = updated_rows (\<lambda>x. event_id x = i) f (table_rows E db)"
      using law by simp
    ultimately show ?thesis
      using r unfolding Inr by (intro disjI2 disjI1 bexI [of _ r] conjI) simp_all
  qed
qed

lemma mark_completed_outcome:
  assumes "unique_ids (table_rows E db)" and "mark_completed E i w db = (res, db')"
  shows "(res = Inl StorageError \<and> table_rows E db' = table_rows E db) \<or>
    (res = Inr () \<and> (\<exists>r\<in>#table_rows E db. event_id r = i \<and> held_by w r) \<and>
      table_rows E db' =
        updated_rows (\<lambda>x. event_id x = i) (completed_row (tx_now E db)) (table_rows E db)) \<or>
    (res = Inl (EventConcurrentUpdateError 1 0 [i]) \<and>
      \<not> (\<exists>r\<in>#table_rows E db. event_id r = i \<and> held_by w r) \<and> table_rows E db' = table_rows E db)"
proof -
  obtain x db1 where upd: "sql_update E (\<lambda>r. event_id r = i \<and> held_by w r)
      (completed_row (tx_now E db)) db = (x, db1)" by fastforce
  from update_by_id [OF assms(1) upd] show ?thesis
    using assms(2) upd by (auto simp: mark_completed_def andthen_def)
qed

lemma mark_failed_outcome:
  assumes "unique_ids (table_rows E db)" and "mark_failed E R i err w nxt c db = (res, db')"
    and "repo_truncate_error R err = Inr tr"
  shows "(res = Inl StorageError \<and> table_rows E db' = table_rows E db) \<or>
    (res = Inr () \<and> (\<exists>r\<in>#table_rows E db. event_id r = i \<and> held_by w r) \<and>
      table_rows E db' = updated_rows (\<lambda>x. event_id x = i) (failed_row tr nxt c) (table_rows E db)) \<or>
    (res = Inl (EventConcurrentUpdateError 1 0 [i]) \<and>
      \<not> (\<exists>r\<in>#table_rows E db. event_id r = i \<and> held_by w r) \<and> table_rows E db' = table_rows E db)"
proof -
  obtain x db1 where upd: "sql_update E (\<lambda>r. event_id r = i \<and> held_by w r)
      (failed_row tr nxt c) db = (x, db1)" by fastforce
  from update_by_id [OF assms(1) upd] show ?thesis
    using assms(2,3) upd by (auto simp: mark_failed_def andthen_def)
qed

end

text \<open>C27. Completing is for the holder only, and exact: unless the statement itself fails, the call
  succeeds just when the row is pending and locked by this worker, and then completes this row at the
  transaction's time and frees it; otherwise it raises \<open>EventConcurrentUpdateError\<close>, naming the id.
  On every error the table is as it was.\<close>

theorem complete_needs_owner:
  assumes "sql_engine E" and "unique_ids (table_rows E db)" and "mark_completed E i w db = (res, db')"
    and "res \<noteq> Inl StorageError"
  shows "(res = Inr () \<longleftrightarrow>
      (\<exists>r\<in>#table_rows E db. event_id r = i \<and> status r = PENDING \<and> locked_at r \<noteq> None \<and> locked_by r = Some w)) \<and>
    (res = Inr () \<longrightarrow> table_rows E db' = updated_rows (\<lambda>r. event_id r = i)
       (\<lambda>r. r\<lparr>status := COMPLETED, completed_at := Some (tx_now E db), locked_at := None, locked_by := None\<rparr>)
       (table_rows E db)) \<and>
    (res \<noteq> Inr () \<longrightarrow>
      res = Inl (EventConcurrentUpdateError 1 0 [i]) \<and> table_rows E db' = table_rows E db)"
  using sql_engine.mark_completed_outcome [OF assms(1,2,3)] assms(4)
  unfolding held_by_def completed_row_def [abs_def] by auto

theorem complete_needs_owner_witness:
  "mark_completed list_engine (UUID 7) (lit ''w'') \<lparr>db_rows = [locked_sample], db_now = 9, db_held = {}\<rparr> =
     (Inr (), \<lparr>db_rows = [completed_row 9 locked_sample], db_now = 9, db_held = {}\<rparr>) \<and>
   unique_ids {#locked_sample#}"
proof -
  let ?db = "\<lparr>db_rows = [locked_sample], db_now = 9, db_held = {}\<rparr>"
  obtain res db' where run: "mark_completed list_engine (UUID 7) (lit ''w'') ?db = (res, db')"
    by fastforce
  have u: "unique_ids (table_rows list_engine ?db)"
    by (simp add: list_engine_def unique_ids_def)
  have "mark_completed list_engine (UUID 7) (lit ''w'') ?db =
      (Inr (), \<lparr>db_rows = [completed_row 9 locked_sample], db_now = 9, db_held = {}\<rparr>)"
    by (simp add: mark_completed_def andthen_def list_engine_def list_update_def held_by_def
        locked_sample_def sample_event_def)
  moreover have "res \<noteq> Inl StorageError"
    using run calculation by auto
  from complete_needs_owner [OF list_sql.sql_engine_axioms u run this] have
    "res = Inr () \<or> res = Inl (EventConcurrentUpdateError 1 0 [UUID 7])" by blast
  ultimately show ?thesis
    using u by (simp add: list_engine_def)
qed

section \<open>Bulk calls\<close>

lemma updated_rows_union:
  "(\<And>r. r \<in># T \<Longrightarrow> p r \<Longrightarrow> \<not> q (F r)) \<Longrightarrow>
     updated_rows q F (updated_rows p F T) = updated_rows (\<lambda>r. p r \<or> q r) F T"
  by (auto simp: updated_rows_def multiset.map_comp intro!: image_mset_cong)

lemma filter_updated_rows:
  "(\<And>r. r \<in># T \<Longrightarrow> p r \<Longrightarrow> \<not> q r \<and> \<not> q (F r)) \<Longrightarrow>
     filter_mset q (updated_rows p F T) = filter_mset q T"
  by (induction T) (auto simp: updated_rows_def)

lemma size_filter_or:
  "(\<And>r. r \<in># T \<Longrightarrow> \<not> (p r \<and> q r)) \<Longrightarrow>
     size (filter_mset (\<lambda>r. p r \<or> q r) T) = size (filter_mset p T) + size (filter_mset q T)"
  by (induction T) auto

text \<open>The statements of the batches, on disjoint ids, are one statement on all of them.\<close>

lemma sum_batches_update:
  assumes "\<And>c db n db'. c \<in> set cs \<Longrightarrow> body c db = (Inr n, db') \<Longrightarrow> same_session E db' db \<and>
      table_rows E db' = updated_rows (\<lambda>r. event_id r \<in> set (ids c) \<and> P r) (F (tx_now E db)) (table_rows E db) \<and>
      n = int (size (filter_mset (\<lambda>r. event_id r \<in> set (ids c) \<and> P r) (table_rows E db)))"
    and "\<And>now r. event_id (F now r) = event_id r"
    and "distinct (concat (map ids cs))" and "sum_batches body cs db = (Inr n, db')"
  shows "same_session E db' db \<and>
    table_rows E db' = updated_rows (\<lambda>r. event_id r \<in> set (concat (map ids cs)) \<and> P r)
      (F (tx_now E db)) (table_rows E db) \<and>
    n = int (size (filter_mset (\<lambda>r. event_id r \<in> set (concat (map ids cs)) \<and> P r) (table_rows E db)))"
  using assms(1,3,4)
proof (induction cs arbitrary: db n)
  case Nil
  then show ?case by (simp add: same_session_def updated_rows_idle)
next
  case (Cons c cs)
  let ?p = "\<lambda>r. event_id r \<in> set (ids c) \<and> P r"
  let ?q = "\<lambda>r. event_id r \<in> set (concat (map ids cs)) \<and> P r"
  let ?F = "F (tx_now E db)"
  from Cons.prems(3) obtain k m db1 where c: "body c db = (Inr k, db1)"
    and cs: "sum_batches body cs db1 = (Inr m, db')" and n: "n = k + m"
    by (auto simp: res_simps)
  have one: "same_session E db1 db" "table_rows E db1 = updated_rows ?p ?F (table_rows E db)"
      "k = int (size (filter_mset ?p (table_rows E db)))"
    using Cons.prems(1) [of c] c by simp_all
  have rest: "same_session E db' db1 \<and> table_rows E db' = updated_rows ?q (F (tx_now E db1)) (table_rows E db1) \<and>
      m = int (size (filter_mset ?q (table_rows E db1)))"
    using Cons.prems by (intro Cons.IH [OF _ _ cs]) auto
  have apart: "\<not> ?q r \<and> \<not> ?q (?F r)" if "?p r" for r
    using that Cons.prems(2) assms(2) by auto
  have now: "tx_now E db1 = tx_now E db"
    using one(1) by (simp add: same_session_def)
  have or: "(\<lambda>r. event_id r \<in> set (concat (map ids (c # cs))) \<and> P r) = (\<lambda>r. ?p r \<or> ?q r)"
    by auto
  have tbl: "table_rows E db' = updated_rows (\<lambda>r. ?p r \<or> ?q r) ?F (table_rows E db)"
    using rest updated_rows_union [of "table_rows E db" ?p ?q ?F] apart unfolding now one(2) by simp
  have num: "n = int (size (filter_mset (\<lambda>r. ?p r \<or> ?q r) (table_rows E db)))"
    using rest one(3) filter_updated_rows [of "table_rows E db" ?p ?q ?F] apart
      size_filter_or [of "table_rows E db" ?p ?q] unfolding n one(2) by simp
  show ?case
    unfolding or using tbl num one(1) rest by (simp add: same_session_def)
qed

lemma completed_row_id [simp]: "event_id (completed_row now r) = event_id r"
  by (simp add: completed_row_def)

lemma check_total_Inr: "check_total E ids m db = (Inr n, db') \<Longrightarrow> n = m \<and> m = int (length ids) \<and> db' = db"
  by (auto simp: check_total_def res_simps split: if_splits)

text \<open>The data of all batches together, and of one.\<close>

lemma failure_data_ids: "failure_data R fs = Inr data \<Longrightarrow> map fst data = map fail_id fs"
proof (induction fs arbitrary: data)
  case (Cons f fs)
  then show ?case by (auto simp: failure_data_def bindr_Inr_iff)
qed (simp add: failure_data_def)

lemma failure_data_set:
  "failure_data R fs = Inr data \<Longrightarrow> x \<in> set data \<longleftrightarrow>
     (\<exists>f\<in>set fs. \<exists>err. repo_truncate_error R (fail_error f) = Inr err \<and> x = (fail_id f, err, fail_retry_at f))"
proof (induction fs arbitrary: data)
  case (Cons f fs)
  then obtain e d where "repo_truncate_error R (fail_error f) = Inr e" "failure_data R fs = Inr d"
    "data = (fail_id f, e, fail_retry_at f) # d"
    by (auto simp: failure_data_def bindr_Inr_iff)
  with Cons.IH show ?case by auto
qed (simp add: failure_data_def)

lemma failure_data_append:
  "failure_data R xs = Inr d \<Longrightarrow> failure_data R ys = Inr e \<Longrightarrow> failure_data R (xs @ ys) = Inr (d @ e)"
proof (induction xs arbitrary: d)
  case (Cons x xs)
  then show ?case by (auto simp: failure_data_def bindr_Inr_iff)
qed (simp add: failure_data_def)

lemma fail_batches_data:
  "sum_batches (fail_batch E R w c) cs db = (Inr n, db') \<Longrightarrow> \<exists>data. failure_data R (concat cs) = Inr data"
proof (induction cs arbitrary: db n)
  case (Cons b cs)
  then obtain k m db1 where "fail_batch E R w c b db = (Inr k, db1)"
    and "sum_batches (fail_batch E R w c) cs db1 = (Inr m, db')"
    by (auto simp: res_simps)
  moreover have "\<exists>d. failure_data R b = Inr d"
    using calculation(1) by (auto simp: fail_batch_def res_simps)
  ultimately obtain d e where "failure_data R b = Inr d" "failure_data R (concat cs) = Inr e"
    using Cons.IH by blast
  then show ?case
    using failure_data_append by fastforce
qed (simp add: failure_data_def)

lemma failure_data_part:
  assumes "b \<in> set cs" and "failure_data R b = Inr d" and "failure_data R (concat cs) = Inr data"
    and "distinct (map fail_id (concat cs))" and "i \<in> set (map fail_id b)"
  shows "map_of d i = map_of data i"
proof -
  have "set d \<subseteq> set data"
    using failure_data_set [OF assms(2)] failure_data_set [OF assms(3)] assms(1) by fastforce
  moreover have "i \<in> fst ` set d"
    using failure_data_ids [OF assms(2)] assms(5) by (metis list.set_map)
  then obtain v where v: "map_of d i = Some v"
    by (metis map_of_eq_None_iff not_Some_eq)
  then have "(i, v) \<in> set d"
    by (rule map_of_SomeD)
  moreover have "distinct (map fst data)"
    using failure_data_ids [OF assms(3)] assms(4) by simp
  ultimately have "map_of data i = Some v"
    by (intro map_of_is_SomeI) blast+
  with v show ?thesis by simp
qed

context sql_engine
begin

lemma update_count:
  "sql_update E p f db = (Inr rs, db') \<Longrightarrow> same_session E db' db \<and>
     table_rows E db' = updated_rows p f (table_rows E db) \<and>
     int (length rs) = int (size (filter_mset p (table_rows E db)))"
  using update_law [of p f db rs db'] by (metis size_image_mset size_mset)

lemma complete_batch_law:
  "complete_batch E w c db = (Inr n, db') \<Longrightarrow> same_session E db' db \<and>
     table_rows E db' = updated_rows (\<lambda>r. event_id r \<in> set c \<and> held_by w r)
       (completed_row (tx_now E db)) (table_rows E db) \<and>
     n = int (size (filter_mset (\<lambda>r. event_id r \<in> set c \<and> held_by w r) (table_rows E db)))"
  unfolding complete_batch_def by (auto simp: res_simps dest!: update_count)

lemma bulk_completed_outcome:
  assumes "bulk_mark_completed E R ids w db = (Inr n, db')" and "unique_ids (table_rows E db)"
    and "1 \<le> repo_batch_size R"
  shows "n = int (length ids) \<and> (\<forall>i\<in>set ids. \<exists>r\<in>#table_rows E db. event_id r = i \<and> held_by w r) \<and>
    table_rows E db' = updated_rows (\<lambda>r. event_id r \<in> set ids) (completed_row (tx_now E db)) (table_rows E db)"
proof (cases "ids = []")
  case True
  with assms(1) show ?thesis by (simp add: bulk_mark_completed_def updated_rows_idle)
next
  case False
  let ?cs = "chunks (nat (repo_batch_size R)) (sort ids)"
  have d: "distinct ids" and run: "sum_batches (complete_batch E w) ?cs db = (Inr n, db')"
    and n: "n = int (length ids)"
    using assms(1) False
    by (auto simp: bulk_mark_completed_def res_simps split: if_splits dest!: check_total_Inr)
  have cat: "concat ?cs = sort ids"
    using assms(3) by (intro concat_chunks) simp
  have all: "table_rows E db' = updated_rows (\<lambda>r. event_id r \<in> set ids \<and> held_by w r)
        (completed_row (tx_now E db)) (table_rows E db) \<and>
      n = int (size (filter_mset (\<lambda>r. event_id r \<in> set ids \<and> held_by w r) (table_rows E db)))"
    using sum_batches_update [where ids = "\<lambda>c. c" and P = "held_by w" and F = completed_row,
        OF complete_batch_law completed_row_id _ run]
    unfolding map_ident cat using d by simp
  then have found: "\<exists>r\<in>#table_rows E db. event_id r = i \<and> held_by w r" if "i \<in> set ids" for i
    using all_ids_found [OF assms(2) d _ that] n by simp
  have "table_rows E db' = updated_rows (\<lambda>r. event_id r \<in> set ids) (completed_row (tx_now E db)) (table_rows E db)"
    unfolding all [THEN conjunct1]
  proof (rule updated_rows_same)
    fix r
    assume r: "r \<in># table_rows E db"
    then show "(event_id r \<in> set ids \<and> held_by w r) = (event_id r \<in> set ids)"
      using found unique_same [OF assms(2) r] by metis
  qed simp
  with n found show ?thesis by blast
qed

lemma fail_batch_law:
  assumes "fail_batch E R w c batch db = (Inr n, db')"
  shows "\<exists>data. failure_data R batch = Inr data \<and> same_session E db' db \<and>
     table_rows E db' = updated_rows (\<lambda>r. event_id r \<in> set (map fail_id batch) \<and> status r = PENDING \<and>
       locked_by r = Some w) (join_failure data c) (table_rows E db) \<and>
     n = int (size (filter_mset (\<lambda>r. event_id r \<in> set (map fail_id batch) \<and> status r = PENDING \<and>
       locked_by r = Some w) (table_rows E db)))"
proof -
  from assms obtain data where data: "failure_data R batch = Inr data"
    by (auto simp: fail_batch_def res_simps)
  have ids: "fst ` set data = set (map fail_id batch)"
    using failure_data_ids [OF data] by (metis list.set_map)
  show ?thesis
    using assms data unfolding fail_batch_def ids [symmetric]
    by (auto simp: res_simps dest!: update_count)
qed

lemma bulk_failed_outcome:
  assumes "bulk_mark_failed E R fs w c db = (Inr n, db')" and "unique_ids (table_rows E db)"
    and "1 \<le> repo_batch_size R"
  shows "n = int (length fs) \<and>
    (\<forall>f\<in>set fs. \<exists>r\<in>#table_rows E db. event_id r = fail_id f \<and> status r = PENDING \<and> locked_by r = Some w) \<and>
    (\<exists>data. failure_data R (sort_key fail_id fs) = Inr data \<and>
      table_rows E db' = updated_rows (\<lambda>r. event_id r \<in> fail_id ` set fs) (join_failure data c) (table_rows E db))"
proof (cases "fs = []")
  case True
  with assms(1) show ?thesis by (simp add: bulk_mark_failed_def updated_rows_idle failure_data_def)
next
  case False
  let ?fs = "sort_key fail_id fs"
  let ?cs = "chunks (nat (repo_batch_size R)) ?fs"
  let ?P = "\<lambda>r. status r = PENDING \<and> locked_by r = Some w"
  have d: "distinct (map fail_id fs)" and run: "sum_batches (fail_batch E R w c) ?cs db = (Inr n, db')"
    and n: "n = int (length fs)"
    using assms(1) False
    by (auto simp: bulk_mark_failed_def res_simps split: if_splits dest!: check_total_Inr)
  have cat: "concat ?cs = ?fs"
    using assms(3) by (intro concat_chunks) simp
  have d': "distinct (map fail_id ?fs)"
    using d by (metis distinct_map distinct_sort set_sort)
  obtain data where data: "failure_data R ?fs = Inr data"
    using fail_batches_data [OF run] cat by auto
  have law: "same_session E db2 db1 \<and>
      table_rows E db2 = updated_rows (\<lambda>r. event_id r \<in> set (map fail_id b) \<and> ?P r)
        (join_failure data c) (table_rows E db1) \<and>
      m = int (size (filter_mset (\<lambda>r. event_id r \<in> set (map fail_id b) \<and> ?P r) (table_rows E db1)))"
    if b: "b \<in> set ?cs" and step: "fail_batch E R w c b db1 = (Inr m, db2)" for b db1 m db2
  proof -
    from fail_batch_law [OF step] obtain e where e: "failure_data R b = Inr e"
      and rest: "same_session E db2 db1" "table_rows E db2 = updated_rows
        (\<lambda>r. event_id r \<in> set (map fail_id b) \<and> ?P r) (join_failure e c) (table_rows E db1)"
        "m = int (size (filter_mset (\<lambda>r. event_id r \<in> set (map fail_id b) \<and> ?P r) (table_rows E db1)))"
      by blast
    have "updated_rows (\<lambda>r. event_id r \<in> set (map fail_id b) \<and> ?P r) (join_failure e c) (table_rows E db1) =
        updated_rows (\<lambda>r. event_id r \<in> set (map fail_id b) \<and> ?P r) (join_failure data c) (table_rows E db1)"
      using failure_data_part [OF b e] data d' unfolding cat
      by (intro updated_rows_same) (simp_all add: join_failure_def)
    with rest show ?thesis by simp
  qed
  have id: "event_id (join_failure data c r) = event_id r" for r
    by (simp add: join_failure_def split: option.splits)
  have ids: "concat (map (map fail_id) ?cs) = map fail_id ?fs"
    by (simp only: map_concat [symmetric] cat)
  have all: "table_rows E db' = updated_rows (\<lambda>r. event_id r \<in> set (map fail_id ?fs) \<and> ?P r)
        (join_failure data c) (table_rows E db) \<and>
      n = int (size (filter_mset (\<lambda>r. event_id r \<in> set (map fail_id ?fs) \<and> ?P r) (table_rows E db)))"
    using sum_batches_update [where ids = "map fail_id" and P = ?P and F = "\<lambda>_. join_failure data c",
        OF law id _ run] d' unfolding ids by blast
  then have found: "\<exists>r\<in>#table_rows E db. event_id r = i \<and> ?P r" if "i \<in> set (map fail_id ?fs)" for i
    using all_ids_found [OF assms(2) d' _ that, of ?P] n by simp
  have "table_rows E db' =
      updated_rows (\<lambda>r. event_id r \<in> fail_id ` set fs) (join_failure data c) (table_rows E db)"
    unfolding all [THEN conjunct1]
  proof (rule updated_rows_same)
    fix r
    assume r: "r \<in># table_rows E db"
    show "(event_id r \<in> set (map fail_id ?fs) \<and> ?P r) = (event_id r \<in> fail_id ` set fs)"
      using found [of "event_id r"] unique_same [OF assms(2) r] by auto
  qed simp
  with n found data show ?thesis by auto
qed

end

text \<open>C26. Completing in bulk is completing one by one: when \<open>bulk_mark_completed\<close> returns, it returns the
  number of ids, each of them was pending and held by the worker, and the table is the one with
  exactly these rows completed, whatever the batch size cut them into.\<close>

theorem bulk_complete_all:
  assumes "sql_engine E" and "unique_ids (table_rows E db)"
    and "PostgresOutboxRepository_init part ii im bs em suffix skew = Inr R"
    and "bulk_mark_completed E R ids w db = (Inr n, db')"
  shows "n = int (length ids) \<and>
    (\<forall>i\<in>set ids. \<exists>r\<in>#table_rows E db. event_id r = i \<and> status r = PENDING \<and> locked_by r = Some w) \<and>
    table_rows E db' = updated_rows (\<lambda>r. event_id r \<in> set ids)
      (\<lambda>r. r\<lparr>status := COMPLETED, completed_at := Some (tx_now E db), locked_at := None, locked_by := None\<rparr>)
      (table_rows E db)"
proof -
  have "1 \<le> repo_batch_size R"
    using assms(3) by (auto simp: PostgresOutboxRepository_init_def PostgresEventRepository_init_def
        res_simps split: if_splits)
  from sql_engine.bulk_completed_outcome [OF assms(1,4,2) this] show ?thesis
    unfolding held_by_def completed_row_def [abs_def] by blast
qed

definition sample_held :: "outbox_event listdb" where
  "sample_held = \<lparr>db_rows = [locked_sample, locked_sample\<lparr>event_id := UUID 8\<rparr>], db_now = 9, db_held = {}\<rparr>"

lemma sample_held_unique: "unique_ids (table_rows list_engine sample_held)"
  by (simp add: sample_held_def list_engine_def unique_ids_def locked_sample_def sample_event_def)

lemma sample_bulk:
  "bulk_mark_completed list_engine sample_repository [UUID 8, UUID 7] (lit ''w'') sample_held =
     (Inr 2, \<lparr>db_rows = map (completed_row 9) (db_rows sample_held), db_now = 9, db_held = {}\<rparr>)"
  by (simp add: bulk_mark_completed_def sample_held_def sample_repository_def chunks.simps
      complete_batch_def andthen_def list_engine_def list_update_def held_by_def locked_sample_def
      sample_event_def less_eq_uuid_def check_total_def completed_row_def)

theorem bulk_complete_all_witness:
  "\<exists>r\<in>set (db_rows sample_held). event_id r = UUID 8 \<and> locked_by r = Some (lit ''w'')"
proof -
  have "\<forall>i\<in>set [UUID 8, UUID 7]. \<exists>r\<in>#table_rows list_engine sample_held. event_id r = i \<and>
      status r = PENDING \<and> locked_by r = Some (lit ''w'')"
    using bulk_complete_all [OF list_sql.sql_engine_axioms sample_held_unique sample_repository_init
        sample_bulk] by blast
  then show ?thesis
    by (auto simp: list_engine_def)
qed

end
