(* ===== verification/Fetching.thy ===== *)
theory Fetching
  imports RepoProps
begin

text \<open>
  What \<open>fetch_and_lock_pending\<close> hands out: rows that are due and free, each locked for the caller, and
  of each \<open>(topic, partition_key)\<close> at most the head; and what makes it refuse a whole batch.
\<close>

section \<open>The rows a statement picks by id\<close>

lemma count_le_1: "unique_ids T \<Longrightarrow> count T r \<le> 1"
proof -
  assume "unique_ids T"
  moreover have "count T r \<le> size (filter_mset (\<lambda>x. event_id x = event_id r) T)"
    using count_le_size [of "filter_mset (\<lambda>x. event_id x = event_id r) T" r] by simp
  ultimately show ?thesis
    unfolding unique_ids_size by (meson order_trans)
qed

lemma selects_mset_tbl: "selects q held T chosen \<Longrightarrow> mset chosen \<subseteq># T"
  using selects_mset [of q held T chosen] multiset_filter_subset
  unfolding candidates_def by (metis subset_mset.order_trans)

lemma chosen_mset:
  assumes "unique_ids T" and "selects q held T chosen"
  shows "filter_mset (\<lambda>r. event_id r \<in> event_id ` set chosen) T = mset chosen"
proof (rule multiset_eqI)
  fix r
  have sub: "count (mset chosen) r \<le> count T r"
    using selects_mset_tbl [OF assms(2)] by (rule mset_subset_eq_count)
  show "count (filter_mset (\<lambda>r. event_id r \<in> event_id ` set chosen) T) r = count (mset chosen) r"
  proof (cases "r \<in> set chosen")
    case True
    then have "1 \<le> count (mset chosen) r"
      by (metis count_greater_eq_one_iff set_mset_mset)
    then have "count (mset chosen) r = count T r"
      using sub count_le_1 [OF assms(1), of r] by linarith
    with True show ?thesis by simp
  next
    case False
    then have "\<not> (r \<in># T \<and> event_id r \<in> event_id ` set chosen)"
      using chosen_row [OF assms] by blast
    moreover have "count (mset chosen) r = 0"
      using False by (simp add: count_eq_zero_iff)
    ultimately show ?thesis
      by (auto simp: not_in_iff)
  qed
qed

lemma chosen_distinct:
  assumes "unique_ids T" and "selects q held T chosen"
  shows "distinct (map event_id chosen)"
proof -
  have "count (mset chosen) r \<le> 1" for r
    using mset_subset_eq_count [OF selects_mset_tbl [OF assms(2)], of r] count_le_1 [OF assms(1), of r]
    by linarith
  then have "distinct chosen"
    by (metis distinct_count_atmost_1 count_eq_zero_iff le_antisym less_one not_le set_mset_mset
        count_greater_eq_one_iff)
  moreover have "inj_on event_id (set chosen)"
    using unique_same [OF assms(1)] selects_where [OF assms(2)] by (meson inj_onI)
  ultimately show ?thesis
    by (simp add: distinct_map)
qed

section \<open>Fetching\<close>

definition locked_row :: "instant \<Rightarrow> pystr \<Rightarrow> 'x base_event_scheme \<Rightarrow> 'x base_event_scheme" where
  "locked_row now w r = r\<lparr>locked_at := Some now, locked_by := Some w\<rparr>"

lemma locked_row_id [simp]: "event_id (locked_row now w r) = event_id r"
  by (simp add: locked_row_def)

context sql_engine
begin

lemma fetch_outcome:
  assumes "fetch_and_lock_pending E L R limit w ttl fs db = (Inr es, db')"
    and "unique_ids (table_rows E db)"
  shows "\<exists>wanted chosen rows. 1 \<le> limit \<and> apply_filters R fs = Inr wanted \<and>
    selects (pending_query R ttl wanted (tx_now E db) limit) (held_elsewhere E db) (table_rows E db) chosen \<and>
    mset rows = mset (map (locked_row (tx_now E db) (strip w)) chosen) \<and>
    list_all2 (\<lambda>r e. to_entity L R r = Inr e) rows es \<and>
    table_rows E db' = updated_rows (\<lambda>r. event_id r \<in> event_id ` set chosen)
      (locked_row (tx_now E db) (strip w)) (table_rows E db)"
proof -
  have "1 \<le> limit" and ttl: "pred_option timedelta_ok ttl"
    using assms(1) by (auto simp: fetch_and_lock_pending_def res_simps split: if_splits)
  obtain wanted where wanted: "apply_filters R fs = Inr wanted"
    using assms(1) by (auto simp: fetch_and_lock_pending_def res_simps split: if_splits)
  let ?q = "pending_query R ttl wanted (tx_now E db) limit"
  let ?f = "locked_row (tx_now E db) (strip w)"
  obtain rows where upd: "sql_update_from E ?q ?f db = (Inr rows, db')"
    and es: "map_res (to_entity L R) rows = Inr es"
    using assms(1) wanted
    by (auto simp: fetch_and_lock_pending_def res_simps locked_row_def [abs_def]
        split: if_splits dest!: normalize_worker_id_strip)
  from update_from_law [OF upd] obtain chosen
    where sel: "selects ?q (held_elsewhere E db) (table_rows E db) chosen"
      and tbl: "table_rows E db' = updated_rows (\<lambda>r. event_id r \<in> event_id ` set chosen) ?f (table_rows E db)"
      and rows: "mset rows = image_mset ?f
        (filter_mset (\<lambda>r. event_id r \<in> event_id ` set chosen) (table_rows E db))"
    by blast
  from rows have "mset rows = mset (map ?f chosen)"
    unfolding chosen_mset [OF assms(2) sel] by simp
  with \<open>1 \<le> limit\<close> wanted sel tbl es show ?thesis
    unfolding map_res_Inr_iff by blast
qed

lemma fetch_locks:
  assumes run: "fetch_and_lock_pending E L R limit w ttl fs db = (Inr es, db')"
    and u: "unique_ids (table_rows E db)"
    and same: "\<And>r e. to_entity L R r = Inr e \<Longrightarrow> same_state e r"
  shows "int (length es) \<le> limit \<and> distinct (map event_id es) \<and>
    table_rows E db' = updated_rows (\<lambda>r. event_id r \<in> event_id ` set es)
      (locked_row (tx_now E db) (strip w)) (table_rows E db) \<and>
    (\<exists>wanted. \<forall>e\<in>set es. \<exists>r\<in>#table_rows E db. event_id r = event_id e \<and>
      fetchable R ttl wanted (tx_now E db) (set_mset (table_rows E db)) r \<and>
      same_state e (locked_row (tx_now E db) (strip w) r))"
proof -
  let ?f = "locked_row (tx_now E db) (strip w)"
  obtain wanted chosen rows where l: "1 \<le> limit"
    and sel: "selects (pending_query R ttl wanted (tx_now E db) limit) (held_elsewhere E db)
      (table_rows E db) chosen"
    and rows: "mset rows = mset (map ?f chosen)"
    and es: "list_all2 (\<lambda>r e. to_entity L R r = Inr e) rows es"
    and tbl: "table_rows E db' =
      updated_rows (\<lambda>r. event_id r \<in> event_id ` set chosen) ?f (table_rows E db)"
    using fetch_outcome [OF run u] by blast
  have st: "list_all2 (\<lambda>r e. same_state e r) rows es"
    using es by (rule list_all2_mono) (rule same)
  then have ids: "map event_id es = map event_id rows"
    by (induction rule: list_all2_induct) (auto simp: same_state_def)
  have perm: "mset (map event_id rows) = mset (map event_id chosen)"
    using arg_cong [OF rows, of "image_mset event_id"] by (simp add: multiset.map_comp comp_def)
  have len: "length es = length chosen"
    using perm list_all2_lengthD [OF st] by (metis length_map size_mset)
  have "distinct (map event_id es)"
    unfolding ids using mset_eq_imp_distinct_iff [OF perm] chosen_distinct [OF u sel] by blast
  moreover have set_ids: "event_id ` set es = event_id ` set chosen"
    using arg_cong [OF ids, of set] mset_eq_setD [OF perm] by simp
  moreover have "int (length es) \<le> limit"
    using selects_length [OF sel, of limit] l unfolding len by (simp add: pending_query_def)
  moreover have "\<exists>r\<in>#table_rows E db. event_id r = event_id e \<and>
      fetchable R ttl wanted (tx_now E db) (set_mset (table_rows E db)) r \<and> same_state e (?f r)"
    if e: "e \<in> set es" for e
  proof -
    obtain row where "row \<in> set rows" and se: "same_state e row"
      using st e by (metis in_set_conv_nth list_all2_conv_all_nth)
    moreover have "set rows = ?f ` set chosen"
      using mset_eq_setD [OF rows] by simp
    ultimately obtain r where "r \<in> set chosen" "row = ?f r"
      by blast
    then show ?thesis
      using selects_where [OF sel] se by (intro bexI [of _ r]) (auto simp: pending_query_def same_state_def)
  qed
  ultimately show ?thesis
    unfolding tbl set_ids by blast
qed

lemma fetch_not_empty:
  assumes run: "fetch_and_lock_pending E L R limit w ttl fs db = (Inr es, db')"
    and u: "unique_ids (table_rows E db)" and "apply_filters R fs = Inr wanted"
    and "r \<in># table_rows E db" and "event_id r \<notin> held_elsewhere E db"
    and "fetchable R ttl wanted (tx_now E db) (set_mset (table_rows E db)) r"
  shows "es \<noteq> []"
proof -
  let ?q = "pending_query R ttl wanted (tx_now E db) limit"
  obtain chosen rows where "1 \<le> limit" and sel: "selects ?q (held_elsewhere E db) (table_rows E db) chosen"
    and rows: "mset rows = mset (map (locked_row (tx_now E db) (strip w)) chosen)"
    and es: "list_all2 (\<lambda>r e. to_entity L R r = Inr e) rows es"
    using fetch_outcome [OF run u] assms(3) by auto
  have "r \<in># candidates ?q (held_elsewhere E db) (table_rows E db)"
    using assms(4-6) by (simp add: candidates_def pending_query_def)
  then have "chosen \<noteq> []"
    using sel \<open>1 \<le> limit\<close> by (auto simp: selects_def limited_def pending_query_def)
  then show ?thesis
    using rows list_all2_lengthD [OF es] by auto
qed

end

section \<open>Heads of lines\<close>

lemma fetched_is_head:
  assumes "repo_ordering_key_columns R \<noteq> []" and "fetchable R ttl wanted now T r"
    and "b \<in> T" and "same_line R b r" and "status b = PENDING" and "written_before b r"
  shows "\<not> holds_line now b"
  using assms by (auto simp: fetchable_def earlier_event_in_line_def)

lemma one_per_line:
  assumes "repo_ordering_key_columns R \<noteq> []" and "a \<in> T" and "b \<in> T"
    and "fetchable R ttl wanted now T a" and "fetchable R ttl wanted now T b"
    and "same_line R a b" and "same_line R b a"
  shows "event_id a = event_id b"
proof (rule ccontr)
  assume "event_id a \<noteq> event_id b"
  then have "written_before a b \<or> written_before b a"
    by (auto simp: written_before_def)
  moreover have "holds_line now a" "holds_line now b" "status a = PENDING" "status b = PENDING"
    using assms(4,5) by (simp_all add: fetchable_def holds_line_def)
  ultimately show False
    using fetched_is_head assms by blast
qed

lemma outbox_init:
  assumes "PostgresOutboxRepository_init part ii im bs em suffix skew = Inr R"
  shows "repo_columns R = outbox_column \<and> repo_ordering_key_columns R = [''topic'', ''partition_key''] \<and>
    repo_validate R = OutboxEvent_validate \<and> repo_inbox_dedup_columns R = None \<and>
    1 \<le> repo_batch_size R \<and> 1 \<le> repo_error_max_length R \<and> repo_truncation_suffix R = suffix \<and>
    repo_scheduled_at_skew_seconds R = skew"
  using assms
  by (auto simp: PostgresOutboxRepository_init_def PostgresEventRepository_init_def res_simps
      split: if_splits)

lemma outbox_columns [simp]:
  "outbox_column ''topic'' = Some (\<lambda>r. Some (CText (topic r)))"
  "outbox_column ''partition_key'' = Some (\<lambda>r. Some (CText (partition_key r)))"
  "outbox_column ''idempotency_key'' = Some (\<lambda>r. map_option CText (idempotency_key r))"
  "outbox_column ''id'' = Some (\<lambda>r. Some (CUuid (event_id r)))"
  by (simp_all add: outbox_column_def base_column_def)

lemma outbox_same_line:
  assumes "PostgresOutboxRepository_init part ii im bs em suffix skew = Inr R"
  shows "same_line R a b \<longleftrightarrow> topic a = topic b \<and> partition_key a = partition_key b"
  using outbox_init [OF assms] by (simp add: same_line_def)

lemma to_entity_same:
  assumes "repo_validate R = OutboxEvent_validate" and "to_entity L R r = Inr e"
  shows "same_state e r"
  using assms outbox_class.class_same by (simp add: to_entity_def)

text \<open>C7. What a fetch hands out: at most \<open>limit\<close> different events; each is a row that was pending, due,
  had attempts left and was free or held longer than the \<open>ttl\<close>; exactly these rows are now locked,
  for this worker and at the transaction's time, and every other row is as it was.\<close>

theorem fetch_locks_what_it_returns:
  assumes "sql_engine E" and "unique_ids (table_rows E db)"
    and "PostgresOutboxRepository_init part ii im bs em suffix skew = Inr R"
    and "fetch_and_lock_pending E L R limit w ttl fs db = (Inr es, db')"
  shows "int (length es) \<le> limit \<and> distinct (map event_id es) \<and>
    table_rows E db' = updated_rows (\<lambda>r. event_id r \<in> event_id ` set es)
      (\<lambda>r. r\<lparr>locked_at := Some (tx_now E db), locked_by := Some (strip w)\<rparr>) (table_rows E db) \<and>
    (\<forall>e\<in>set es. \<exists>r\<in>#table_rows E db. event_id r = event_id e \<and> status r = PENDING \<and>
      lock_filter ttl (tx_now E db) r \<and> scheduled_at r \<le> tx_now E db \<and>
      attempts_made r < max_attempts r \<and> locked_at e = Some (tx_now E db) \<and>
      same_state e (r\<lparr>locked_at := Some (tx_now E db)\<rparr>))"
  using sql_engine.fetch_locks [OF assms(1,4,2)] to_entity_same outbox_init [OF assms(3)]
  unfolding locked_row_def [abs_def] fetchable_def same_state_def by (fastforce split: if_splits)

text \<open>C8. Order per broker key: of the rows of one \<open>(topic, partition_key)\<close> a fetch hands out at most
  one, and no row of that key written before it is pending and due, waiting for a retry, or held by
  a worker.\<close>

theorem fetch_keeps_line_order:
  assumes "sql_engine E" and "unique_ids (table_rows E db)"
    and "PostgresOutboxRepository_init part ii im bs em suffix skew = Inr R"
    and "fetch_and_lock_pending E L R limit w ttl fs db = (Inr es, db')"
    and "a \<in># table_rows E db" and "event_id a \<in> event_id ` set es"
    and "b \<in># table_rows E db" and "topic b = topic a" and "partition_key b = partition_key a"
    and "b \<noteq> a"
  shows "event_id b \<notin> event_id ` set es \<and>
    (status b = PENDING \<and> written_before b a \<longrightarrow>
       tx_now E db < scheduled_at b \<and> last_error b = None \<and> locked_at b = None)"
proof -
  note R = outbox_init [OF assms(3)]
  obtain wanted where got: "\<forall>e\<in>set es. \<exists>r\<in>#table_rows E db. event_id r = event_id e \<and>
      fetchable R ttl wanted (tx_now E db) (set_mset (table_rows E db)) r"
    using sql_engine.fetch_locks [OF assms(1,4,2)] to_entity_same R by blast
  have fetched: "fetchable R ttl wanted (tx_now E db) (set_mset (table_rows E db)) r"
    if r: "r \<in># table_rows E db" "event_id r \<in> event_id ` set es" for r
  proof -
    from r(2) got obtain r' where "r' \<in># table_rows E db" "event_id r' = event_id r"
      "fetchable R ttl wanted (tx_now E db) (set_mset (table_rows E db)) r'"
      by (metis imageE)
    with unique_same [OF assms(2) _ r(1)] show ?thesis by auto
  qed
  have "event_id b \<notin> event_id ` set es"
  proof
    assume "event_id b \<in> event_id ` set es"
    then have "event_id a = event_id b"
      using fetched assms(5-9) R by (intro one_per_line) (auto simp: outbox_same_line [OF assms(3)])
    with unique_same [OF assms(2,5,7)] assms(10) show False by simp
  qed
  moreover have "\<not> holds_line (tx_now E db) b" if "status b = PENDING" "written_before b a"
    using that assms(5-9) R fetched_is_head [OF _ fetched [OF assms(5,6)], of b]
    by (auto simp: outbox_same_line [OF assms(3)])
  ultimately show ?thesis
    by (auto simp: holds_line_def)
qed

section \<open>A concrete fetch\<close>

definition sample_next :: outbox_event where
  "sample_next = sample_event\<lparr>event_id := UUID 8, created_at := 1\<rparr>"

definition sample_db :: "outbox_event listdb" where
  "sample_db = \<lparr>db_rows = [sample_event, sample_next], db_now = 5, db_held = {}\<rparr>"

lemma sample_worker [simp]: "strip (lit ''w'') = lit ''w''"
  by (simp add: lit_def py_space_def)

lemma locked_sample_entity: "to_entity sample_libs sample_repository locked_sample = Inr locked_sample"
proof -
  have "valid_event outbox_extra sample_libs (entity_context sample_repository) locked_sample"
    using sample_event_valid
    by (simp add: valid_event_def fields_ok_def locked_sample_def sample_event_def outbox_extra_def
        invariant_defs validate_scheduled_at_def entity_context_def sample_repository_def limit_defs
        Let_def us_per_s_def payload_ok_def sample_payload_def lit_def field_ok_def py_space_def)
  then show ?thesis
    using outbox_class.validate_valid [OF sample_libs_roundtrip]
    by (simp add: to_entity_def sample_repository_def)
qed

lemma sample_columns [simp]:
  "repo_columns sample_repository = outbox_column"
  "repo_ordering_key_columns sample_repository = [''topic'', ''partition_key'']"
  by (simp_all add: sample_repository_def)

lemma sample_chosen:
  "list_chosen (pending_query sample_repository None (\<lambda>_. True) 5 10) sample_db = [sample_event]"
proof -
  have "earlier_event_in_line sample_repository 5 {sample_event, sample_next} sample_next"
    unfolding earlier_event_in_line_def same_line_def
    by (simp add: sample_next_def sample_event_def written_before_def holds_line_def)
  moreover have "\<not> earlier_event_in_line sample_repository 5 {sample_event, sample_next} sample_event"
    unfolding earlier_event_in_line_def
    by (simp add: sample_next_def sample_event_def written_before_def)
  ultimately show ?thesis
    by (simp add: list_chosen_def pending_query_def sample_db_def fetchable_def limited_def
        lock_filter_def sample_event_def sample_next_def)
qed

lemma sample_fetch:
  "fetch_and_lock_pending list_engine sample_libs sample_repository 10 (lit ''w'') None [] sample_db =
     (Inr [locked_sample], \<lparr>db_rows = [locked_sample, sample_next], db_now = 5, db_held = {}\<rparr>)"
proof -
  have "normalize_worker_id (lit ''w'') = Inr (lit ''w'')"
    by (simp add: normalize_worker_id_def lit_def py_space_def worker_char_def)
  moreover have "tx_now list_engine sample_db = 5"
    by (simp add: list_engine_def sample_db_def)
  moreover have "sql_update_from list_engine (pending_query sample_repository None (\<lambda>_. True) 5 10)
      (\<lambda>r. r\<lparr>locked_at := Some 5, locked_by := Some (lit ''w'')\<rparr>) sample_db =
      (Inr [locked_sample], \<lparr>db_rows = [locked_sample, sample_next], db_now = 5, db_held = {}\<rparr>)"
    using sample_chosen
    by (simp add: list_engine_def list_update_def sample_db_def locked_sample_def sample_next_def
        sample_event_def)
  ultimately show ?thesis
    by (simp add: fetch_and_lock_pending_def andthen_def locked_sample_entity)
qed

lemma sample_db_rows [simp]:
  "table_rows list_engine sample_db = {#sample_event, sample_next#}"
  "unique_ids (table_rows list_engine sample_db)"
  by (simp_all add: list_engine_def sample_db_def unique_ids_def sample_event_def sample_next_def)

theorem fetch_locks_what_it_returns_witness:
  "\<exists>r\<in>#{#sample_event, sample_next#}. event_id r = UUID 7 \<and> status r = PENDING"
proof -
  have "\<forall>e\<in>set [locked_sample]. \<exists>r\<in>#table_rows list_engine sample_db. event_id r = event_id e \<and>
      status r = PENDING"
    using fetch_locks_what_it_returns [OF list_sql.sql_engine_axioms sample_db_rows(2)
        sample_repository_init sample_fetch] by blast
  then show ?thesis
    by (simp add: locked_sample_def sample_event_def)
qed

theorem fetch_keeps_line_order_witness:
  "event_id sample_next \<notin> event_id ` set [locked_sample]"
proof -
  have "sample_event \<in># table_rows list_engine sample_db" "sample_next \<in># table_rows list_engine sample_db"
    and "event_id sample_event \<in> event_id ` set [locked_sample]" and "sample_next \<noteq> sample_event"
    by (simp_all add: locked_sample_def sample_next_def sample_event_def)
  moreover have "topic sample_next = topic sample_event" "partition_key sample_next = partition_key sample_event"
    by (simp_all add: sample_next_def)
  ultimately show ?thesis
    using fetch_keeps_line_order [OF list_sql.sql_engine_axioms sample_db_rows(2)
        sample_repository_init sample_fetch] by blast
qed

section \<open>Rows that cannot be read\<close>

text \<open>A schedule further from creation than the validator's default allows.\<close>

lemma far_schedule_unreadable:
  assumes "repo_validate R = OutboxEvent_validate"
    and "scheduled_at r - created_at r > DEFAULT_SCHEDULE_AT_MAX_FUTURE_SECONDS * us_per_s"
  shows "to_entity L R r \<noteq> Inr e"
proof
  assume "to_entity L R r = Inr e"
  then obtain f where "BaseEvent_fields L (entity_context R) r = Inr f"
    using assms(1) by (auto simp: to_entity_def OutboxEvent_validate_def res_simps)
  then have "\<exists>v. validate_scheduled_at (entity_context R) (created_at r) (scheduled_at r) = Inr v"
    unfolding BaseEvent_fields_def bindr_Inr_iff by blast
  then show False
    using assms(2) by (auto simp: validate_scheduled_at_def entity_context_def Let_def split: if_splits)
qed

text \<open>C39. A failed event created more than 365 days ago cannot be retried: once it is requeued, its new
  schedule is too far from its creation for the entity's validator, so it can be neither read nor
  fetched, and as long as it is among the rows a fetch picks, every fetch raises and hands out
  nothing, the other rows included.\<close>

theorem requeued_old_event_blocks_fetch:
  assumes "sql_engine E" and "unique_ids (table_rows E db)"
    and "PostgresOutboxRepository_init part ii im bs em suffix skew = Inr R"
    and "now - created_at old > 365 * 24 * 3600 * us_per_s" and "r = requeued_row now old"
    and "r \<in># table_rows E db" and "event_id r \<notin> held_elsewhere E db"
    and "apply_filters R fs = Inr wanted"
    and "fetchable R ttl wanted (tx_now E db) (set_mset (table_rows E db)) r"
    and "int (size (table_rows E db)) \<le> limit"
  shows "to_entity L R r \<noteq> Inr e \<and> fst (fetch_and_lock_pending E L R limit w ttl fs db) \<noteq> Inr es"
proof
  have bad: "to_entity L R r \<noteq> Inr e" for e
    using assms(4,5) outbox_init [OF assms(3)]
    by (intro far_schedule_unreadable)
      (auto simp: requeued_row_def DEFAULT_SCHEDULE_AT_MAX_FUTURE_SECONDS_def)
  then show "to_entity L R r \<noteq> Inr e" .
  show "fst (fetch_and_lock_pending E L R limit w ttl fs db) \<noteq> Inr es"
  proof
    let ?f = "locked_row (tx_now E db) (strip w)"
    assume "fst (fetch_and_lock_pending E L R limit w ttl fs db) = Inr es"
    then obtain db' where run: "fetch_and_lock_pending E L R limit w ttl fs db = (Inr es, db')"
      by (metis prod.collapse)
    obtain chosen rows where
        sel: "selects (pending_query R ttl wanted (tx_now E db) limit) (held_elsewhere E db)
          (table_rows E db) chosen"
      and rows: "mset rows = mset (map ?f chosen)"
      and es: "list_all2 (\<lambda>r e. to_entity L R r = Inr e) rows es"
      using sql_engine.fetch_outcome [OF assms(1) run assms(2)] assms(8) by auto
    have "candidates (pending_query R ttl wanted (tx_now E db) limit) (held_elsewhere E db)
        (table_rows E db) \<subseteq># table_rows E db"
      by (simp add: candidates_def)
    then have "int (size (candidates (pending_query R ttl wanted (tx_now E db) limit)
        (held_elsewhere E db) (table_rows E db))) \<le> limit"
      using assms(10) size_mset_mono by (meson of_nat_le_iff order_trans)
    then have "mset chosen = candidates (pending_query R ttl wanted (tx_now E db) limit)
        (held_elsewhere E db) (table_rows E db)"
      using sel by (auto simp: selects_def limited_def pending_query_def simp flip: size_mset)
    then have "r \<in> set chosen"
      using assms(6,7,9) by (simp flip: set_mset_mset add: candidates_def pending_query_def)
    then have "?f r \<in> set rows"
      using mset_eq_setD [OF rows] by simp
    then obtain e' where "to_entity L R (?f r) = Inr e'"
      using es by (auto simp: list_all2_conv_all_nth in_set_conv_nth)
    moreover have "to_entity L R (?f r) \<noteq> Inr e'"
      using assms(4,5) outbox_init [OF assms(3)]
      by (intro far_schedule_unreadable)
        (auto simp: requeued_row_def locked_row_def DEFAULT_SCHEDULE_AT_MAX_FUTURE_SECONDS_def)
    ultimately show False by blast
  qed
qed

theorem requeued_old_event_blocks_fetch_witness:
  "\<forall>es. fst (fetch_and_lock_pending list_engine sample_libs sample_repository 10 (lit ''w'') None []
     \<lparr>db_rows = [requeued_row (366 * 24 * 3600 * us_per_s) (sample_event\<lparr>status := FAILED, attempts_made := 2\<rparr>)],
      db_now = 366 * 24 * 3600 * us_per_s, db_held = {}\<rparr>) \<noteq> Inr es"
proof
  fix es
  let ?now = "366 * 24 * 3600 * us_per_s"
  let ?old = "sample_event\<lparr>status := FAILED, attempts_made := 2\<rparr>"
  let ?db = "\<lparr>db_rows = [requeued_row ?now ?old], db_now = ?now, db_held = {}\<rparr>"
  have rows: "table_rows list_engine ?db = {#requeued_row ?now ?old#}" "tx_now list_engine ?db = ?now"
      "held_elsewhere list_engine ?db = {}"
    by (simp_all add: list_engine_def)
  have "fetchable sample_repository None (\<lambda>_. True) ?now {requeued_row ?now ?old} (requeued_row ?now ?old)"
    by (simp add: fetchable_def requeued_row_def lock_filter_def sample_event_def earlier_event_in_line_def
        written_before_def)
  then show "fst (fetch_and_lock_pending list_engine sample_libs sample_repository 10 (lit ''w'') None [] ?db)
      \<noteq> Inr es"
    using requeued_old_event_blocks_fetch [OF list_sql.sql_engine_axioms _ sample_repository_init,
        of ?db ?now ?old "requeued_row ?now ?old" "[]" "\<lambda>_. True" None 10 sample_libs _ "lit ''w''" es]
    unfolding rows by (simp add: unique_ids_def sample_event_def us_per_s_def)
qed

end
