(* ===== verification/Refinement.thy ===== *)
theory Refinement
  imports Commits Fetching
begin

text \<open>
  The repository against the domain service: a row the SQL completes or fails is the event the domain
  service computes. Then the release of stale locks, which is complete and ends, what makes a bulk
  failure refuse everything, and idempotent creation.
\<close>

section \<open>The rows refine the domain's transitions\<close>

lemma failed_row_failed_update:
  assumes "c \<longrightarrow> attempts_made e < max_attempts e" and "\<not> c \<longrightarrow> attempts_made e \<noteq> max_attempts e"
    and "status e = PENDING"
  shows "failed_row tr nxt c e =
    (failed_update e tr c)\<lparr>scheduled_at := case nxt of None \<Rightarrow> scheduled_at e | Some t \<Rightarrow> t\<rparr>"
  using assms by (cases nxt) (auto simp: failed_row_def failed_update_def Let_def)

text \<open>C10. Refinement: for a valid event locked by the worker, the row that the repository's failure
  update writes is the event \<open>mark_event_failed\<close> of the domain service returns - attempts, status,
  retry time, error and lock - and the row its completion writes is the one \<open>mark_event_completed\<close>
  returns.\<close>

theorem repository_refines_domain:
  assumes "orjson_roundtrip L" and "valid_event outbox_extra L (validation_context svc) e"
    and "locked_at e \<noteq> None" and "locked_by e = Some (strip w)"
    and "truncate_error err (svc_last_error_max_length svc) (svc_truncation_suffix svc) = Inr tr"
    and "int (length tr) \<le> LAST_ERROR_MAX_LENGTH" and "c \<or> nxt \<noteq> None"
    and "\<forall>t. nxt = Some t \<longrightarrow> created_at e \<le> t \<and>
      t - created_at e \<le> svc_scheduled_at_max_future_seconds svc * us_per_s"
    and "created_at e \<le> now" and "scheduled_at e \<le> now"
  shows "mark_event_failed OutboxEvent_validate L svc e err w c (map_option (\<lambda>t. Aware t off) nxt) =
      Inr (failed_row tr nxt c e) \<and>
    mark_event_completed OutboxEvent_validate L svc e (Aware now off) w = Inr (completed_row now e)"
proof -
  have inv: "validate_invariants e"
    using assms(2) by (simp add: valid_event_def)
  have p: "status e = PENDING" and room: "attempts_made e < max_attempts e"
    using locked_is_pending [OF inv assms(3)] pending_retryable [OF inv] by auto
  show ?thesis
    using outbox_class.mark_event_failed_valid [OF assms(1-7)] assms(8)
      outbox_class.mark_event_completed_valid [OF assms(1-4,9,10)]
      failed_row_failed_update [of c e tr nxt] p room
    by (auto simp: completed_row_def)
qed

theorem repository_refines_domain_witness:
  "mark_event_failed OutboxEvent_validate sample_libs default_service locked_sample (lit ''x'') (lit ''w'')
     True None = Inr (failed_row (lit ''x'') None True locked_sample) \<and>
   mark_event_completed OutboxEvent_validate sample_libs default_service locked_sample (Aware 9 0) (lit ''w'') =
     Inr (completed_row 9 locked_sample)"
proof -
  have tr: "truncate_error (lit ''x'') (svc_last_error_max_length default_service)
      (svc_truncation_suffix default_service) = Inr (lit ''x'')"
    by (simp add: truncate_error_def default_service_def limit_defs lit_def py_space_def
        encode_text_ok surrogate_def encode1_def)
  have w: "strip (lit ''w'') = lit ''w''"
    by (simp add: lit_def py_space_def)
  have valid: "valid_event outbox_extra sample_libs (validation_context default_service) locked_sample"
    using sample_event_valid
    by (simp add: valid_event_def fields_ok_def locked_sample_def sample_event_def outbox_extra_def
        invariant_defs limit_defs lit_def field_ok_def py_space_def)
  show ?thesis
    using repository_refines_domain [OF sample_libs_roundtrip valid _ _ tr, of "lit ''w''" True None 9 0] w
    by (simp add: locked_sample_def sample_event_def lit_def limit_defs)
qed

section \<open>Errors that cannot be written\<close>

lemma failure_data_all:
  "failure_data R fs = Inr data \<Longrightarrow> f \<in> set fs \<Longrightarrow> \<exists>err. repo_truncate_error R (fail_error f) = Inr err"
  by (induction fs arbitrary: data) (auto simp: failure_data_def bindr_Inr_iff)

text \<open>C40. One failure whose message is blank - spaces only, as a handler's \<open>handler_retry\<close> or a
  \<open>TransientError\<close> may carry - makes \<open>bulk_mark_failed\<close> raise, whatever the other failures of the call
  are: none of the call's events gets its failure recorded by a call that returns.\<close>

theorem blank_error_blocks_bulk_failure:
  assumes "PostgresOutboxRepository_init part ii im bs em suffix skew = Inr R"
    and "f \<in> set fs" and "strip (fail_error f) = []"
  shows "fst (bulk_mark_failed E R fs w c db) \<noteq> Inr n"
proof
  have "1 \<le> repo_batch_size R"
    using assms(1) by (auto simp: PostgresOutboxRepository_init_def PostgresEventRepository_init_def
        res_simps split: if_splits)
  then have cat: "concat (chunks (nat (repo_batch_size R)) (sort_key fail_id fs)) = sort_key fail_id fs"
    by (intro concat_chunks) simp
  assume "fst (bulk_mark_failed E R fs w c db) = Inr n"
  then obtain db' where "bulk_mark_failed E R fs w c db = (Inr n, db')"
    by (metis prod.collapse)
  then obtain m db1 where "sum_batches (fail_batch E R w c)
      (chunks (nat (repo_batch_size R)) (sort_key fail_id fs)) db = (Inr m, db1)"
    using assms(2) by (auto simp: bulk_mark_failed_def res_simps split: if_splits)
  then obtain data where "failure_data R (sort_key fail_id fs) = Inr data"
    using fail_batches_data cat by metis
  then have "\<exists>err. repo_truncate_error R (fail_error f) = Inr err"
    using failure_data_all assms(2) by fastforce
  then show False
    using assms(3) by (auto simp: repo_truncate_error_def truncate_error_blank)
qed

theorem blank_error_blocks_bulk_failure_witness:
  "\<forall>n. fst (bulk_mark_failed list_engine sample_repository
     [\<lparr>fail_id = UUID 7, fail_error = lit ''x'', fail_retry_at = None\<rparr>,
      \<lparr>fail_id = UUID 8, fail_error = [32], fail_retry_at = None\<rparr>] (lit ''w'') True sample_held) \<noteq> Inr n"
proof
  fix n
  show "fst (bulk_mark_failed list_engine sample_repository
     [\<lparr>fail_id = UUID 7, fail_error = lit ''x'', fail_retry_at = None\<rparr>,
      \<lparr>fail_id = UUID 8, fail_error = [32], fail_retry_at = None\<rparr>] (lit ''w'') True sample_held) \<noteq> Inr n"
    by (rule blank_error_blocks_bulk_failure [OF sample_repository_init,
          of "\<lparr>fail_id = UUID 8, fail_error = [32], fail_retry_at = None\<rparr>"])
      (simp_all add: strip_def py_space_def)
qed

section \<open>Stale locks\<close>

text \<open>What a sweep may release: the stale rows no other transaction holds.\<close>

definition releasable :: "('db, 'x base_event_scheme) engine \<Rightarrow> int \<Rightarrow> 'db \<Rightarrow> 'x base_event_scheme \<Rightarrow> bool" where
  "releasable E seconds db r \<longleftrightarrow> stale_row (tx_now E db - seconds * us_per_s) r \<and>
     event_id r \<notin> held_elsewhere E db"

lemma releasable_unlocked: "\<not> releasable E seconds db (unlocked_row r)"
  by (simp add: releasable_def stale_row_def unlocked_row_def)

lemma filter_updated:
  "(\<And>r. p r \<Longrightarrow> \<not> q (F r)) \<Longrightarrow>
     filter_mset q (updated_rows p F T) = filter_mset (\<lambda>r. q r \<and> \<not> p r) T"
  by (induction T) (auto simp: updated_rows_def)

context sql_engine
begin

lemma stale_round:
  assumes "sql_update_from E (stale_query R (tx_now E db - seconds * us_per_s)) unlocked_row db = (Inr rs, db')"
    and "unique_ids (table_rows E db)" and "1 \<le> repo_batch_size R"
  shows "\<exists>chosen. same_session E db' db \<and> length rs = length chosen \<and>
    mset chosen \<subseteq># filter_mset (releasable E seconds db) (table_rows E db) \<and>
    table_rows E db' = updated_rows (\<lambda>r. r \<in> set chosen) unlocked_row (table_rows E db) \<and>
    int (length chosen) \<le> repo_batch_size R \<and>
    filter_mset (\<lambda>r. r \<in> set chosen) (table_rows E db) = mset chosen \<and>
    (int (length chosen) < repo_batch_size R \<longrightarrow>
      mset chosen = filter_mset (releasable E seconds db) (table_rows E db))"
proof -
  let ?q = "stale_query R (tx_now E db - seconds * us_per_s)"
  from update_from_law [OF assms(1)] obtain chosen where
      sel: "selects ?q (held_elsewhere E db) (table_rows E db) chosen" and ses: "same_session E db' db"
    and tbl: "table_rows E db' =
      updated_rows (\<lambda>r. event_id r \<in> event_id ` set chosen) unlocked_row (table_rows E db)"
    and rs: "mset rs = image_mset unlocked_row
      (filter_mset (\<lambda>r. event_id r \<in> event_id ` set chosen) (table_rows E db))"
    by blast
  have cand: "candidates ?q (held_elsewhere E db) (table_rows E db) =
      filter_mset (releasable E seconds db) (table_rows E db)"
    by (simp add: candidates_def stale_query_def releasable_def [abs_def])
  have "length rs = length chosen"
    using rs unfolding chosen_mset [OF assms(2) sel] by (metis size_image_mset size_mset)
  moreover have "mset chosen \<subseteq># filter_mset (releasable E seconds db) (table_rows E db)"
    using selects_mset [OF sel] unfolding cand .
  moreover have "table_rows E db' = updated_rows (\<lambda>r. r \<in> set chosen) unlocked_row (table_rows E db)"
    unfolding tbl by (rule updated_rows_same) (auto dest: chosen_row [OF assms(2) sel])
  moreover have "filter_mset (\<lambda>r. r \<in> set chosen) (table_rows E db) = mset chosen"
    unfolding chosen_mset [OF assms(2) sel, symmetric]
    by (rule filter_mset_cong [OF refl]) (auto dest: chosen_row [OF assms(2) sel])
  moreover have lim: "q_limit ?q = Some (repo_batch_size R)"
    by (simp add: stale_query_def)
  moreover have "int (length chosen) \<le> repo_batch_size R"
    using selects_length [OF sel lim] assms(3) by linarith
  moreover have "mset chosen = filter_mset (releasable E seconds db) (table_rows E db)"
    if "int (length chosen) < repo_batch_size R"
    using selects_short [OF sel lim] that unfolding cand by simp
  ultimately show ?thesis
    using ses by blast
qed

lemma stale_loop:
  assumes "release_stale_loop E R seconds k m db = (Inr n, db')" and "unique_ids (table_rows E db)"
    and "1 \<le> repo_batch_size R"
    and "int (size (filter_mset (releasable E seconds db) (table_rows E db))) < int k * repo_batch_size R"
  shows "table_rows E db' = updated_rows (releasable E seconds db) unlocked_row (table_rows E db) \<and>
    n = m + int (size (filter_mset (releasable E seconds db) (table_rows E db)))"
  using assms
proof (induction k arbitrary: m db)
  case (Suc k)
  let ?rel = "releasable E seconds db"
  obtain rs db1 where round: "sql_update_from E (stale_query R (tx_now E db - seconds * us_per_s))
      unlocked_row db = (Inr rs, db1)"
    using Suc.prems(1) by (auto simp: res_simps split: if_splits)
  obtain chosen where ses: "same_session E db1 db" and len: "length rs = length chosen"
    and sub: "mset chosen \<subseteq># filter_mset ?rel (table_rows E db)"
    and tbl: "table_rows E db1 = updated_rows (\<lambda>r. r \<in> set chosen) unlocked_row (table_rows E db)"
    and lim: "int (length chosen) \<le> repo_batch_size R"
    and picked: "filter_mset (\<lambda>r. r \<in> set chosen) (table_rows E db) = mset chosen"
    and all: "int (length chosen) < repo_batch_size R \<longrightarrow> mset chosen = filter_mset ?rel (table_rows E db)"
    using stale_round [OF round Suc.prems(2,3)] by blast
  have in_rel: "?rel r" if "r \<in> set chosen" for r
    using mset_subset_eqD [OF sub, of r] that by simp
  show ?case
  proof (cases "int (length rs) < repo_batch_size R")
    case True
    then have eq: "mset chosen = filter_mset ?rel (table_rows E db)"
      using all len by simp
    have "db' = db1" "n = m + int (length rs)"
      using Suc.prems(1) round True by (auto simp: res_simps)
    moreover have "updated_rows (\<lambda>r. r \<in> set chosen) unlocked_row (table_rows E db) =
        updated_rows ?rel unlocked_row (table_rows E db)"
      using arg_cong [OF eq, of set_mset] by (intro updated_rows_same) auto
    moreover have "length chosen = size (filter_mset ?rel (table_rows E db))"
      using arg_cong [OF eq, of size] by simp
    ultimately show ?thesis
      using tbl len by simp
  next
    case False
    then have full: "int (length chosen) = repo_batch_size R"
      using lim len by simp
    have rel1: "releasable E seconds db1 = ?rel"
      using ses by (simp add: releasable_def [abs_def] same_session_def)
    have loop: "release_stale_loop E R seconds k (m + int (length rs)) db1 = (Inr n, db')"
      using Suc.prems(1) round False by (auto simp: res_simps split: if_splits)
    have u1: "unique_ids (table_rows E db1)"
      unfolding tbl by (subst unique_updated) (use Suc.prems(2) in \<open>auto simp: unlocked_row_def\<close>)
    have left: "filter_mset ?rel (table_rows E db1) =
        filter_mset (\<lambda>r. ?rel r \<and> r \<notin> set chosen) (table_rows E db)"
      unfolding tbl by (rule filter_updated) (rule releasable_unlocked)
    have "filter_mset (\<lambda>r. ?rel r \<and> r \<in> set chosen) (table_rows E db) = mset chosen"
      unfolding picked [symmetric] by (rule filter_mset_cong) (auto dest: in_rel)
    then have "size (filter_mset ?rel (table_rows E db)) =
        length chosen + size (filter_mset ?rel (table_rows E db1))"
      using size_filter_or [of "table_rows E db" "\<lambda>r. ?rel r \<and> r \<in> set chosen" "\<lambda>r. ?rel r \<and> r \<notin> set chosen"]
      unfolding left by (simp add: conj_disj_distribL [symmetric])
    moreover have "updated_rows ?rel unlocked_row (table_rows E db1) =
        updated_rows (\<lambda>r. r \<in> set chosen \<or> ?rel r) unlocked_row (table_rows E db)"
      unfolding tbl by (rule updated_rows_union) (rule releasable_unlocked)
    moreover have "\<dots> = updated_rows ?rel unlocked_row (table_rows E db)"
      using in_rel by (intro updated_rows_same) auto
    moreover have "int (size (filter_mset ?rel (table_rows E db1))) < int k * repo_batch_size R"
      using Suc.prems(4) calculation(1) full by (simp add: algebra_simps)
    then have "table_rows E db' = updated_rows ?rel unlocked_row (table_rows E db1) \<and>
        n = m + int (length rs) + int (size (filter_mset ?rel (table_rows E db1)))"
      using Suc.IH [OF loop u1 Suc.prems(3)] unfolding rel1 by blast
    ultimately show ?thesis
      using len by simp
  qed
qed simp

end

text \<open>C35. The sweep of stale locks is complete: when it returns and the stale rows fit its rounds
  (\<open>max_iterations\<close> batches), the rows it has unlocked are exactly the pending rows locked longer than
  the timeout that no other transaction holds, it has changed nothing else, and it returns their
  number.\<close>

theorem stale_locks_released:
  assumes "sql_engine E" and "unique_ids (table_rows E db)"
    and "PostgresOutboxRepository_init part ii im bs em suffix skew = Inr R"
    and "release_stale_locks E R seconds iterations db = (Inr n, db')"
    and "int (size (filter_mset (\<lambda>r. stale_row (tx_now E db - seconds * us_per_s) r \<and>
      event_id r \<notin> held_elsewhere E db) (table_rows E db))) < iterations * repo_batch_size R"
  shows "n = int (size (filter_mset (\<lambda>r. stale_row (tx_now E db - seconds * us_per_s) r \<and>
      event_id r \<notin> held_elsewhere E db) (table_rows E db))) \<and>
    table_rows E db' = updated_rows (\<lambda>r. stale_row (tx_now E db - seconds * us_per_s) r \<and>
      event_id r \<notin> held_elsewhere E db) unlocked_row (table_rows E db)"
proof -
  have b: "1 \<le> repo_batch_size R"
    using outbox_init [OF assms(3)] by simp
  have "1 \<le> iterations" and run: "release_stale_loop E R seconds (nat iterations) 0 db = (Inr n, db')"
    using assms(4) by (auto simp: release_stale_locks_def split: if_splits)
  then show ?thesis
    using sql_engine.stale_loop [OF assms(1) run assms(2) b] assms(5)
    unfolding releasable_def [abs_def] by simp
qed

theorem stale_locks_released_witness:
  "release_stale_locks list_engine sample_repository 1 5 (sample_held\<lparr>db_now := 2000000\<rparr>) =
     (Inr 2, \<lparr>db_rows = map unlocked_row (db_rows sample_held), db_now = 2000000, db_held = {}\<rparr>) \<and>
   2 = int (size (filter_mset (stale_row 1000000) (mset (db_rows sample_held))))"
proof -
  let ?db = "sample_held\<lparr>db_now := 2000000\<rparr>"
  let ?db' = "\<lparr>db_rows = map unlocked_row (db_rows sample_held), db_now = 2000000, db_held = {}\<rparr>"
  have u: "unique_ids (table_rows list_engine ?db)"
    using sample_held_unique by (simp add: list_engine_def)
  have five: "(5::nat) = Suc (Suc (Suc (Suc (Suc 0))))" by simp
  have run: "release_stale_locks list_engine sample_repository 1 5 ?db = (Inr 2, ?db')"
    by (simp add: release_stale_locks_def timedelta_ok_def five sample_repository_def andthen_def
        list_engine_def list_update_def list_chosen_def stale_query_def limited_def stale_row_def
        sample_held_def locked_sample_def sample_event_def us_per_s_def unlocked_row_def
        release_stale_loop.simps)
  have "int (size (filter_mset (\<lambda>r. stale_row (tx_now list_engine ?db - 1 * us_per_s) r \<and>
      event_id r \<notin> held_elsewhere list_engine ?db) (table_rows list_engine ?db)))
      < 5 * repo_batch_size sample_repository"
    by (simp add: list_engine_def sample_held_def stale_row_def locked_sample_def sample_event_def
        us_per_s_def sample_repository_def)
  from stale_locks_released [OF list_sql.sql_engine_axioms u sample_repository_init run this] run
  show ?thesis
    by (simp add: list_engine_def us_per_s_def sample_held_def)
qed

end
