(* ===== verification/Idempotence.thy ===== *)
theory Idempotence
  imports Refinement
begin

text \<open>
  Creation is idempotent: a second event with the same idempotency key, or the same message for the
  same consumer group, is not written, and the call returns the event that is there. It holds for
  the plain and the partitioned tables, whose unique index does not enforce it by itself.
\<close>

section \<open>The lookups\<close>

lemma first_of_query:
  assumes "selects q held T rs" and "q_limit q = Some 1" and "\<not> q_skip_locked q"
    and "scalar_one_or_none err rs = Inr x"
  shows "case x of None \<Rightarrow> \<forall>r\<in>#T. \<not> q_where q (set_mset T) r
    | Some r \<Rightarrow> r \<in># T \<and> q_where q (set_mset T) r"
proof (cases x)
  case None
  then have "rs = []"
    using assms(4) by (auto simp: res_simps)
  then have "mset [] = candidates q held T"
    using selects_short [OF assms(1,2)] by simp
  then have "\<forall>r. r \<notin># candidates q held T"
    by simp
  with None show ?thesis
    using assms(3) by (simp add: candidates_def)
next
  case (Some r)
  then have "r \<in> set rs"
    using assms(4) by (auto simp: res_simps)
  with Some show ?thesis
    using selects_where [OF assms(1)] by simp
qed

context sql_engine
begin

lemma find_existing_outcome:
  assumes "find_existing_by_identity E R e db = (Inr x, db')"
  shows "table_rows E db' = table_rows E db \<and>
    (case x of None \<Rightarrow> \<forall>r\<in>#table_rows E db. identity_of R r \<noteq> identity_of R e
     | Some r \<Rightarrow> r \<in># table_rows E db \<and> identity_of R r = identity_of R e)"
proof -
  let ?q = "\<lparr>q_where = (\<lambda>_ r. identity_of R r = identity_of R e), q_order = (\<lambda>r. [created_at r]),
        q_limit = Some 1, q_skip_locked = False\<rparr>"
  from assms obtain rs where sel: "sql_select E ?q db = (Inr rs, db')"
    and x: "scalar_one_or_none StorageError rs = Inr x"
    by (auto simp: find_existing_by_identity_def andthen_Inr_iff creation_error_Inr)
  then have "selects ?q (held_elsewhere E db) (table_rows E db) rs"
    and "table_rows E db' = table_rows E db"
    using select_law by blast+
  then show ?thesis
    using first_of_query [of ?q "held_elsewhere E db" "table_rows E db" rs StorageError x] x
    by (cases x) simp_all
qed

text \<open>Inserting one row: it is in the table afterwards, or there was a conflict and nothing changed.\<close>

lemma execute_insert_outcome:
  assumes "execute_insert E R e db = (Inr x, db')"
  shows "(x = None \<and> table_rows E db' = table_rows E db \<and>
      (\<exists>r\<in>#table_rows E db. insert_conflict R e e r)) \<or>
    (x = Some e \<and> table_rows E db' = add_mset e (table_rows E db) \<and>
      \<not> (\<exists>r\<in>#table_rows E db. insert_conflict R e e r))"
proof -
  from assms obtain rs where ins: "sql_insert E (insert_conflict R e) [e] db = (Inr rs, db')"
    and x: "scalar_one_or_none StorageError rs = Inr x"
    by (auto simp: execute_insert_def andthen_Inr_iff creation_error_Inr)
  from insert_law [OF ins] x show ?thesis
    by (auto split: if_splits)
qed

text \<open>
  Insert or fetch, when the index conflicts only within the identity and an index conflict or the
  caller's lookup settles whether the identity is there.
\<close>

lemma insert_or_fetch_outcome:
  assumes run: "insert_or_fetch E L R e db = (Inr x, db')"
    and within: "\<And>r. insert_conflict R e e r \<Longrightarrow> same r"
    and found: "\<And>db y db'. fetch_existing_event E R e db = (Inr (Some y), db') \<Longrightarrow>
      table_rows E db' = table_rows E db \<and> y \<in># table_rows E db \<and> same y"
    and settled: "(\<exists>r\<in>#table_rows E db. same r) \<Longrightarrow> \<exists>r\<in>#table_rows E db. insert_conflict R e e r"
  shows "(table_rows E db' = table_rows E db \<and> (\<exists>r\<in>#table_rows E db. same r \<and> to_entity L R r = Inr x)) \<or>
    (table_rows E db' = add_mset e (table_rows E db) \<and> \<not> (\<exists>r\<in>#table_rows E db. same r) \<and>
      to_entity L R e = Inr x)"
proof -
  from run obtain y db1 where ins: "execute_insert E R e db = (Inr y, db1)"
    and rest: "(case y of Some row \<Rightarrow> lift_res (to_entity L R row)
      | None \<Rightarrow> andthen (fetch_existing_event E R e) (\<lambda>existing.
          case existing of Some row \<Rightarrow> lift_res (to_entity L R row)
          | None \<Rightarrow> throw (EventConcurrentUpdateError 1 0 [event_id e]))) db1 = (Inr x, db')"
    unfolding insert_or_fetch_def andthen_Inr_iff by blast
  from execute_insert_outcome [OF ins] show ?thesis
  proof
    assume a: "y = None \<and> table_rows E db1 = table_rows E db \<and>
      (\<exists>r\<in>#table_rows E db. insert_conflict R e e r)"
    then obtain z db2 where f: "fetch_existing_event E R e db1 = (Inr z, db2)"
      and z: "(case z of Some row \<Rightarrow> lift_res (to_entity L R row)
        | None \<Rightarrow> throw (EventConcurrentUpdateError 1 0 [event_id e])) db2 = (Inr x, db')"
      using rest by (auto simp: andthen_Inr_iff)
    from z obtain row where "z = Some row" "to_entity L R row = Inr x" "db' = db2"
      by (cases z) auto
    with found [of db1 row db2] f a show ?thesis by auto
  next
    assume a: "y = Some e \<and> table_rows E db1 = add_mset e (table_rows E db) \<and>
      \<not> (\<exists>r\<in>#table_rows E db. insert_conflict R e e r)"
    with rest settled show ?thesis by auto
  qed
qed

end

section \<open>Outbox\<close>

lemma outbox_indexes:
  assumes "PostgresOutboxRepository_init part None None bs em suffix skew = Inr R"
  shows "repo_conflict_index_id R = (if part then [''id'', ''created_at''] else [''id'']) \<and>
    repo_conflict_index_idempotency R =
      (if part then [''idempotency_key'', ''created_at''] else [''idempotency_key''])"
  using assms
  by (auto simp: PostgresOutboxRepository_init_def PostgresEventRepository_init_def conflict_index_def
      res_simps split: if_splits)

lemma outbox_created_at [simp]: "outbox_column ''created_at'' = Some (\<lambda>r. Some (CTime (created_at r)))"
  by (simp add: outbox_column_def base_column_def)

lemma outbox_identity:
  assumes "PostgresOutboxRepository_init part None None bs em suffix skew = Inr R"
  shows "identity_of R a = identity_of R b \<longleftrightarrow> idempotency_key a = idempotency_key b"
  using outbox_init [OF assms] outbox_indexes [OF assms]
  by (cases "idempotency_key a"; cases "idempotency_key b"; cases part)
    (simp_all add: identity_of_def idempotency_identity_columns_def column_value_def)

text \<open>C19. Creating an outbox event is idempotent in its idempotency key, on the plain and on the
  partitioned table: when the call returns, either a row with this key was there, the table is as
  it was and the event returned is one of these rows, or there was none and the new row was
  added and is what is returned. So the table never gets a second row of a key.\<close>

theorem outbox_create_idempotent:
  assumes "sql_engine E" and "PostgresOutboxRepository_init part None None bs em suffix skew = Inr R"
    and "idempotency_key e = Some k" and "k \<noteq> []"
    and "create E py_str L R e db = (Inr x, db')"
  shows "(table_rows E db' = table_rows E db \<and>
      (\<exists>r\<in>#table_rows E db. idempotency_key r = Some k \<and> to_entity L R r = Inr x)) \<or>
    (table_rows E db' = add_mset e (table_rows E db) \<and>
      \<not> (\<exists>r\<in>#table_rows E db. idempotency_key r = Some k) \<and> to_entity L R e = Inr x)"
proof -
  note R = outbox_init [OF assms(2)] outbox_indexes [OF assms(2)]
  have key: "truthy (idempotency_key e)"
    using assms(3,4) by (simp add: truthy_def)
  have within: "insert_conflict R e e r \<Longrightarrow> idempotency_key r = Some k" for r
    using R key assms(3) by (auto simp: insert_conflict_def conflict_on_def column_value_def split: if_splits)
  have fetch: "fetch_existing_event E R e = find_existing_by_identity E R e"
    using R key by (simp add: fetch_existing_event_def base_fetch_existing_event_def)
  have found: "table_rows E db2 = table_rows E db1 \<and> y \<in># table_rows E db1 \<and> idempotency_key y = Some k"
    if "fetch_existing_event E R e db1 = (Inr (Some y), db2)" for db1 y db2
    using sql_engine.find_existing_outcome [OF assms(1) that [unfolded fetch]] outbox_identity [OF assms(2)]
      assms(3) by simp
  have run: "base_create E py_str L R e db = (Inr x, db')"
    using assms(5) R by (simp add: create_def)
  show ?thesis
  proof (cases part)
    case False
    then have ins: "insert_or_fetch E L R e db = (Inr x, db')"
      using run R by (simp add: base_create_def idempotency_index_is_partition_scoped_def)
    moreover have "insert_conflict R e e r" if "idempotency_key r = Some k" for r
      using that R key assms(3) False by (simp add: insert_conflict_def conflict_on_def column_value_def)
    ultimately show ?thesis
      using sql_engine.insert_or_fetch_outcome [OF assms(1) ins within found] by blast
  next
    case True
    then obtain u db1 y db2 where lock: "sql_advisory_lock E [identity_token py_str R e] db = (Inr u, db1)"
      and look: "find_existing_by_identity E R e db1 = (Inr y, db2)"
      and rest: "(case y of Some row \<Rightarrow> lift_res (to_entity L R row)
        | None \<Rightarrow> insert_or_fetch E L R e) db2 = (Inr x, db')"
      using run R key
      by (auto simp: base_create_def idempotency_index_is_partition_scoped_def
          lock_identity_and_find_existing_def andthen_Inr_iff creation_error_Inr)
    have tbl: "table_rows E db2 = table_rows E db"
      and got: "case y of None \<Rightarrow> \<forall>r\<in>#table_rows E db. idempotency_key r \<noteq> Some k
        | Some r \<Rightarrow> r \<in># table_rows E db \<and> idempotency_key r = Some k"
      using sql_engine.lock_law [OF assms(1) lock] sql_engine.find_existing_outcome [OF assms(1) look]
        outbox_identity [OF assms(2)] assms(3) by (simp_all split: option.splits)
    show ?thesis
    proof (cases y)
      case (Some row)
      with rest got tbl show ?thesis by auto
    next
      case None
      then have ins: "insert_or_fetch E L R e db2 = (Inr x, db')"
        and fresh: "\<not> (\<exists>r\<in>#table_rows E db2. idempotency_key r = Some k)"
        using rest got tbl by simp_all
      then show ?thesis
        using sql_engine.insert_or_fetch_outcome [OF assms(1) ins within found] tbl by auto
    qed
  qed
qed

definition sample_keyed :: outbox_event where
  "sample_keyed = sample_event\<lparr>idempotency_key := Some (lit ''i'')\<rparr>"

theorem outbox_create_idempotent_witness:
  "create list_engine (\<lambda>_. []) sample_libs sample_repository (sample_keyed\<lparr>event_id := UUID 9\<rparr>)
     \<lparr>db_rows = [sample_keyed], db_now = 0, db_held = {}\<rparr> =
     (Inr sample_keyed, \<lparr>db_rows = [sample_keyed], db_now = 0, db_held = {}\<rparr>) \<and>
   (\<exists>r\<in>{sample_keyed}. to_entity sample_libs sample_repository r = Inr sample_keyed)"
proof -
  let ?e = "sample_keyed\<lparr>event_id := UUID 9\<rparr>"
  let ?db = "\<lparr>db_rows = [sample_keyed], db_now = 0, db_held = {}\<rparr>"
  have "valid_event outbox_extra sample_libs (entity_context sample_repository) sample_keyed"
    using sample_event_valid
    by (simp add: valid_event_def fields_ok_def sample_keyed_def sample_event_def outbox_extra_def
        invariant_defs validate_scheduled_at_def entity_context_def sample_repository_def limit_defs
        Let_def us_per_s_def payload_ok_def sample_payload_def lit_def field_ok_def py_space_def)
  then have ent: "to_entity sample_libs sample_repository sample_keyed = Inr sample_keyed"
    using outbox_class.validate_valid [OF sample_libs_roundtrip]
    by (simp add: to_entity_def sample_repository_def)
  have key: "idempotency_key ?e = Some (lit ''i'')" "lit ''i'' \<noteq> []"
    by (simp_all add: sample_keyed_def lit_def)
  have run: "create list_engine (\<lambda>_. []) sample_libs sample_repository ?e ?db = (Inr sample_keyed, ?db)"
    using ent
    by (simp add: create_def base_create_def insert_or_fetch_def execute_insert_def andthen_def
        sample_repository_def truthy_def key idempotency_index_is_partition_scoped_def
        list_engine_def Let_def insert_conflict_def conflict_on_def column_value_def
        fetch_existing_event_def base_fetch_existing_event_def find_existing_by_identity_def
        list_chosen_def limited_def identity_of_def idempotency_identity_columns_def
        sample_keyed_def sample_event_def unique_ids_def lit_def)
  from outbox_create_idempotent [OF list_sql.sql_engine_axioms sample_repository_init key run] run ent
  show ?thesis
    by simp
qed

end
