(* ===== verification/Backoff.thy ===== *)
theory Backoff
  imports Prelude
begin

text \<open>
  \<open>omni_box/utils/backoff.py\<close>: the delay before a retry, with jitter, and the classification of errors
  into transient and permanent ones. Float seconds are rationals; \<open>u\<close> is the random number in
  \<open>[0, 1)\<close> that \<open>Random.uniform\<close> draws.
\<close>

section \<open>Backoff\<close>

datatype jitter_mode = Full | Equal | Decorrelated | UnknownMode

definition uniform :: "rat \<Rightarrow> rat \<Rightarrow> rat \<Rightarrow> rat" where
  "uniform a b u = a + (b - a) * u"

text \<open>\<open>base_seconds * (2 ** attempt)\<close>: an integer of 1024 bits or more has no float.\<close>

definition exponential :: "rat \<Rightarrow> int \<Rightarrow> rat res" where
  "exponential base attempt =
     (if attempt \<ge> 1024 then Inl OverflowError else Inr (base * 2 ^ nat attempt))"

definition calculate_backoff_with_jitter :: "int \<Rightarrow> rat \<Rightarrow> rat \<Rightarrow> jitter_mode \<Rightarrow> rat \<Rightarrow> rat res" where
  "calculate_backoff_with_jitter attempt base cap mode u =
     (if attempt < 0 then Inl ValueError
      else if base \<le> 0 then Inl ValueError
      else if cap \<le> 0 then Inl ValueError
      else bindr (exponential base attempt) (\<lambda>e.
        let delay = min cap e in
        case mode of
          Full \<Rightarrow> Inr (uniform 0 delay u)
        | Equal \<Rightarrow> Inr (delay / 2 + uniform 0 (delay / 2) u)
        | Decorrelated \<Rightarrow> Inr (min cap (uniform base (delay * 3) u))
        | UnknownMode \<Rightarrow> Inl ValueError))"

lemma uniform_bounds: "0 \<le> u \<Longrightarrow> u < 1 \<Longrightarrow> a \<le> b \<Longrightarrow> a \<le> uniform a b u \<and> uniform a b u \<le> b"
  using mult_left_le [of u "b - a"] by (simp add: uniform_def)

text \<open>\<open>timedelta(seconds=s)\<close> rounds to microseconds, half to even.\<close>

definition to_us :: "rat \<Rightarrow> int" where
  "to_us s = (let y = s * of_int us_per_s; f = \<lfloor>y\<rfloor>; d = y - of_int f in
     if d < 1 / 2 then f else if d > 1 / 2 then f + 1 else if even f then f else f + 1)"

lemma to_us_nonneg: "0 \<le> s \<Longrightarrow> 0 \<le> to_us s"
proof -
  assume "0 \<le> s"
  then have "0 \<le> \<lfloor>s * of_int us_per_s\<rfloor>"
    by (simp add: us_per_s_def)
  then show ?thesis
    by (simp add: to_us_def Let_def)
qed

text \<open>
  C36. The retry delay is exponential and bounded: for fewer than 1024 attempts it is given, it lies
  between half of \<open>min(cap, base * 2^attempt)\<close> and all of it in the mode the steps use, and between 0
  and the cap in every mode; from 1024 attempts on the call raises \<open>OverflowError\<close>, whatever the cap.
\<close>

theorem backoff_bounds:
  assumes "0 \<le> u" and "u < 1" and "0 < base" and "0 < cap" and "0 \<le> attempt"
  shows "(attempt < 1024 \<longrightarrow>
      (\<exists>d. calculate_backoff_with_jitter attempt base cap Equal u = Inr d \<and>
        min cap (base * 2 ^ nat attempt) / 2 \<le> d \<and> d \<le> min cap (base * 2 ^ nat attempt))) \<and>
    (\<forall>mode d. calculate_backoff_with_jitter attempt base cap mode u = Inr d \<longrightarrow> 0 \<le> d \<and> d \<le> cap) \<and>
    (1024 \<le> attempt \<longrightarrow> calculate_backoff_with_jitter attempt base cap mode u = Inl OverflowError)"
proof -
  define D where "D = min cap (base * 2 ^ nat attempt)"
  have pos: "0 < D" and cap: "D \<le> cap"
    using assms by (simp_all add: D_def)
  have calc: "calculate_backoff_with_jitter attempt base cap m u =
      (if 1024 \<le> attempt then Inl OverflowError
       else case m of Full \<Rightarrow> Inr (uniform 0 D u) | Equal \<Rightarrow> Inr (D / 2 + uniform 0 (D / 2) u)
         | Decorrelated \<Rightarrow> Inr (min cap (uniform base (D * 3) u)) | UnknownMode \<Rightarrow> Inl ValueError)" for m
    using assms
    by (cases m) (simp_all add: calculate_backoff_with_jitter_def exponential_def Let_def D_def)
  have half: "0 \<le> uniform 0 (D / 2) u" "uniform 0 (D / 2) u \<le> D / 2"
    using uniform_bounds [OF assms(1,2), of 0 "D / 2"] pos by simp_all
  have full: "0 \<le> uniform 0 D u" "uniform 0 D u \<le> D"
    using uniform_bounds [OF assms(1,2), of 0 D] pos by simp_all
  have "uniform base (D * 3) u = base * (1 - u) + D * 3 * u"
    by (simp add: uniform_def algebra_simps)
  then have decor: "0 \<le> uniform base (D * 3) u"
    using assms(1-3) pos by simp
  have equal: "D / 2 \<le> D / 2 + uniform 0 (D / 2) u" "D / 2 + uniform 0 (D / 2) u \<le> D"
    using half by linarith+
  have any: "0 \<le> d \<and> d \<le> cap" if "calculate_backoff_with_jitter attempt base cap m u = Inr d" for m d
  proof (cases m)
    case Full
    then have "d = uniform 0 D u"
      using that by (simp add: calc split: if_splits)
    then show ?thesis
      using full cap by linarith
  next
    case Equal
    then have "d = D / 2 + uniform 0 (D / 2) u"
      using that by (simp add: calc split: if_splits)
    then show ?thesis
      using equal cap pos by linarith
  next
    case Decorrelated
    then have "d = min cap (uniform base (D * 3) u)"
      using that by (simp add: calc split: if_splits)
    then show ?thesis
      using decor assms(4) by simp
  qed (use that in \<open>simp add: calc split: if_splits\<close>)
  show ?thesis
    using equal any unfolding D_def [symmetric] by (auto simp: calc)
qed

theorem backoff_bounds_witness:
  "\<exists>d. calculate_backoff_with_jitter 3 10 60 Equal (1 / 2) = Inr d \<and> 30 \<le> d \<and> d \<le> 60"
  using backoff_bounds [of "1 / 2" 10 60 3] by simp

section \<open>Classification of errors\<close>

record error_classification =
  is_transient :: bool
  count_as_attempt :: bool

definition TRANSIENT_ERRORS :: "string list" where
  "TRANSIENT_ERRORS = [''TimeoutError'', ''TimeoutError'', ''ConnectionError'']"

definition PERMANENT_ERRORS :: "string list" where
  "PERMANENT_ERRORS = [''ValueError'', ''KeyError'', ''TypeError'']"

definition isinstance_any :: "pyexn \<Rightarrow> string list \<Rightarrow> bool" where
  "isinstance_any e classes \<longleftrightarrow> list_ex (is_instance e) classes"

definition classify :: "pyexn \<Rightarrow> string list \<Rightarrow> string list \<Rightarrow> error_classification" where
  "classify e additional_transient additional_permanent =
     (if isinstance_any e (TRANSIENT_ERRORS @ additional_transient)
      then \<lparr>is_transient = True, count_as_attempt = False\<rparr>
      else if isinstance_any e (PERMANENT_ERRORS @ additional_permanent)
      then \<lparr>is_transient = False, count_as_attempt = True\<rparr>
      else \<lparr>is_transient = False, count_as_attempt = True\<rparr>)"

text \<open>
  An error spends an attempt exactly when it is not transient; only a timeout, a connection error
  or a class the caller named transient is, also when the caller named it permanent too.
\<close>

theorem classify_counts:
  "count_as_attempt (classify e ts ps) = (\<not> is_transient (classify e ts ps)) \<and>
   is_transient (classify e ts ps) =
     (is_instance e ''TimeoutError'' \<or> is_instance e ''ConnectionError'' \<or> (\<exists>c\<in>set ts. is_instance e c))"
  by (auto simp: classify_def isinstance_any_def TRANSIENT_ERRORS_def list_ex_iff)

end
