(* ===== verification/Pipeline.thy ===== *)
theory Pipeline
  imports Backoff Repository
begin

text \<open>
  The processing pipeline (\<open>core/pipeline/{context,step,pipeline}.py\<close>): the context of a batch, steps
  with their optional hooks, one event through the steps, and a batch of events. A worker's state is
  a \<open>world\<close>: the database transaction, the context, the clock and random numbers it will read, the
  in-process state of the stateful steps and what it has told the outside.
\<close>

section \<open>Context\<close>

record batch_context =
  ctx_worker_id :: pystr
  completed_ids :: "uuid list"
  failed_counted :: "failure_update list"
  failed_noncounted :: "failure_update list"
  skipped_ids :: "uuid set"
  statuses :: "uuid \<rightharpoonup> pystr"
  ctx_extra :: "string \<rightharpoonup> pystr"

definition new_context :: "pystr \<Rightarrow> batch_context" where
  "new_context w = \<lparr>ctx_worker_id = w, completed_ids = [], failed_counted = [], failed_noncounted = [],
     skipped_ids = {}, statuses = (\<lambda>_. None), ctx_extra = (\<lambda>_. None)\<rparr>"

text \<open>Python's truth of an optional string: \<open>None\<close> and the empty string are false.\<close>

definition text_or :: "pystr option \<Rightarrow> pystr \<Rightarrow> pystr" where
  "text_or x d = (case x of None \<Rightarrow> d | Some s \<Rightarrow> if s = [] then d else s)"

definition set_status :: "uuid \<Rightarrow> pystr option \<Rightarrow> batch_context \<Rightarrow> batch_context" where
  "set_status i st c =
     (case st of None \<Rightarrow> c | Some s \<Rightarrow> if s = [] then c else c\<lparr>statuses := (statuses c)(i \<mapsto> s)\<rparr>)"

definition ctx_mark_completed :: "uuid \<Rightarrow> pystr option \<Rightarrow> batch_context \<Rightarrow> batch_context" where
  "ctx_mark_completed i st c = set_status i st (c\<lparr>completed_ids := completed_ids c @ [i]\<rparr>)"

definition ctx_mark_failed :: "uuid \<Rightarrow> pystr option \<Rightarrow> bool \<Rightarrow> instant option \<Rightarrow> pystr option \<Rightarrow>
    batch_context \<Rightarrow> batch_context" where
  "ctx_mark_failed i err counts next_retry_at st c =
     (let failure = \<lparr>fail_id = i, fail_error = text_or err (lit ''unknown error''),
            fail_retry_at = next_retry_at\<rparr> in
      set_status i st
        (if counts then c\<lparr>failed_counted := failed_counted c @ [failure]\<rparr>
         else c\<lparr>failed_noncounted := failed_noncounted c @ [failure]\<rparr>))"

definition ctx_mark_skipped :: "uuid \<Rightarrow> pystr option \<Rightarrow> batch_context \<Rightarrow> batch_context" where
  "ctx_mark_skipped i st c = set_status i st (c\<lparr>skipped_ids := insert i (skipped_ids c)\<rparr>)"

definition failed_ids :: "batch_context \<Rightarrow> uuid set" where
  "failed_ids c = fail_id ` set (failed_counted c) \<union> fail_id ` set (failed_noncounted c)"

definition get_failure :: "batch_context \<Rightarrow> uuid \<Rightarrow> failure_update option" where
  "get_failure c i =
     (case List.find (\<lambda>f. fail_id f = i) (failed_counted c) of
        Some f \<Rightarrow> Some f
      | None \<Rightarrow> List.find (\<lambda>f. fail_id f = i) (failed_noncounted c))"

lemma find_id_None: "List.find (\<lambda>f. fail_id f = i) fs = None \<longleftrightarrow> i \<notin> fail_id ` set fs"
  by (auto simp: find_None_iff)

lemma get_failure_None: "get_failure c i = None \<longleftrightarrow> i \<notin> failed_ids c"
proof -
  have "get_failure c i = None \<longleftrightarrow> List.find (\<lambda>f. fail_id f = i) (failed_counted c) = None \<and>
      List.find (\<lambda>f. fail_id f = i) (failed_noncounted c) = None"
    by (simp add: get_failure_def split: option.splits)
  then show ?thesis
    by (simp add: find_id_None failed_ids_def)
qed

section \<open>The world of a worker\<close>

text \<open>The in-process state of a circuit breaker and of a metrics step; what is told to the outside.\<close>

record breaker =
  consecutive_failures :: int
  is_open :: bool
  opened_at :: "instant option"

record metrics_state =
  start_times :: "uuid \<rightharpoonup> rat"
  event_types :: "uuid \<rightharpoonup> pystr"

datatype span_status = OK | ERROR | ABANDONED

datatype observation =
    ObserveDuration rat "pystr option"
  | IncProcessed "pystr option" "pystr option"
  | IncFailed "pystr option" "pystr option"
  | IncDuplicate "pystr option" "pystr option"
  | SetLockedBatchSize int
  | MoveToDlq uuid pystr
  | SpanStart uuid
  | SpanEnd uuid span_status

text \<open>
  \<open>w_times\<close>, \<open>w_perf\<close> and \<open>w_random\<close> are what the clocks and the random generator will give: any
  sequences, the heads of which each reading consumes.
\<close>

record 'db world =
  w_db :: 'db
  w_ctx :: batch_context
  w_times :: "nat \<Rightarrow> instant"
  w_perf :: "nat \<Rightarrow> rat"
  w_random :: "nat \<Rightarrow> rat"
  w_breaker :: breaker
  w_metrics :: metrics_state
  w_spans :: "uuid list"
  w_log :: "observation list"

definition utc_now :: "('db world, instant) act" where
  "utc_now s = (Inr (w_times s 0), s\<lparr>w_times := (\<lambda>n. w_times s (Suc n))\<rparr>)"

definition perf_counter :: "('db world, rat) act" where
  "perf_counter s = (Inr (w_perf s 0), s\<lparr>w_perf := (\<lambda>n. w_perf s (Suc n))\<rparr>)"

definition random :: "('db world, rat) act" where
  "random s = (Inr (w_random s 0), s\<lparr>w_random := (\<lambda>n. w_random s (Suc n))\<rparr>)"

definition update_ctx :: "(batch_context \<Rightarrow> batch_context) \<Rightarrow> ('db world, unit) act" where
  "update_ctx f s = (Inr (), s\<lparr>w_ctx := f (w_ctx s)\<rparr>)"

definition tell :: "observation \<Rightarrow> ('db world, unit) act" where
  "tell x s = (Inr (), s\<lparr>w_log := w_log s @ [x]\<rparr>)"

text \<open>A repository call, on the worker's transaction.\<close>

definition on_db :: "('db, 'a) act \<Rightarrow> ('db world, 'a) act" where
  "on_db m s = (case m (w_db s) of (r, db) \<Rightarrow> (r, s\<lparr>w_db := db\<rparr>))"

section \<open>Steps\<close>

record step_result =
  should_skip_event :: bool
  should_stop_pipeline :: bool

definition step_next :: step_result where
  "step_next = \<lparr>should_skip_event = False, should_stop_pipeline = False\<rparr>"

definition step_skip :: step_result where
  "step_skip = \<lparr>should_skip_event = True, should_stop_pipeline = False\<rparr>"

definition step_stop :: step_result where
  "step_stop = \<lparr>should_skip_event = False, should_stop_pipeline = True\<rparr>"

text \<open>A step, with the event hooks and the batch hooks it may have.\<close>

record ('s, 'e) step =
  execute :: "'e \<Rightarrow> ('s, step_result) act"
  event_hooks :: "(('e \<Rightarrow> ('s, unit) act) \<times> ('e \<Rightarrow> ('s, unit) act)) option"
  batch_hooks :: "(('s, unit) act \<times> ('s, unit) act) option"

definition no_event_hooks :: "(('e \<Rightarrow> ('s, unit) act) \<times> ('e \<Rightarrow> ('s, unit) act)) option" where
  "no_event_hooks = Some (\<lambda>_. ret (), \<lambda>_. ret ())"

text \<open>\<open>BaseProcessingStep\<close>: all hooks are there and do nothing.\<close>

definition base_processing_step :: "('s, 'e) step" where
  "base_processing_step = \<lparr>execute = (\<lambda>_. ret step_next),
     event_hooks = Some (\<lambda>_. ret (), \<lambda>_. ret ()), batch_hooks = Some (ret (), ret ())\<rparr>"

fun in_order :: "('s, unit) act list \<Rightarrow> ('s, unit) act" where
  "in_order [] = ret ()"
| "in_order (m # ms) = andthen m (\<lambda>_. in_order ms)"

definition on_event_start :: "('s, 'e) step list \<Rightarrow> 'e \<Rightarrow> ('s, unit) act" where
  "on_event_start steps e =
     in_order (List.map_filter (\<lambda>st. map_option (\<lambda>h. fst h e) (event_hooks st)) steps)"

definition on_event_end :: "('s, 'e) step list \<Rightarrow> 'e \<Rightarrow> ('s, unit) act" where
  "on_event_end steps e =
     in_order (List.map_filter (\<lambda>st. map_option (\<lambda>h. snd h e) (event_hooks st)) steps)"

definition on_batch_start :: "('s, 'e) step list \<Rightarrow> ('s, unit) act" where
  "on_batch_start steps = in_order (List.map_filter (\<lambda>st. map_option fst (batch_hooks st)) steps)"

definition on_batch_end :: "('s, 'e) step list \<Rightarrow> ('s, unit) act" where
  "on_batch_end steps = in_order (List.map_filter (\<lambda>st. map_option snd (batch_hooks st)) steps)"

section \<open>The pipeline\<close>

text \<open>\<open>try: m finally: h\<close>: the error of \<open>h\<close>, if it raises, replaces the outcome of \<open>m\<close>.\<close>

definition finally_do :: "('s, 'a) act \<Rightarrow> ('s, unit) act \<Rightarrow> ('s, 'a) act" where
  "finally_do m h s =
     (case m s of (r, s1) \<Rightarrow> (case h s1 of (Inl e, s2) \<Rightarrow> (Inl e, s2) | (Inr _, s2) \<Rightarrow> (r, s2)))"

fun execute_steps :: "('s, 'e) step list \<Rightarrow> 'e \<Rightarrow> ('s, unit) act" where
  "execute_steps [] e = ret ()"
| "execute_steps (st # sts) e =
     andthen (execute st e) (\<lambda>result.
     if should_skip_event result then ret ()
     else if should_stop_pipeline result then throw PipelineStoppedError
     else execute_steps sts e)"

definition process_event :: "('s, 'e) step list \<Rightarrow> 'e \<Rightarrow> ('s, unit) act" where
  "process_event steps e =
     andthen (on_event_start steps e) (\<lambda>_.
     finally_do (execute_steps steps e) (on_event_end steps e))"

text \<open>The loop over the events; \<open>shutdown\<close> is \<open>context.shutdown_requested\<close>.\<close>

fun event_loop :: "('db world, 'x base_event_scheme) step list \<Rightarrow> ('db world, bool) act option \<Rightarrow>
    'x base_event_scheme list \<Rightarrow> ('db world, unit) act" where
  "event_loop steps shutdown [] = ret ()"
| "event_loop steps shutdown (e # es) = (\<lambda>s.
     if event_id e \<in> skipped_ids (w_ctx s) then event_loop steps shutdown es s
     else andthen (case shutdown of None \<Rightarrow> ret False | Some poll \<Rightarrow> poll) (\<lambda>stop.
       if stop
       then update_ctx (\<lambda>c. c\<lparr>skipped_ids := skipped_ids c \<union>
         {i \<in> event_id ` set (e # es). i \<notin> skipped_ids c}\<rparr>)
       else andthen (process_event steps e) (\<lambda>_. event_loop steps shutdown es)) s)"

definition process_batch :: "('db world, 'x base_event_scheme) step list \<Rightarrow>
    ('db world, bool) act option \<Rightarrow> 'x base_event_scheme list \<Rightarrow> ('db world, unit) act" where
  "process_batch steps shutdown events =
     andthen (on_batch_start steps) (\<lambda>_.
     andthen (catch (event_loop steps shutdown events)
       (\<lambda>e. if e = PipelineStoppedError then ret () else throw e)) (\<lambda>_.
     on_batch_end steps))"

end
