(* ===== verification/Steps.thy ===== *)
theory Steps
  imports Pipeline Creation
begin

text \<open>
  The built-in steps (\<open>core/pipeline/steps\<close>): circuit breaker, deduplication of inbox siblings, dead
  letter queue, handler and publisher execution, metrics and tracing, and the handler results of
  \<open>core/services/results.py\<close>. Handlers, publishers, DLQ stores and metrics collectors are the user's:
  arguments of the steps.
\<close>

section \<open>Handler results\<close>

record handler_result =
  res_success :: bool
  res_processed :: bool
  res_status :: "pystr option"
  res_error_message :: "pystr option"
  res_count_as_attempt :: bool
  res_next_retry_at :: "instant option"

definition STATUS_COMPLETED :: pystr where "STATUS_COMPLETED = lit ''completed''"
definition STATUS_SKIPPED :: pystr where "STATUS_SKIPPED = lit ''skipped''"
definition STATUS_FAILED :: pystr where "STATUS_FAILED = lit ''failed''"
definition STATUS_RETRY :: pystr where "STATUS_RETRY = lit ''retry''"

definition handler_completed :: "pystr \<Rightarrow> handler_result" where
  "handler_completed st = \<lparr>res_success = True, res_processed = True, res_status = Some st,
     res_error_message = None, res_count_as_attempt = True, res_next_retry_at = None\<rparr>"

definition handler_skipped :: "pystr \<Rightarrow> handler_result" where
  "handler_skipped st = \<lparr>res_success = False, res_processed = False, res_status = Some st,
     res_error_message = None, res_count_as_attempt = False, res_next_retry_at = None\<rparr>"

definition handler_retry :: "pystr \<Rightarrow> bool \<Rightarrow> instant option \<Rightarrow> pystr \<Rightarrow> handler_result" where
  "handler_retry message counts next_retry_at st =
     \<lparr>res_success = False, res_processed = True, res_status = Some st,
      res_error_message = Some message, res_count_as_attempt = counts,
      res_next_retry_at = next_retry_at\<rparr>"

definition coerce_handler_outcome :: "handler_result option \<Rightarrow> handler_result" where
  "coerce_handler_outcome raw =
     (case raw of None \<Rightarrow> handler_completed STATUS_COMPLETED | Some r \<Rightarrow> r)"

section \<open>Circuit breaker\<close>

record breaker_config =
  failure_threshold :: int
  recovery_timeout :: int

definition CircuitBreakerStep_init :: "int \<Rightarrow> int \<Rightarrow> breaker_config res" where
  "CircuitBreakerStep_init threshold recovery_timeout_seconds =
     (if threshold < 1 then Inl ValueError
      else if recovery_timeout_seconds < 0 then Inl ValueError
      else if \<not> timedelta_ok recovery_timeout_seconds then Inl OverflowError
      else Inr \<lparr>failure_threshold = threshold, recovery_timeout = recovery_timeout_seconds * us_per_s\<rparr>)"

definition closed_breaker :: breaker where
  "closed_breaker = \<lparr>consecutive_failures = 0, is_open = False, opened_at = None\<rparr>"

definition set_breaker :: "(breaker \<Rightarrow> breaker) \<Rightarrow> ('db world, unit) act" where
  "set_breaker f s = (Inr (), s\<lparr>w_breaker := f (w_breaker s)\<rparr>)"

definition breaker_execute :: "breaker_config \<Rightarrow> 'x base_event_scheme \<Rightarrow> ('db world, step_result) act" where
  "breaker_execute cfg e s =
     (if is_open (w_breaker s)
      then (case opened_at (w_breaker s) of
          None \<Rightarrow> (Inr step_stop, s)
        | Some t \<Rightarrow> andthen utc_now (\<lambda>now.
            if now - t > recovery_timeout cfg
            then andthen (set_breaker (\<lambda>b. b\<lparr>is_open := False, opened_at := None\<rparr>)) (\<lambda>_. ret step_next)
            else ret step_stop) s)
      else (Inr step_next, s))"

definition breaker_event_end :: "breaker_config \<Rightarrow> 'x base_event_scheme \<Rightarrow> ('db world, unit) act" where
  "breaker_event_end cfg e s =
     (case get_failure (w_ctx s) (event_id e) of
        Some _ \<Rightarrow>
          andthen (set_breaker (\<lambda>b. b\<lparr>consecutive_failures := consecutive_failures b + 1\<rparr>)) (\<lambda>_ s.
          if consecutive_failures (w_breaker s) \<ge> failure_threshold cfg \<and> \<not> is_open (w_breaker s)
          then andthen utc_now (\<lambda>now.
            set_breaker (\<lambda>b. b\<lparr>is_open := True, opened_at := Some now\<rparr>)) s
          else (Inr (), s)) s
      | None \<Rightarrow> set_breaker (\<lambda>_. closed_breaker) s)"

definition circuit_breaker_step :: "breaker_config \<Rightarrow> ('db world, 'x base_event_scheme) step" where
  "circuit_breaker_step cfg =
     base_processing_step\<lparr>execute := breaker_execute cfg,
       event_hooks := Some (\<lambda>_. ret (), breaker_event_end cfg)\<rparr>"

section \<open>Sibling deduplication\<close>

text \<open>\<open>sibling_check\<close> is the repository's \<open>has_completed_sibling_for_inbox_key\<close>; \<open>None\<close> for a repository
  that is not an inbox one.\<close>

definition sibling_step :: "bool \<Rightarrow> (pystr \<Rightarrow> pystr \<Rightarrow> uuid \<Rightarrow> ('db, bool) act) option \<Rightarrow>
    ('db world, inbox_event) step" where
  "sibling_step enabled sibling_check = base_processing_step\<lparr>execute := (\<lambda>e.
     if \<not> enabled then ret step_next
     else case sibling_check of
       None \<Rightarrow> throw TypeError
     | Some has_sibling \<Rightarrow>
         andthen (on_db (has_sibling (message_id e) (consumer_group e) (event_id e))) (\<lambda>found.
         if found then andthen (update_ctx (ctx_mark_skipped (event_id e) None)) (\<lambda>_. ret step_skip)
         else ret step_next))\<rparr>"

section \<open>Dead letter queue\<close>

text \<open>\<open>move_to_dlq\<close> raises or not; a failure is swallowed, a cancellation is not.\<close>

definition dlq_event_end :: "('x base_event_scheme \<Rightarrow> pystr \<Rightarrow> error option) \<Rightarrow>
    'x base_event_scheme \<Rightarrow> ('db world, unit) act" where
  "dlq_event_end move_to_dlq e s =
     (case List.find (\<lambda>f. fail_id f = event_id e) (failed_counted (w_ctx s)) of
        None \<Rightarrow> (Inr (), s)
      | Some counted \<Rightarrow>
          if attempts_made e + 1 < max_attempts e then (Inr (), s)
          else andthen (tell (MoveToDlq (event_id e) (fail_error counted))) (\<lambda>_.
            case move_to_dlq e (fail_error counted) of
              None \<Rightarrow> ret ()
            | Some err \<Rightarrow> if is_exception err then ret () else throw err) s)"

definition dlq_step :: "('x base_event_scheme \<Rightarrow> pystr \<Rightarrow> error option) \<Rightarrow>
    ('db world, 'x base_event_scheme) step" where
  "dlq_step move_to_dlq =
     base_processing_step\<lparr>event_hooks := Some (\<lambda>_. ret (), dlq_event_end move_to_dlq)\<rparr>"

section \<open>Handler execution\<close>

text \<open>
  The user's handler under \<open>asyncio.wait_for\<close>, on the transaction: it returns a result or \<open>None\<close>, or
  raises; running out of time is \<open>TimeoutError\<close>. \<open>str(e)\<close> and the class name of an error of the
  library are given by \<open>err_text\<close> and \<open>err_name\<close>.
\<close>

type_synonym ('db, 'e) handler = "'e \<Rightarrow> ('db, handler_result option) act"

record ('db, 'e) handler_config =
  hc_handler :: "('db, 'e) handler"
  hc_timeout_text :: pystr
  hc_backoff_base :: rat
  hc_backoff_cap :: rat
  hc_err_text :: "error \<Rightarrow> pystr"
  hc_err_name :: "error \<Rightarrow> pystr"

definition HandlerExecutionStep_init :: "('db, 'e) handler \<Rightarrow> pystr \<Rightarrow> rat \<Rightarrow> rat \<Rightarrow>
    (error \<Rightarrow> pystr) \<Rightarrow> (error \<Rightarrow> pystr) \<Rightarrow> ('db, 'e) handler_config res" where
  "HandlerExecutionStep_init h timeout_text base cap err_text err_name =
     (if base < 0 then Inl ValueError
      else if cap \<le> 0 then Inl ValueError
      else Inr \<lparr>hc_handler = h, hc_timeout_text = timeout_text, hc_backoff_base = base,
        hc_backoff_cap = cap, hc_err_text = err_text, hc_err_name = err_name\<rparr>)"

fun is_transient_error :: "error \<Rightarrow> bool" where
  "is_transient_error (TransientError _) = True"
| "is_transient_error (Raised e) = is_instance e ''TransientError''"
| "is_transient_error _ = False"

fun is_timeout :: "error \<Rightarrow> bool" where
  "is_timeout (Raised e) = is_instance e ''TimeoutError''"
| "is_timeout _ = False"

text \<open>\<open>_backoff\<close>: a \<open>timedelta\<close> has fewer than \<open>10^9\<close> days, a \<open>datetime\<close> ends with the year 9999.\<close>

definition DATETIME_MAX :: instant where
  "DATETIME_MAX = 253402300799999999"

definition plus_seconds :: "instant \<Rightarrow> rat \<Rightarrow> instant res" where
  "plus_seconds now s =
     (if to_us s \<ge> 1000000000 * 86400 * us_per_s \<or> now + to_us s > DATETIME_MAX then Inl OverflowError
      else Inr (now + to_us s))"

definition backoff :: "('db, 'x base_event_scheme) handler_config \<Rightarrow> 'x base_event_scheme \<Rightarrow>
    ('db world, instant option) act" where
  "backoff hc e =
     (if hc_backoff_base hc = 0 then ret None
      else andthen random (\<lambda>u.
        andthen (lift_res (calculate_backoff_with_jitter (attempts_made e) (hc_backoff_base hc)
          (hc_backoff_cap hc) Equal u)) (\<lambda>delay.
        andthen utc_now (\<lambda>now.
        andthen (lift_res (plus_seconds now delay)) (\<lambda>t. ret (Some t))))))"

definition DEFAULT_TRANSIENT_RETRY_DELAY_SECONDS :: int where
  "DEFAULT_TRANSIENT_RETRY_DELAY_SECONDS = 1"

definition timed_out :: "('db, 'x base_event_scheme) handler_config \<Rightarrow> 'x base_event_scheme \<Rightarrow>
    ('db world, unit) act" where
  "timed_out hc e = andthen (backoff hc e) (\<lambda>next_retry_at.
     update_ctx (ctx_mark_failed (event_id e)
       (Some (lit ''Handler execution timed out after '' @ hc_timeout_text hc @ lit ''s'')) True
       next_retry_at (Some STATUS_FAILED)))"

definition retry_later :: "'x base_event_scheme \<Rightarrow> pystr \<Rightarrow> ('db world, unit) act" where
  "retry_later e err = andthen utc_now (\<lambda>now.
     update_ctx (ctx_mark_failed (event_id e) (Some err) False
       (Some (now + DEFAULT_TRANSIENT_RETRY_DELAY_SECONDS * us_per_s)) (Some STATUS_RETRY)))"

text \<open>What the body of the \<open>try\<close> does with the handler's result.\<close>

definition record_outcome :: "('db, 'x base_event_scheme) handler_config \<Rightarrow> 'x base_event_scheme \<Rightarrow>
    handler_result \<Rightarrow> ('db world, unit) act" where
  "record_outcome hc e outcome =
     (if \<not> res_processed outcome then update_ctx (ctx_mark_skipped (event_id e) (res_status outcome))
      else if res_success outcome then update_ctx (ctx_mark_completed (event_id e) (res_status outcome))
      else andthen (if res_next_retry_at outcome = None \<and> res_count_as_attempt outcome
                    then backoff hc e else ret (res_next_retry_at outcome)) (\<lambda>next_retry_at.
        update_ctx (ctx_mark_failed (event_id e)
          (Some (text_or (res_error_message outcome) (lit ''Unknown error'')))
          (res_count_as_attempt outcome) next_retry_at (res_status outcome))))"

text \<open>\<open>execute\<close>, with the two methods the publisher step overrides as arguments.\<close>

definition handler_execute :: "('db, 'x base_event_scheme) handler_config \<Rightarrow>
    ('x base_event_scheme \<Rightarrow> ('db world, unit) act) \<Rightarrow>
    ('x base_event_scheme \<Rightarrow> pystr \<Rightarrow> ('db world, unit) act) \<Rightarrow>
    'x base_event_scheme \<Rightarrow> ('db world, step_result) act" where
  "handler_execute hc on_timeout on_transient e =
     andthen (catch
       (andthen (on_db (hc_handler hc e)) (\<lambda>raw. record_outcome hc e (coerce_handler_outcome raw)))
       (\<lambda>err.
         if is_transient_error err then on_transient e (hc_err_text hc err)
         else if is_timeout err then on_timeout e
         else if is_exception err
         then andthen (backoff hc e) (\<lambda>next_retry_at.
           update_ctx (ctx_mark_failed (event_id e)
             (Some (hc_err_name hc err @ lit '': '' @ hc_err_text hc err)) True next_retry_at
             (Some STATUS_FAILED)))
         else throw err))
     (\<lambda>_. ret step_next)"

definition handler_step :: "('db, 'x base_event_scheme) handler_config \<Rightarrow>
    ('db world, 'x base_event_scheme) step" where
  "handler_step hc = base_processing_step\<lparr>execute := handler_execute hc (timed_out hc) retry_later\<rparr>"

section \<open>Publishing\<close>

definition DEFERRED_BROKER_ERROR :: string where
  "DEFERRED_BROKER_ERROR = ''publisher_broker_unreachable''"

definition publisher_retry_later :: "'x base_event_scheme \<Rightarrow> pystr \<Rightarrow> ('db world, unit) act" where
  "publisher_retry_later e err = andthen (retry_later e err) (\<lambda>_.
     update_ctx (\<lambda>c. c\<lparr>ctx_extra := (ctx_extra c)(DEFERRED_BROKER_ERROR \<mapsto> err)\<rparr>))"

definition publisher_timed_out :: "('db, 'x base_event_scheme) handler_config \<Rightarrow>
    'x base_event_scheme \<Rightarrow> ('db world, unit) act" where
  "publisher_timed_out hc e =
     publisher_retry_later e (lit ''Publish timed out after '' @ hc_timeout_text hc @ lit ''s'')"

definition publisher_execute :: "('db, 'x base_event_scheme) handler_config \<Rightarrow>
    'x base_event_scheme \<Rightarrow> ('db world, step_result) act" where
  "publisher_execute hc e s =
     (case ctx_extra (w_ctx s) DEFERRED_BROKER_ERROR of
        Some deferred \<Rightarrow>
          andthen (update_ctx (ctx_mark_failed (event_id e) (Some deferred) False None (Some STATUS_RETRY)))
            (\<lambda>_. ret step_next) s
      | None \<Rightarrow> handler_execute hc (publisher_timed_out hc) publisher_retry_later e s)"

definition publisher_step :: "('db, 'x base_event_scheme) handler_config \<Rightarrow>
    ('db world, 'x base_event_scheme) step" where
  "publisher_step hc = base_processing_step\<lparr>execute := publisher_execute hc\<rparr>"

section \<open>Metrics\<close>

text \<open>A collector call is an observation; \<open>refuses\<close> says whether the collector raises on it.\<close>

definition empty_metrics :: metrics_state where
  "empty_metrics = \<lparr>start_times = (\<lambda>_. None), event_types = (\<lambda>_. None)\<rparr>"

definition set_metrics :: "(metrics_state \<Rightarrow> metrics_state) \<Rightarrow> ('db world, unit) act" where
  "set_metrics f s = (Inr (), s\<lparr>w_metrics := f (w_metrics s)\<rparr>)"

definition emit :: "(observation \<Rightarrow> error option) \<Rightarrow> observation \<Rightarrow> ('db world, unit) act" where
  "emit refuses x = (case refuses x of Some err \<Rightarrow> throw err | None \<Rightarrow> tell x)"

definition metrics_execute :: "'x base_event_scheme \<Rightarrow> ('db world, step_result) act" where
  "metrics_execute e = andthen perf_counter (\<lambda>now.
     andthen (set_metrics (\<lambda>m. m\<lparr>start_times := (start_times m)(event_id e \<mapsto> now),
       event_types := (event_types m)(event_id e \<mapsto> event_type e)\<rparr>)) (\<lambda>_. ret step_next))"

definition report_completed :: "(observation \<Rightarrow> error option) \<Rightarrow> rat \<Rightarrow> uuid \<Rightarrow> ('db world, unit) act" where
  "report_completed refuses now i s =
     (let ty = event_types (w_metrics s) i; st = statuses (w_ctx s) i in
      andthen (case start_times (w_metrics s) i of
          None \<Rightarrow> ret ()
        | Some t \<Rightarrow> if t = 0 then ret () else emit refuses (ObserveDuration (now - t) ty))
        (\<lambda>_. emit refuses (IncProcessed ty st)) s)"

definition report_failed :: "(observation \<Rightarrow> error option) \<Rightarrow> uuid \<Rightarrow> ('db world, unit) act" where
  "report_failed refuses i s =
     emit refuses (IncFailed (event_types (w_metrics s) i) (statuses (w_ctx s) i)) s"

definition report_skipped :: "(observation \<Rightarrow> error option) \<Rightarrow> uuid \<Rightarrow> ('db world, unit) act" where
  "report_skipped refuses i s =
     emit refuses (IncDuplicate (event_types (w_metrics s) i) (statuses (w_ctx s) i)) s"

text \<open>The set of skipped ids is reported in some order; here in that of the ids.\<close>

definition metrics_batch_end :: "(observation \<Rightarrow> error option) \<Rightarrow> ('db world, unit) act" where
  "metrics_batch_end refuses =
     finally_do
       (andthen perf_counter (\<lambda>now s.
         let c = w_ctx s in
         in_order (map (report_completed refuses now) (completed_ids c) @
           map (report_failed refuses \<circ> fail_id) (failed_counted c) @
           map (report_failed refuses \<circ> fail_id) (failed_noncounted c) @
           map (report_skipped refuses) (sorted_list_of_set (skipped_ids c))) s))
       (set_metrics (\<lambda>_. empty_metrics))"

definition metrics_step :: "(observation \<Rightarrow> error option) \<Rightarrow> ('db world, 'x base_event_scheme) step" where
  "metrics_step refuses = base_processing_step\<lparr>execute := metrics_execute,
     batch_hooks := Some (set_metrics (\<lambda>_. empty_metrics), metrics_batch_end refuses)\<rparr>"

section \<open>Tracing\<close>

text \<open>Spans by event; a tracer is there when OpenTelemetry is installed.\<close>

definition set_spans :: "uuid list \<Rightarrow> ('db world, unit) act" where
  "set_spans ids s = (Inr (), s\<lparr>w_spans := ids\<rparr>)"

definition otel_event_start :: "bool \<Rightarrow> 'x base_event_scheme \<Rightarrow> ('db world, unit) act" where
  "otel_event_start has_tracer e s =
     (if has_tracer
      then andthen (tell (SpanStart (event_id e))) (\<lambda>_ s.
        set_spans (if event_id e \<in> set (w_spans s) then w_spans s
          else w_spans s @ [event_id e]) s) s
      else (Inr (), s))"

definition otel_event_end :: "'x base_event_scheme \<Rightarrow> ('db world, unit) act" where
  "otel_event_end e s =
     (if event_id e \<in> set (w_spans s)
      then andthen (set_spans (remove1 (event_id e) (w_spans s))) (\<lambda>_ s.
        tell (SpanEnd (event_id e) (if event_id e \<in> failed_ids (w_ctx s) then ERROR else OK)) s) s
      else (Inr (), s))"

definition close_dangling_spans :: "('db world, unit) act" where
  "close_dangling_spans s =
     andthen (in_order (map (\<lambda>i. tell (SpanEnd i ABANDONED)) (w_spans s))) (\<lambda>_. set_spans []) s"

definition otel_step :: "bool \<Rightarrow> ('db world, 'x base_event_scheme) step" where
  "otel_step has_tracer = base_processing_step\<lparr>
     event_hooks := Some (otel_event_start has_tracer, otel_event_end),
     batch_hooks := Some (close_dangling_spans, close_dangling_spans)\<rparr>"

end
