(* ===== verification/Processor.thy ===== *)
theory Processor
  imports Steps
begin

text \<open>
  The batch processor (\<open>core/services/processor.py\<close>) with its fetch and commit strategies, the builder
  that chooses them and the preset factories of \<open>application/factories.py\<close>, over any repository: the
  repository protocols are a record of the calls a repository has.
\<close>

section \<open>The repository protocols\<close>

type_synonym filters = "(string \<times> filter_value option) list"

record repository_capabilities =
  supports_bulk :: bool
  supports_distributed_locking :: bool
  supports_retention :: bool

text \<open>The optional protocols are \<open>None\<close> for a repository without these methods.\<close>

record ('db, 'x) event_repository =
  er_capabilities :: "repository_capabilities option"
  er_fetch_pending :: "int \<Rightarrow> filters \<Rightarrow> ('db, 'x base_event_scheme list) act"
  er_mark_processing :: "uuid \<Rightarrow> pystr \<Rightarrow> ('db, bool) act"
  er_mark_completed :: "uuid \<Rightarrow> pystr \<Rightarrow> ('db, unit) act"
  er_mark_failed :: "uuid \<Rightarrow> pystr \<Rightarrow> pystr \<Rightarrow> instant option \<Rightarrow> bool \<Rightarrow> ('db, unit) act"
  er_fetch_and_lock :: "(int \<Rightarrow> pystr \<Rightarrow> int option \<Rightarrow> filters \<Rightarrow> ('db, 'x base_event_scheme list) act) option"
  er_bulk_mark_completed :: "(uuid list \<Rightarrow> pystr \<Rightarrow> ('db, int) act) option"
  er_bulk_mark_failed :: "(failure_update list \<Rightarrow> pystr \<Rightarrow> bool \<Rightarrow> ('db, int) act) option"

definition postgres_repository :: "('db, 'x base_event_scheme) engine \<Rightarrow> libs \<Rightarrow> 'x repository \<Rightarrow>
    ('db, 'x) event_repository" where
  "postgres_repository E L R = \<lparr>
     er_capabilities = Some \<lparr>supports_bulk = True, supports_distributed_locking = True,
       supports_retention = True\<rparr>,
     er_fetch_pending = fetch_pending E L R,
     er_mark_processing = mark_processing E,
     er_mark_completed = mark_completed E,
     er_mark_failed = mark_failed E R,
     er_fetch_and_lock = Some (fetch_and_lock_pending E L R),
     er_bulk_mark_completed = Some (bulk_mark_completed E R),
     er_bulk_mark_failed = Some (bulk_mark_failed E R)\<rparr>"

text \<open>A method the repository lacks, called all the same.\<close>

definition required :: "'f option \<Rightarrow> ('f \<Rightarrow> ('db, 'a) act) \<Rightarrow> ('db, 'a) act" where
  "required f call = (case f of None \<Rightarrow> throw AttributeError | Some g \<Rightarrow> call g)"

section \<open>Fetch strategies\<close>

type_synonym ('db, 'x) fetch_strategy =
  "('db, 'x) event_repository \<Rightarrow> int \<Rightarrow> pystr \<Rightarrow> filters \<Rightarrow> ('db, 'x base_event_scheme list) act"

fun lock_each :: "('db, 'x) event_repository \<Rightarrow> pystr \<Rightarrow> 'x base_event_scheme list \<Rightarrow>
    ('db, 'x base_event_scheme list) act" where
  "lock_each repo worker_id [] = ret []"
| "lock_each repo worker_id (e # es) =
     andthen (er_mark_processing repo (event_id e) worker_id) (\<lambda>mine.
     andthen (lock_each repo worker_id es) (\<lambda>rest. ret (if mine then e # rest else rest)))"

definition optimistic_fetch :: "('db, 'x) fetch_strategy" where
  "optimistic_fetch repo batch_size worker_id filters =
     andthen (er_fetch_pending repo batch_size filters) (lock_each repo worker_id)"

definition distributed_fetch :: "int \<Rightarrow> ('db, 'x) fetch_strategy" where
  "distributed_fetch ttl repo batch_size worker_id filters =
     required (er_fetch_and_lock repo) (\<lambda>f. f batch_size worker_id (Some ttl) filters)"

definition with_sources :: "pystr list option \<Rightarrow> filters \<Rightarrow> filters" where
  "with_sources sources filters =
     (case sources of
        Some (s # ss) \<Rightarrow>
          filter (\<lambda>kv. fst kv \<noteq> ''source'') filters @ [(''source'', Some (Many (map CText (s # ss))))]
      | _ \<Rightarrow> filters)"

definition filtered_fetch :: "pystr list option \<Rightarrow> int \<Rightarrow> ('db, 'x) fetch_strategy" where
  "filtered_fetch sources ttl repo batch_size worker_id filters =
     (case er_fetch_and_lock repo of
        Some f \<Rightarrow> f batch_size worker_id (Some ttl) (with_sources sources filters)
      | None \<Rightarrow> andthen (er_fetch_pending repo batch_size (with_sources sources filters))
          (lock_each repo worker_id))"

section \<open>Commit strategies\<close>

type_synonym ('db, 'x) commit_strategy = "('db, 'x) event_repository \<Rightarrow> batch_context \<Rightarrow> ('db, bool) act"

text \<open>\<open>except Exception: return False\<close>: what was written before stays written.\<close>

definition false_on_error :: "('db, unit) act \<Rightarrow> ('db, bool) act" where
  "false_on_error m = catch (andthen m (\<lambda>_. ret True))
     (\<lambda>e. if is_exception e then ret False else throw e)"

definition bulk_commit :: "('db, 'x) commit_strategy" where
  "bulk_commit repo c = false_on_error
     (andthen (if completed_ids c = [] then ret 0
        else required (er_bulk_mark_completed repo) (\<lambda>f. f (completed_ids c) (ctx_worker_id c))) (\<lambda>_.
      andthen (if failed_counted c = [] then ret 0
        else required (er_bulk_mark_failed repo) (\<lambda>f. f (failed_counted c) (ctx_worker_id c) True)) (\<lambda>_.
      andthen (if failed_noncounted c = [] then ret 0
        else required (er_bulk_mark_failed repo) (\<lambda>f. f (failed_noncounted c) (ctx_worker_id c) False))
      (\<lambda>_. ret ()))))"

definition fail_one :: "('db, 'x) event_repository \<Rightarrow> pystr \<Rightarrow> bool \<Rightarrow> failure_update \<Rightarrow> ('db, unit) act" where
  "fail_one repo worker_id counts f =
     er_mark_failed repo (fail_id f) (fail_error f) worker_id (fail_retry_at f) counts"

definition single_commit :: "('db, 'x) commit_strategy" where
  "single_commit repo c = false_on_error (in_order
     (map (\<lambda>i. er_mark_completed repo i (ctx_worker_id c)) (completed_ids c) @
      map (fail_one repo (ctx_worker_id c) True) (failed_counted c) @
      map (fail_one repo (ctx_worker_id c) False) (failed_noncounted c)))"

section \<open>The processor\<close>

record batch_result =
  processed_event_ids :: "uuid list"
  result_failed_counted :: "failure_update list"
  result_failed_noncounted :: "failure_update list"
  remaining_event_ids :: "uuid set"
  commit_failed :: bool

definition empty_result :: batch_result where
  "empty_result = \<lparr>processed_event_ids = [], result_failed_counted = [], result_failed_noncounted = [],
     remaining_event_ids = {}, commit_failed = False\<rparr>"

text \<open>\<open>pr_outbox_metrics\<close> is the collector when it is an \<open>OutboxMetrics\<close>.\<close>

record ('db, 'x) processor =
  pr_repo :: "('db, 'x) event_repository"
  pr_pipeline :: "('db world, 'x base_event_scheme) step list"
  pr_fetch :: "('db, 'x) fetch_strategy"
  pr_commit :: "('db, 'x) commit_strategy"
  pr_outbox_metrics :: "(observation \<Rightarrow> error option) option"

definition poll :: "('db world, bool) act option \<Rightarrow> ('db world, bool) act" where
  "poll shutdown = (case shutdown of None \<Rightarrow> ret False | Some f \<Rightarrow> f)"

definition processor_batch :: "('db, 'x) processor \<Rightarrow> pystr \<Rightarrow> int \<Rightarrow> ('db world, bool) act option \<Rightarrow>
    filters \<Rightarrow> ('db world, batch_result) act" where
  "processor_batch P worker_id batch_size shutdown filters =
     andthen (poll shutdown) (\<lambda>stop.
     if stop then ret empty_result
     else
       andthen (on_db (pr_fetch P (pr_repo P) batch_size worker_id filters)) (\<lambda>events.
       andthen (case pr_outbox_metrics P of None \<Rightarrow> ret ()
         | Some refuses \<Rightarrow> emit refuses (SetLockedBatchSize (int (length events)))) (\<lambda>_.
       if events = [] then ret empty_result
       else
         andthen (update_ctx (\<lambda>_. new_context worker_id)) (\<lambda>_.
         andthen (process_batch (pr_pipeline P) shutdown events) (\<lambda>_.
         andthen (\<lambda>s. on_db (pr_commit P (pr_repo P) (w_ctx s)) s) (\<lambda>success s.
         (Inr \<lparr>processed_event_ids = completed_ids (w_ctx s),
            result_failed_counted = failed_counted (w_ctx s),
            result_failed_noncounted = failed_noncounted (w_ctx s),
            remaining_event_ids = skipped_ids (w_ctx s),
            commit_failed = (\<not> success)\<rparr>, s)))))))"

section \<open>The builder\<close>

record ('db, 'x) builder =
  b_repo :: "('db, 'x) event_repository"
  b_pipeline :: "('db world, 'x base_event_scheme) step list"
  b_fetch :: "('db, 'x) fetch_strategy option"
  b_commit :: "('db, 'x) commit_strategy option"
  b_metrics :: "(observation \<Rightarrow> error option) option"
  b_lease_ttl :: int

definition new_builder :: "('db, 'x) event_repository \<Rightarrow> ('db, 'x) builder" where
  "new_builder repo = \<lparr>b_repo = repo, b_pipeline = [], b_fetch = None, b_commit = None,
     b_metrics = None, b_lease_ttl = DEFAULT_LEASE_TIMEOUT_SECONDS\<rparr>"

definition add_step :: "('db world, 'x base_event_scheme) step \<Rightarrow> ('db, 'x) builder \<Rightarrow> ('db, 'x) builder" where
  "add_step st b = b\<lparr>b_pipeline := b_pipeline b @ [st]\<rparr>"

definition with_fetch_strategy :: "('db, 'x) fetch_strategy \<Rightarrow> ('db, 'x) builder \<Rightarrow> ('db, 'x) builder" where
  "with_fetch_strategy f b = b\<lparr>b_fetch := Some f\<rparr>"

definition with_commit_strategy :: "('db, 'x) commit_strategy \<Rightarrow> ('db, 'x) builder \<Rightarrow> ('db, 'x) builder" where
  "with_commit_strategy f b = b\<lparr>b_commit := Some f\<rparr>"

definition with_lease_ttl :: "int \<Rightarrow> ('db, 'x) builder \<Rightarrow> ('db, 'x) builder res" where
  "with_lease_ttl ttl b = (if ttl \<le> 0 then Inl ValueError else Inr (b\<lparr>b_lease_ttl := ttl\<rparr>))"

definition with_metrics :: "(observation \<Rightarrow> error option) option \<Rightarrow> ('db, 'x) builder \<Rightarrow> ('db, 'x) builder" where
  "with_metrics m b = b\<lparr>b_metrics := m\<rparr>"

definition build :: "bool \<Rightarrow> ('db, 'x) builder \<Rightarrow> ('db, 'x) processor" where
  "build outbox_metrics b = \<lparr>
     pr_repo = b_repo b,
     pr_pipeline = b_pipeline b,
     pr_fetch = (case b_fetch b of
         Some f \<Rightarrow> f
       | None \<Rightarrow>
           if pred_option supports_distributed_locking (er_capabilities (b_repo b)) \<and>
                er_capabilities (b_repo b) \<noteq> None \<or> er_fetch_and_lock (b_repo b) \<noteq> None
           then distributed_fetch (b_lease_ttl b) else optimistic_fetch),
     pr_commit = (case b_commit b of
         Some f \<Rightarrow> f
       | None \<Rightarrow>
           if pred_option supports_bulk (er_capabilities (b_repo b)) \<and>
                er_capabilities (b_repo b) \<noteq> None \<or>
              (er_bulk_mark_completed (b_repo b) \<noteq> None \<and> er_bulk_mark_failed (b_repo b) \<noteq> None)
           then bulk_commit else single_commit),
     pr_outbox_metrics = (if outbox_metrics then b_metrics b else None)\<rparr>"

section \<open>The factories\<close>

text \<open>The options the factories share; a breaker is given by its threshold and its timeout.\<close>

record ('db, 'x) factory_options =
  fo_metrics :: "(observation \<Rightarrow> error option) option"
  fo_dlq :: "('x base_event_scheme \<Rightarrow> pystr \<Rightarrow> error option) option"
  fo_otel :: "bool option"
  fo_breaker :: "(int \<times> int) option"
  fo_before :: "('db world, 'x base_event_scheme) step list"
  fo_after :: "('db world, 'x base_event_scheme) step list"

definition opt_step :: "'a option \<Rightarrow> ('a \<Rightarrow> ('s, 'e) step) \<Rightarrow> ('s, 'e) step list" where
  "opt_step x f = (case x of None \<Rightarrow> [] | Some a \<Rightarrow> [f a])"

definition factory_breaker :: "(int \<times> int) option \<Rightarrow> breaker_config option res" where
  "factory_breaker b = map_res_opt (\<lambda>(threshold, timeout). CircuitBreakerStep_init threshold timeout) b"

text \<open>The steps around the one that executes: tracing, breaker, dead letters and the caller's own
  before it; the caller's own and metrics after it.\<close>

definition factory_steps :: "('db, 'x) factory_options \<Rightarrow> breaker_config option \<Rightarrow>
    ('db world, 'x base_event_scheme) step list \<Rightarrow> ('db world, 'x base_event_scheme) step list" where
  "factory_steps opts br core =
     opt_step (fo_otel opts) otel_step @ opt_step br circuit_breaker_step @
     opt_step (fo_dlq opts) dlq_step @ fo_before opts @ core @ fo_after opts @
     opt_step (fo_metrics opts) metrics_step"

definition create_outbox_processor :: "('db, unit outbox_event_ext) event_repository \<Rightarrow>
    ('db, outbox_event) handler \<Rightarrow> pystr \<Rightarrow> rat \<Rightarrow> rat \<Rightarrow> (error \<Rightarrow> pystr) \<Rightarrow> (error \<Rightarrow> pystr) \<Rightarrow>
    ('db, unit outbox_event_ext) factory_options \<Rightarrow> ('db, unit outbox_event_ext) processor res" where
  "create_outbox_processor repo publish timeout_text base cap err_text err_name opts =
     bindr (factory_breaker (fo_breaker opts)) (\<lambda>br.
     bindr (HandlerExecutionStep_init publish timeout_text base cap err_text err_name) (\<lambda>hc.
     Inr (build True (with_metrics (fo_metrics opts)
       ((new_builder repo)\<lparr>b_pipeline := factory_steps opts br [publisher_step hc]\<rparr>)))))"

definition create_inbox_processor :: "('db, unit inbox_event_ext) event_repository \<Rightarrow>
    (pystr \<Rightarrow> pystr \<Rightarrow> uuid \<Rightarrow> ('db, bool) act) option \<Rightarrow> ('db, inbox_event) handler \<Rightarrow> bool \<Rightarrow>
    pystr list option \<Rightarrow> pystr \<Rightarrow> rat \<Rightarrow> rat \<Rightarrow> (error \<Rightarrow> pystr) \<Rightarrow> (error \<Rightarrow> pystr) \<Rightarrow>
    ('db, unit inbox_event_ext) factory_options \<Rightarrow> ('db, unit inbox_event_ext) processor res" where
  "create_inbox_processor repo sibling_check h skip_duplicate_siblings filter_sources timeout_text
       base cap err_text err_name opts =
     bindr (factory_breaker (fo_breaker opts)) (\<lambda>br.
     bindr (HandlerExecutionStep_init h timeout_text base cap err_text err_name) (\<lambda>hc.
     let core = (if skip_duplicate_siblings then [sibling_step True sibling_check] else []) @
           [handler_step hc];
         b = (new_builder repo)\<lparr>b_pipeline := factory_steps opts br core\<rparr>;
         b = (case filter_sources of
             Some (s # ss) \<Rightarrow> with_fetch_strategy (filtered_fetch (Some (s # ss)) DEFAULT_LEASE_TIMEOUT_SECONDS) b
           | _ \<Rightarrow> b) in
     Inr (build False (with_metrics (fo_metrics opts) b))))"

end
