(* ===== verification/Quiet.thy ===== *)
theory Quiet
  imports Processor
begin

text \<open>
  Hooks and steps that do not disturb the record of a batch: what tracing, metrics and the dead letter
  queue do around the step that does the work, and how an event passes through them.
\<close>

section \<open>What a step may do beside its work\<close>

text \<open>Clocks and random numbers are only consumed.\<close>

definition later :: "'db world \<Rightarrow> 'db world \<Rightarrow> bool" where
  "later s s' \<longleftrightarrow> (\<exists>k. w_times s' = (\<lambda>n. w_times s (n + k))) \<and>
     (\<exists>k. w_random s' = (\<lambda>n. w_random s (n + k)))"

lemma later_same: "w_times s' = w_times s \<Longrightarrow> w_random s' = w_random s \<Longrightarrow> later s s'"
  unfolding later_def by (intro conjI exI [of _ 0]) simp_all

lemma later_trans: "later s t \<Longrightarrow> later t u \<Longrightarrow> later s u"
  unfolding later_def by (auto simp: add.assoc intro!: exI [of _ "_ + _"])

lemma later_times: "later s s' \<Longrightarrow> \<forall>n. P (w_times s n) \<Longrightarrow> P (w_times s' n)"
  by (auto simp: later_def)

lemma later_random: "later s s' \<Longrightarrow> \<forall>n. P (w_random s n) \<Longrightarrow> P (w_random s' n)"
  by (auto simp: later_def)

definition untouched :: "'db world \<Rightarrow> 'db world \<Rightarrow> bool" where
  "untouched s s' \<longleftrightarrow> later s s' \<and> w_ctx s' = w_ctx s \<and> w_db s' = w_db s \<and> w_breaker s' = w_breaker s"

lemma untouched_refl [simp]: "untouched s s"
  by (simp add: untouched_def later_same)

lemma untouched_trans: "untouched s t \<Longrightarrow> untouched t u \<Longrightarrow> untouched s u"
  unfolding untouched_def using later_trans by metis

text \<open>A hook that returns and touches neither the record of the batch nor the database.\<close>

definition quiet :: "('db world, unit) act \<Rightarrow> bool" where
  "quiet m \<longleftrightarrow> (\<forall>s. \<exists>s'. m s = (Inr (), s') \<and> untouched s s')"

named_theorems quiet_intros \<open>hooks that do not disturb the batch\<close>

lemma quietE: "quiet m \<Longrightarrow> (\<And>s'. m s = (Inr (), s') \<Longrightarrow> untouched s s' \<Longrightarrow> P) \<Longrightarrow> P"
  unfolding quiet_def by blast

lemma quietI: "(\<And>s. \<exists>s'. m s = (Inr (), s') \<and> untouched s s') \<Longrightarrow> quiet m"
  by (simp add: quiet_def)

lemma quiet_ret [quiet_intros]: "quiet (ret ())"
  by (simp add: quiet_def)

lemma quiet_andthen [quiet_intros]:
  assumes "quiet m" and "\<And>u. quiet (f u)"
  shows "quiet (andthen m f)"
proof (rule quietI)
  fix s
  obtain t where t: "m s = (Inr (), t)" "untouched s t"
    using assms(1) by (rule quietE)
  obtain u where "f () t = (Inr (), u)" "untouched t u"
    using assms(2) by (rule quietE)
  with t show "\<exists>s'. andthen m f s = (Inr (), s') \<and> untouched s s'"
    using untouched_trans by (auto simp: andthen_def)
qed

text \<open>An act that first looks at the state.\<close>

lemma quiet_read: "(\<And>t. quiet (f t)) \<Longrightarrow> (\<And>s. m s = f s s) \<Longrightarrow> quiet m"
  unfolding quiet_def by metis

lemma quiet_if [quiet_intros]: "(p \<Longrightarrow> quiet m) \<Longrightarrow> (\<not> p \<Longrightarrow> quiet n) \<Longrightarrow> quiet (if p then m else n)"
  by simp

lemma quiet_finally [quiet_intros]:
  assumes "quiet m" and "quiet h"
  shows "quiet (finally_do m h)"
proof (rule quietI)
  fix s
  obtain t where t: "m s = (Inr (), t)" "untouched s t"
    using assms(1) by (rule quietE)
  obtain u where "h t = (Inr (), u)" "untouched t u"
    using assms(2) by (rule quietE)
  with t show "\<exists>s'. finally_do m h s = (Inr (), s') \<and> untouched s s'"
    using untouched_trans by (auto simp: finally_do_def)
qed

lemma quiet_in_order [quiet_intros]: "(\<And>m. m \<in> set ms \<Longrightarrow> quiet m) \<Longrightarrow> quiet (in_order ms)"
proof (induction ms)
  case (Cons m ms)
  then show ?case
    by (auto intro!: quiet_andthen)
qed (simp add: quiet_ret)

lemma quiet_tell [quiet_intros]: "quiet (tell x)"
  by (simp add: quiet_def tell_def untouched_def later_same)

lemma quiet_set_metrics [quiet_intros]: "quiet (set_metrics f)"
  by (simp add: quiet_def set_metrics_def untouched_def later_same)

lemma quiet_set_spans [quiet_intros]: "quiet (set_spans ids)"
  by (simp add: quiet_def set_spans_def untouched_def later_same)

lemma quiet_perf_counter [quiet_intros]:
  assumes "\<And>x. quiet (f x)"
  shows "quiet (andthen perf_counter f)"
proof (rule quietI)
  fix s :: "'a world"
  let ?s = "s\<lparr>w_perf := \<lambda>n. w_perf s (Suc n)\<rparr>"
  obtain s' where "f (w_perf s 0) ?s = (Inr (), s')" "untouched ?s s'"
    using assms by (rule quietE)
  moreover have "untouched s ?s"
    by (simp add: untouched_def later_same)
  ultimately show "\<exists>s'. andthen perf_counter f s = (Inr (), s') \<and> untouched s s'"
    using untouched_trans by (auto simp: andthen_def perf_counter_def)
qed

definition quiet_hooks :: "('db world, 'e) step \<Rightarrow> bool" where
  "quiet_hooks st \<longleftrightarrow>
     (case event_hooks st of None \<Rightarrow> True | Some (a, b) \<Rightarrow> \<forall>e. quiet (a e) \<and> quiet (b e)) \<and>
     (case batch_hooks st of None \<Rightarrow> True | Some (a, b) \<Rightarrow> quiet a \<and> quiet b)"

text \<open>A step around the one that does the work: it always passes the event on.\<close>

definition quiet_step :: "('db world, 'e) step \<Rightarrow> bool" where
  "quiet_step st \<longleftrightarrow> quiet_hooks st \<and>
     (\<forall>e s. \<exists>s'. execute st e s = (Inr step_next, s') \<and> untouched s s')"

lemma base_hooks: "quiet_hooks base_processing_step"
  by (simp add: quiet_hooks_def base_processing_step_def quiet_ret)

lemma quiet_hooks_execute [simp]: "quiet_hooks (st\<lparr>execute := f\<rparr>) = quiet_hooks st"
  by (simp add: quiet_hooks_def)

lemma execute_only_hooks [simp]:
  "quiet_hooks (handler_step hc)" "quiet_hooks (publisher_step hc)" "quiet_hooks (sibling_step b f)"
  by (simp_all add: handler_step_def publisher_step_def sibling_step_def base_hooks)

text \<open>What the user's collaborators keep to: a dead letter sink may fail but does not cancel, a
  collector takes every observation.\<close>

definition sink_ok :: "('x base_event_scheme \<Rightarrow> pystr \<Rightarrow> error option) \<Rightarrow> bool" where
  "sink_ok sink \<longleftrightarrow> (\<forall>e t. pred_option is_exception (sink e t))"

definition collects :: "(observation \<Rightarrow> error option) \<Rightarrow> bool" where
  "collects refuses \<longleftrightarrow> (\<forall>x. refuses x = None)"

lemma quiet_sink: "sink_ok sink \<Longrightarrow>
    quiet (case sink e t of None \<Rightarrow> ret () | Some err \<Rightarrow> if is_exception err then ret () else throw err)"
  unfolding sink_ok_def by (cases "sink e t") (auto simp: quiet_ret dest: spec [of _ e] elim!: allE [of _ t])

lemma quiet_dlq:
  assumes "sink_ok sink"
  shows "quiet (dlq_event_end sink e :: ('db world, unit) act)"
proof -
  define handle :: "failure_update option \<Rightarrow> ('db world, unit) act" where "handle c = (case c of
      None \<Rightarrow> ret ()
    | Some counted \<Rightarrow>
        if attempts_made e + 1 < max_attempts e then ret ()
        else andthen (tell (MoveToDlq (event_id e) (fail_error counted))) (\<lambda>_.
          case sink e (fail_error counted) of None \<Rightarrow> ret ()
          | Some err \<Rightarrow> if is_exception err then ret () else throw err))"
    for c
  have "quiet (handle c)" for c
    unfolding handle_def
    by (cases c; simp only: option.case; intro quiet_intros quiet_sink [OF assms])
  moreover have "dlq_event_end sink e s =
      handle (List.find (\<lambda>f. fail_id f = event_id e) (failed_counted (w_ctx s))) s" for s
    by (simp add: handle_def dlq_event_end_def split: option.split)
  ultimately show ?thesis
    by (rule quiet_read [where f = "\<lambda>s. handle (List.find (\<lambda>f. fail_id f = event_id e) (failed_counted (w_ctx s)))"])
qed

lemma quiet_step_dlq: "sink_ok sink \<Longrightarrow> quiet_step (dlq_step sink)"
  by (simp add: quiet_step_def quiet_hooks_def dlq_step_def base_processing_step_def quiet_ret quiet_dlq)

lemma quiet_otel_start: "quiet (otel_event_start b e)"
  unfolding otel_event_start_def quiet_def andthen_def tell_def set_spans_def
  by (simp add: untouched_def later_same)

lemma quiet_otel_end: "quiet (otel_event_end e)"
  unfolding otel_event_end_def quiet_def andthen_def tell_def set_spans_def
  by (simp add: untouched_def later_same)

lemma quiet_close_spans: "quiet close_dangling_spans"
  by (rule quiet_read [where f = "\<lambda>t. andthen (in_order (map (\<lambda>i. tell (SpanEnd i ABANDONED)) (w_spans t)))
        (\<lambda>_. set_spans [])"])
    (auto simp: close_dangling_spans_def intro!: quiet_intros)

lemma quiet_step_otel: "quiet_step (otel_step b)"
  by (simp add: quiet_step_def quiet_hooks_def otel_step_def base_processing_step_def quiet_otel_start
      quiet_otel_end quiet_close_spans)

lemma quiet_emit: "collects refuses \<Longrightarrow> quiet (emit refuses x)"
  by (simp add: emit_def collects_def quiet_tell)

lemma quiet_report_completed:
  assumes "collects refuses"
  shows "quiet (report_completed refuses now i)"
proof (rule quiet_read)
  fix t :: "'a world"
  let ?ty = "event_types (w_metrics t) i" and ?st = "statuses (w_ctx t) i"
  show "quiet (andthen (case start_times (w_metrics t) i of
        None \<Rightarrow> ret ()
      | Some u \<Rightarrow> if u = 0 then ret () else emit refuses (ObserveDuration (now - u) ?ty))
    (\<lambda>_. emit refuses (IncProcessed ?ty ?st)))"
    using quiet_emit [OF assms] by (auto intro!: quiet_intros split: option.split)
qed (simp add: report_completed_def Let_def)

lemma quiet_reports:
  assumes "collects refuses"
  shows "quiet (report_failed refuses i)" "quiet (report_skipped refuses i)"
  using quiet_emit [OF assms]
  by (rule quiet_read, simp add: report_failed_def, rule quiet_read, simp add: report_skipped_def)

lemma quiet_metrics_end:
  assumes "collects refuses"
  shows "quiet (metrics_batch_end refuses)"
  unfolding metrics_batch_end_def Let_def
proof (rule quiet_finally, rule quiet_perf_counter, rule quiet_read)
  fix now and t :: "'a world"
  show "quiet (in_order (map (report_completed refuses now) (completed_ids (w_ctx t)) @
      map (report_failed refuses \<circ> fail_id) (failed_counted (w_ctx t)) @
      map (report_failed refuses \<circ> fail_id) (failed_noncounted (w_ctx t)) @
      map (report_skipped refuses) (sorted_list_of_set (skipped_ids (w_ctx t)))))"
    using quiet_report_completed [OF assms] quiet_reports [OF assms]
    by (intro quiet_in_order) (auto simp del: set_sorted_list_of_set)
qed (simp_all add: quiet_set_metrics)

lemma metrics_execute_next: "\<exists>s'. metrics_execute e s = (Inr step_next, s') \<and> untouched s s'"
  by (simp add: metrics_execute_def andthen_def perf_counter_def set_metrics_def untouched_def later_same)

lemma quiet_step_metrics: "collects refuses \<Longrightarrow> quiet_step (metrics_step refuses)"
  using quiet_metrics_end [of refuses]
  by (simp add: quiet_step_def quiet_hooks_def metrics_step_def base_processing_step_def quiet_ret
      quiet_set_metrics metrics_execute_next)

section \<open>Through the pipeline\<close>

lemma on_event_start_quiet: "(\<And>st. st \<in> set steps \<Longrightarrow> quiet_hooks st) \<Longrightarrow> quiet (on_event_start steps e)"
  unfolding on_event_start_def
  by (rule quiet_in_order) (force simp: quiet_hooks_def List.map_filter_def)

lemma on_event_end_quiet: "(\<And>st. st \<in> set steps \<Longrightarrow> quiet_hooks st) \<Longrightarrow> quiet (on_event_end steps e)"
  unfolding on_event_end_def
  by (rule quiet_in_order) (force simp: quiet_hooks_def List.map_filter_def)

lemma on_batch_start_quiet: "(\<And>st. st \<in> set steps \<Longrightarrow> quiet_hooks st) \<Longrightarrow> quiet (on_batch_start steps)"
  unfolding on_batch_start_def
  by (rule quiet_in_order) (force simp: quiet_hooks_def List.map_filter_def)

lemma on_batch_end_quiet: "(\<And>st. st \<in> set steps \<Longrightarrow> quiet_hooks st) \<Longrightarrow> quiet (on_batch_end steps)"
  unfolding on_batch_end_def
  by (rule quiet_in_order) (force simp: quiet_hooks_def List.map_filter_def)

text \<open>With quiet hooks an event ends as its steps end.\<close>

lemma process_event_steps:
  assumes "\<And>st. st \<in> set steps \<Longrightarrow> quiet_hooks st"
  obtains s1 r s2 s3 where "untouched s s1" and "execute_steps steps e s1 = (r, s2)"
    and "process_event steps e s = (r, s3)" and "untouched s2 s3"
proof -
  obtain s1 where s1: "on_event_start steps e s = (Inr (), s1)" "untouched s s1"
    using on_event_start_quiet [OF assms] by (rule quietE)
  obtain r s2 where s2: "execute_steps steps e s1 = (r, s2)"
    by fastforce
  obtain s3 where s3: "on_event_end steps e s2 = (Inr (), s3)" "untouched s2 s3"
    using on_event_end_quiet [OF assms] by (rule quietE)
  have "process_event steps e s = (r, s3)"
    using s1 s2 s3 by (simp add: process_event_def andthen_def finally_do_def)
  with s1 s2 s3 that show thesis by blast
qed

lemma execute_quiet_prefix:
  assumes "list_all quiet_step pre"
  obtains s1 where "untouched s s1" and "execute_steps (pre @ sts) e s = execute_steps sts e s1"
  using assms
proof (induction pre arbitrary: s thesis)
  case Nil
  show ?case
    by (rule Nil.prems(1) [of s]) simp_all
next
  case (Cons st pre)
  have "quiet_step st"
    using Cons.prems(2) by simp
  then obtain s1 where s1: "execute st e s = (Inr step_next, s1)" "untouched s s1"
    unfolding quiet_step_def by blast
  obtain s2 where "untouched s1 s2" "execute_steps (pre @ sts) e s1 = execute_steps sts e s2"
    using Cons.IH [of s1] Cons.prems(2) by auto
  then show ?case
    using Cons.prems(1) [of s2] s1 untouched_trans [of s s1 s2] by (simp add: andthen_def step_next_def)
qed

lemma execute_quiet_steps:
  assumes "list_all quiet_step sts"
  obtains s1 where "untouched s s1" and "execute_steps sts e s = (Inr (), s1)"
  using execute_quiet_prefix [OF assms, of s "[]" e] by simp metis

text \<open>The steps the factories put around the working one are quiet.\<close>

definition plain_options :: "('db, 'x) factory_options \<Rightarrow> bool" where
  "plain_options opts \<longleftrightarrow> pred_option sink_ok (fo_dlq opts) \<and> pred_option collects (fo_metrics opts) \<and>
     list_all quiet_step (fo_before opts) \<and> list_all quiet_step (fo_after opts)"

definition steps_before :: "('db, 'x) factory_options \<Rightarrow> ('db world, 'x base_event_scheme) step list" where
  "steps_before opts = opt_step (fo_dlq opts) dlq_step @ fo_before opts"

definition steps_after :: "('db, 'x) factory_options \<Rightarrow> ('db world, 'x base_event_scheme) step list" where
  "steps_after opts = fo_after opts @ opt_step (fo_metrics opts) metrics_step"

lemma factory_steps_split:
  "factory_steps opts br core = opt_step (fo_otel opts) otel_step @ opt_step br circuit_breaker_step @
     steps_before opts @ core @ steps_after opts"
  by (simp add: factory_steps_def steps_before_def steps_after_def)

lemma quiet_opt_step: "pred_option p x \<Longrightarrow> (\<And>a. p a \<Longrightarrow> quiet_step (f a)) \<Longrightarrow> list_all quiet_step (opt_step x f)"
  by (cases x) (simp_all add: opt_step_def)

lemma quiet_otel: "list_all quiet_step (opt_step x otel_step)"
  by (cases x) (simp_all add: opt_step_def quiet_step_otel)

lemma quiet_before: "plain_options opts \<Longrightarrow> list_all quiet_step (steps_before opts)"
  using quiet_opt_step quiet_step_dlq by (auto simp: plain_options_def steps_before_def)

lemma quiet_after: "plain_options opts \<Longrightarrow> list_all quiet_step (steps_after opts)"
  using quiet_opt_step quiet_step_metrics by (auto simp: plain_options_def steps_after_def)

lemma quiet_step_hooks: "list_all quiet_step sts \<Longrightarrow> st \<in> set sts \<Longrightarrow> quiet_hooks st"
  by (auto simp: list_all_iff quiet_step_def)

end
