(* ===== verification/Accounting.thy ===== *)
theory Accounting
  imports Quiet Fetching
begin

text \<open>
  The record of a batch: in every pipeline the factories build, each event of the batch ends up exactly
  once among the completed, the failed and the skipped ones, and is completed only if its handler
  succeeded.
\<close>

section \<open>The ledger\<close>

type_synonym ledger = "uuid list \<times> uuid list \<times> uuid list \<times> uuid set"

definition ledger :: "batch_context \<Rightarrow> ledger" where
  "ledger c = (completed_ids c, map fail_id (failed_counted c), map fail_id (failed_noncounted c), skipped_ids c)"

text \<open>One more entry, for \<open>i\<close>; a completion only if it may be one.\<close>

inductive enters :: "bool \<Rightarrow> uuid \<Rightarrow> ledger \<Rightarrow> ledger \<Rightarrow> bool" for success :: bool and i :: uuid where
  completed: "success \<Longrightarrow> enters success i (cs, fs, ns, ss) (cs @ [i], fs, ns, ss)"
| counted: "enters success i (cs, fs, ns, ss) (cs, fs @ [i], ns, ss)"
| noncounted: "enters success i (cs, fs, ns, ss) (cs, fs, ns @ [i], ss)"
| skipped: "enters success i (cs, fs, ns, ss) (cs, fs, ns, insert i ss)"

inductive_cases entersE: "enters success i (cs, fs, ns, ss) l"

lemma set_status_lists [simp]:
  "completed_ids (set_status i st c) = completed_ids c"
  "failed_counted (set_status i st c) = failed_counted c"
  "failed_noncounted (set_status i st c) = failed_noncounted c"
  "skipped_ids (set_status i st c) = skipped_ids c"
  "ctx_extra (set_status i st c) = ctx_extra c"
  "ctx_worker_id (set_status i st c) = ctx_worker_id c"
  by (simp_all add: set_status_def split: option.split)

lemma enters_marks:
  "success \<Longrightarrow> enters success i (ledger c) (ledger (ctx_mark_completed i st c))"
  "enters success i (ledger c) (ledger (ctx_mark_failed i err counts nxt st c))"
  "enters success i (ledger c) (ledger (ctx_mark_skipped i st c))"
  unfolding ctx_mark_completed_def ctx_mark_failed_def ctx_mark_skipped_def
  by (auto simp: ledger_def Let_def intro: enters.intros)

text \<open>The ledger accounts for the events \<open>I\<close>: once each, completed only within \<open>D\<close>.\<close>

fun accounts :: "uuid set \<Rightarrow> uuid set \<Rightarrow> ledger \<Rightarrow> bool" where
  "accounts D I (cs, fs, ns, ss) \<longleftrightarrow>
     distinct (cs @ fs @ ns) \<and> set (cs @ fs @ ns) \<inter> ss = {} \<and> set (cs @ fs @ ns) \<union> ss = I \<and> set cs \<subseteq> D"

lemma accounts_new: "accounts D {} (ledger (new_context w))"
  by (simp add: ledger_def new_context_def)

lemma accounts_enters:
  "enters success i l l' \<Longrightarrow> accounts D I l \<Longrightarrow> i \<notin> I \<Longrightarrow> (success \<Longrightarrow> i \<in> D) \<Longrightarrow> accounts D (insert i I) l'"
  by (induction rule: enters.induct) auto

lemma accounts_skip:
  "accounts D I (cs, fs, ns, ss) \<Longrightarrow> J \<inter> I = {} \<Longrightarrow> accounts D (I \<union> J) (cs, fs, ns, ss \<union> J)"
  by auto

lemma accounts_mono: "accounts D I l \<Longrightarrow> D \<subseteq> D' \<Longrightarrow> accounts D' I l"
  by (cases l) auto

section \<open>What a handler does to the database\<close>

text \<open>A relation between the database before and after that any number of calls keep.\<close>

locale db_frame =
  fixes frame :: "'db \<Rightarrow> 'db \<Rightarrow> bool"
  assumes frame_refl: "frame db db"
    and frame_trans: "frame a b \<Longrightarrow> frame b c \<Longrightarrow> frame a c"

text \<open>The clocks read real times: no sum with a delay of up to a year passes the year 9999.\<close>

definition LONGEST_DELAY :: rat where
  "LONGEST_DELAY = 31536000"

definition sane_world :: "'db world \<Rightarrow> bool" where
  "sane_world s \<longleftrightarrow> (\<forall>n. w_times s n \<le> DATETIME_MAX - 31536001 * us_per_s) \<and>
     (\<forall>n. 0 \<le> w_random s n \<and> w_random s n < 1)"

lemma sane_later: "sane_world s \<Longrightarrow> later s s' \<Longrightarrow> sane_world s'"
  by (auto simp: sane_world_def later_def)

lemma sane_untouched: "sane_world s \<Longrightarrow> untouched s s' \<Longrightarrow> sane_world s'"
  by (auto simp: untouched_def intro: sane_later)

text \<open>The step from \<open>s\<close> to \<open>s'\<close> enters \<open>i\<close>, and does to the database what the frame allows.\<close>

definition moves :: "bool \<Rightarrow> ('db \<Rightarrow> 'db \<Rightarrow> bool) \<Rightarrow> uuid \<Rightarrow> 'db world \<Rightarrow> 'db world \<Rightarrow> bool" where
  "moves success frame i s s' \<longleftrightarrow> later s s' \<and> frame (w_db s) (w_db s') \<and>
     enters success i (ledger (w_ctx s)) (ledger (w_ctx s'))"

text \<open>A computation that enters \<open>i\<close>, as completed only if there is evidence for it in the database it leaves.\<close>

definition records :: "('db \<Rightarrow> bool) \<Rightarrow> ('db \<Rightarrow> 'db \<Rightarrow> bool) \<Rightarrow> uuid \<Rightarrow> ('db world, unit) act \<Rightarrow> bool" where
  "records ev frame i m \<longleftrightarrow>
     (\<forall>s. sane_world s \<longrightarrow> (\<exists>s'. m s = (Inr (), s') \<and> moves (ev (w_db s')) frame i s s'))"

lemma recordsE:
  "records ev frame i m \<Longrightarrow> sane_world s \<Longrightarrow>
     (\<And>s'. m s = (Inr (), s') \<Longrightarrow> moves (ev (w_db s')) frame i s s' \<Longrightarrow> P) \<Longrightarrow> P"
  unfolding records_def by blast

lemma enters_mono: "enters b i l l' \<Longrightarrow> (b \<Longrightarrow> success) \<Longrightarrow> enters success i l l'"
  by (induction rule: enters.induct) (auto intro: enters.intros)

lemma records_weaken: "records (\<lambda>_. False) frame i m \<Longrightarrow> records ev frame i m"
  unfolding records_def moves_def by (blast intro: enters_mono)

lemma moves_mono: "moves b frame i s s' \<Longrightarrow> (b \<Longrightarrow> success) \<Longrightarrow> moves success frame i s s'"
  unfolding moves_def by (blast intro: enters_mono)

lemma moves_untouched:
  "untouched s s1 \<Longrightarrow> moves success frame i s1 s2 \<Longrightarrow> untouched s2 s3 \<Longrightarrow> moves success frame i s s3"
  by (auto simp: moves_def untouched_def intro: later_trans)

text \<open>The calls of a handler keep the frame and are not cancelled.\<close>

definition benign :: "('db \<Rightarrow> 'db \<Rightarrow> bool) \<Rightarrow> ('db, 'e) handler \<Rightarrow> 'e \<Rightarrow> bool" where
  "benign frame h e \<longleftrightarrow> (\<forall>db. frame db (snd (h e db)) \<and>
     (case fst (h e db) of Inl err \<Rightarrow> is_exception err | Inr _ \<Rightarrow> True))"

fun call_succeeded :: "error + handler_result option \<Rightarrow> bool" where
  "call_succeeded (Inl _) = False"
| "call_succeeded (Inr raw) = (res_processed (coerce_handler_outcome raw) \<and> res_success (coerce_handler_outcome raw))"

definition succeeds :: "('db, 'e) handler \<Rightarrow> 'e \<Rightarrow> bool" where
  "succeeds h e \<longleftrightarrow> (\<exists>db. call_succeeded (fst (h e db)))"

text \<open>A call that succeeds leaves evidence of it.\<close>

definition leaves :: "('e \<Rightarrow> 'db \<Rightarrow> bool) \<Rightarrow> ('db, 'e) handler \<Rightarrow> 'e \<Rightarrow> bool" where
  "leaves evidence h e \<longleftrightarrow> (\<forall>db. call_succeeded (fst (h e db)) \<longrightarrow> evidence e (snd (h e db)))"

lemma leaves_succeeds: "leaves (\<lambda>e _. succeeds h e) h e"
  by (auto simp: leaves_def succeeds_def)

definition backoff_ok :: "('db, 'x base_event_scheme) handler_config \<Rightarrow> 'x base_event_scheme \<Rightarrow> bool" where
  "backoff_ok hc e \<longleftrightarrow> 0 \<le> hc_backoff_base hc \<and> 0 < hc_backoff_cap hc \<and> hc_backoff_cap hc \<le> LONGEST_DELAY \<and>
     0 \<le> attempts_made e \<and> attempts_made e < 1024"

text \<open>The search for siblings returns.\<close>

definition check_ok :: "('db \<Rightarrow> 'db \<Rightarrow> bool) \<Rightarrow> (pystr \<Rightarrow> pystr \<Rightarrow> uuid \<Rightarrow> ('db, bool) act) \<Rightarrow> bool" where
  "check_ok frame check \<longleftrightarrow> (\<forall>m g i db. \<exists>found db'. check m g i db = (Inr found, db') \<and> frame db db')"

section \<open>The backoff of a step\<close>

lemma to_us_le: "to_us s \<le> \<lfloor>s * of_int us_per_s\<rfloor> + 1"
  by (simp add: to_us_def Let_def)

lemma equal_jitter:
  assumes "0 \<le> attempt" "attempt < 1024" "0 < base" "0 < cap" "0 \<le> u" "u < 1"
  shows "\<exists>d. calculate_backoff_with_jitter attempt base cap Equal u = Inr d \<and> 0 \<le> d \<and> d \<le> cap"
proof -
  define D where "D = min cap (base * 2 ^ nat attempt)"
  have "0 < D" "D \<le> cap"
    using assms by (simp_all add: D_def)
  moreover have "0 \<le> uniform 0 (D / 2) u" "uniform 0 (D / 2) u \<le> D / 2"
    using uniform_bounds [OF assms(5,6), of 0 "D / 2"] \<open>0 < D\<close> by auto
  ultimately have "0 \<le> D / 2 + uniform 0 (D / 2) u" "D / 2 + uniform 0 (D / 2) u \<le> cap"
    by linarith+
  then show ?thesis
    using assms by (simp add: calculate_backoff_with_jitter_def exponential_def Let_def D_def)
qed

lemma plus_seconds_ok:
  assumes "0 \<le> d" "d \<le> LONGEST_DELAY" "now \<le> DATETIME_MAX - 31536001 * us_per_s"
  shows "plus_seconds now d = Inr (now + to_us d)"
proof -
  have "d * of_int us_per_s \<le> LONGEST_DELAY * of_int us_per_s"
    using assms(2) by (intro mult_right_mono) (simp_all add: us_per_s_def)
  then have "\<lfloor>d * of_int us_per_s\<rfloor> \<le> 31536000 * us_per_s"
    by (simp add: floor_le_iff LONGEST_DELAY_def us_per_s_def)
  then have "to_us d \<le> 31536000 * us_per_s + 1"
    using to_us_le [of d] by linarith
  then show ?thesis
    using assms(3) by (simp add: plus_seconds_def us_per_s_def)
qed

lemma backoff_returns:
  assumes "backoff_ok hc e" and "sane_world s"
  shows "\<exists>t s'. backoff hc e s = (Inr t, s') \<and> untouched s s'"
proof (cases "hc_backoff_base hc = 0")
  case False
  have u: "0 \<le> w_random s 0" "w_random s 0 < 1" and now: "w_times s 0 \<le> DATETIME_MAX - 31536001 * us_per_s"
    using assms(2) by (auto simp: sane_world_def)
  obtain d where d: "calculate_backoff_with_jitter (attempts_made e) (hc_backoff_base hc)
      (hc_backoff_cap hc) Equal (w_random s 0) = Inr d" "0 \<le> d" "d \<le> hc_backoff_cap hc"
    using equal_jitter [of "attempts_made e" "hc_backoff_base hc" "hc_backoff_cap hc" "w_random s 0"]
      assms(1) u False by (auto simp: backoff_ok_def)
  then have "d \<le> LONGEST_DELAY"
    using assms(1) by (simp add: backoff_ok_def)
  from plus_seconds_ok [OF d(2) this now] d(1) False show ?thesis
    by (simp add: backoff_def andthen_def random_def utc_now_def untouched_def later_def)
      (intro conjI exI [of _ 1]; simp)
qed (simp add: backoff_def)

section \<open>The working steps\<close>

lemma update_ctx_returns: "update_ctx f s = (Inr (), s\<lparr>w_ctx := f (w_ctx s)\<rparr>)"
  by (simp add: update_ctx_def)

context db_frame
begin

lemma records_ctx: "(\<And>c db. enters (ev db) i (ledger c) (ledger (f c))) \<Longrightarrow> records ev frame i (update_ctx f)"
  unfolding records_def by (simp add: update_ctx_returns moves_def later_same frame_refl)

lemma records_after:
  assumes "\<And>s. sane_world s \<Longrightarrow> \<exists>a s'. m s = (Inr a, s') \<and> untouched s s'"
    and "\<And>a. records ev frame i (f a)"
  shows "records ev frame i (andthen m f)"
  unfolding records_def
proof (intro allI impI)
  fix s :: "'db world"
  assume s: "sane_world s"
  obtain a s1 where s1: "m s = (Inr a, s1)" "untouched s s1"
    using assms(1) [OF s] by blast
  obtain s2 where "f a s1 = (Inr (), s2)" "moves (ev (w_db s2)) frame i s1 s2"
    using assms(2) sane_untouched [OF s s1(2)] by (rule recordsE)
  with s1 show "\<exists>s'. andthen m f s = (Inr (), s') \<and> moves (ev (w_db s')) frame i s s'"
    using moves_untouched [OF s1(2)] by (auto simp: andthen_def)
qed

lemma utc_now_returns: "\<exists>a s'. utc_now s = (Inr a, s') \<and> untouched s s'"
  unfolding utc_now_def untouched_def later_def by (auto intro: exI [of _ 0] exI [of _ 1])

lemma records_timed_out: "backoff_ok hc e \<Longrightarrow> records ev frame (event_id e) (timed_out hc e)"
  unfolding timed_out_def by (intro records_after records_ctx enters_marks backoff_returns)

lemma records_retry_later: "records ev frame (event_id e) (retry_later e err)"
  unfolding retry_later_def by (intro records_after records_ctx enters_marks utc_now_returns)

lemma records_publisher_retry: "records ev frame (event_id e) (publisher_retry_later e err)"
  unfolding records_def
proof (intro allI impI)
  fix s :: "'db world"
  assume "sane_world s"
  with records_retry_later obtain s1 where s1: "retry_later e err s = (Inr (), s1)"
    "moves (ev (w_db s1)) frame (event_id e) s s1"
    by (rule recordsE)
  then show "\<exists>s'. publisher_retry_later e err s = (Inr (), s') \<and> moves (ev (w_db s')) frame (event_id e) s s'"
    by (simp add: publisher_retry_later_def andthen_def update_ctx_returns moves_def later_def ledger_def)
qed

lemma records_outcome:
  assumes "backoff_ok hc e" and "res_processed r \<Longrightarrow> res_success r \<Longrightarrow> success"
  shows "records (\<lambda>_. success) frame (event_id e) (record_outcome hc e r)"
proof -
  have "records (\<lambda>_. success) frame (event_id e) (andthen (if p then backoff hc e else ret t) (\<lambda>next_retry_at.
      update_ctx (ctx_mark_failed (event_id e) err c next_retry_at st)))" for p t err c st
    by (intro records_after records_ctx enters_marks)
      (use backoff_returns [OF assms(1)] in auto)
  then show ?thesis
    unfolding record_outcome_def using assms(2) by (auto intro!: records_ctx enters_marks)
qed

lemma execute_worker:
  assumes "\<And>s. sane_world s \<Longrightarrow> \<exists>s'. execute st e s = (Inr step_next, s') \<and> moves (ev (w_db s')) frame i s s'"
    and "list_all quiet_step post"
  shows "records ev frame i (execute_steps (st # post) e)"
  unfolding records_def
proof (intro allI impI)
  fix s :: "'db world"
  assume s: "sane_world s"
  obtain s1 where s1: "execute st e s = (Inr step_next, s1)" "moves (ev (w_db s1)) frame i s s1"
    using assms(1) [OF s] by blast
  obtain s2 where s2: "untouched s1 s2" "execute_steps post e s1 = (Inr (), s2)"
    using assms(2) by (rule execute_quiet_steps)
  then have "w_db s2 = w_db s1"
    by (simp add: untouched_def)
  with s1 s2 show "\<exists>s'. execute_steps (st # post) e s = (Inr (), s') \<and> moves (ev (w_db s')) frame i s s'"
    using moves_untouched [OF untouched_refl s1(2)] by (auto simp: andthen_def step_next_def)
qed

lemma execute_sibling:
  assumes "check_ok frame check" and "records ev frame (event_id e) (execute_steps sts e)"
  shows "records ev frame (event_id e) (execute_steps (sibling_step True (Some check) # sts) e)"
  unfolding records_def
proof (intro allI impI)
  fix s :: "'db world"
  assume s: "sane_world s"
  obtain found db' where c: "check (message_id e) (consumer_group e) (event_id e) (w_db s) = (Inr found, db')"
    and fr: "frame (w_db s) db'"
    using assms(1) unfolding check_ok_def by metis
  let ?s = "s\<lparr>w_db := db'\<rparr>"
  have call: "on_db (check (message_id e) (consumer_group e) (event_id e)) s = (Inr found, ?s)"
    using c by (simp add: on_db_def)
  show "\<exists>s'. execute_steps (sibling_step True (Some check) # sts) e s = (Inr (), s') \<and>
      moves (ev (w_db s')) frame (event_id e) s s'"
  proof (cases found)
    case True
    with call fr show ?thesis
      by (simp add: sibling_step_def andthen_def update_ctx_returns step_skip_def moves_def later_same enters_marks)
  next
    case False
    obtain s2 where s2: "execute_steps sts e ?s = (Inr (), s2)" "moves (ev (w_db s2)) frame (event_id e) ?s s2"
      using assms(2) by (rule recordsE [of _ _ _ _ ?s]) (use s in \<open>auto simp: sane_world_def\<close>)
    have "moves (ev (w_db s2)) frame (event_id e) s s2"
      using s2(2) fr frame_trans by (auto simp: moves_def later_def)
    with False call s2(1) show ?thesis
      by (simp add: sibling_step_def andthen_def step_next_def)
  qed
qed

lemma process_event_records:
  assumes "list_all quiet_step pre" and "\<And>st. st \<in> set mid \<Longrightarrow> quiet_hooks st"
    and "records ev frame i (execute_steps mid e)"
  shows "records ev frame i (process_event (pre @ mid) e)"
  unfolding records_def
proof (intro allI impI)
  fix s :: "'db world"
  assume s: "sane_world s"
  have hooks: "st \<in> set (pre @ mid) \<Longrightarrow> quiet_hooks st" for st
    using assms(1,2) quiet_step_hooks by auto
  obtain s1 r s2 s3 where s1: "untouched s s1" "execute_steps (pre @ mid) e s1 = (r, s2)"
    and s3: "process_event (pre @ mid) e s = (r, s3)" "untouched s2 s3"
    using hooks by (rule process_event_steps)
  obtain t where t: "untouched s1 t" "execute_steps (pre @ mid) e s1 = execute_steps mid e t"
    using assms(1) by (rule execute_quiet_prefix)
  have "untouched s t"
    using s1(1) t(1) by (rule untouched_trans)
  moreover obtain t2 where "execute_steps mid e t = (Inr (), t2)" "moves (ev (w_db t2)) frame i t t2"
    using assms(3) sane_untouched [OF s \<open>untouched s t\<close>] by (rule recordsE)
  moreover have "w_db s3 = w_db s2"
    using s3(2) by (simp add: untouched_def)
  ultimately show "\<exists>s'. process_event (pre @ mid) e s = (Inr (), s') \<and> moves (ev (w_db s')) frame i s s'"
    using s1 t s3 moves_untouched by auto
qed

end

text \<open>Evidence that a handler succeeded, which no later call of a handler takes back.\<close>

locale db_evidence = db_frame frame for frame :: "'db \<Rightarrow> 'db \<Rightarrow> bool" +
  fixes evidence :: "'x base_event_scheme \<Rightarrow> 'db \<Rightarrow> bool"
  assumes evidence_stays: "evidence e a \<Longrightarrow> frame a b \<Longrightarrow> evidence e b"
begin

text \<open>The handler step enters its event, whatever the handler does, and passes it on.\<close>

lemma handler_execute_records:
  assumes "benign frame (hc_handler hc) e" and "leaves evidence (hc_handler hc) e" and "backoff_ok hc e"
    and "records (\<lambda>_. False) frame (event_id e) (on_timeout e)"
    and "\<And>err. records (\<lambda>_. False) frame (event_id e) (on_transient e err)" and "sane_world s"
  shows "\<exists>s'. handler_execute hc on_timeout on_transient e s = (Inr step_next, s') \<and>
    moves (evidence e (w_db s')) frame (event_id e) s s'"
proof -
  obtain r db' where call: "hc_handler hc e (w_db s) = (r, db')"
    by fastforce
  let ?s = "s\<lparr>w_db := db'\<rparr>" and ?ok = "call_succeeded r"
  have fr: "frame (w_db s) db'" and exc: "r = Inl err \<Longrightarrow> is_exception err" for err
    using assms(1) call by (auto simp: benign_def dest: spec [of _ "w_db s"])
  have sane: "sane_world ?s"
    using assms(6) by (simp add: sane_world_def)
  define body where "body = (case r of
      Inr raw \<Rightarrow> record_outcome hc e (coerce_handler_outcome raw)
    | Inl err \<Rightarrow>
        if is_transient_error err then on_transient e (hc_err_text hc err)
        else if is_timeout err then on_timeout e
        else andthen (backoff hc e) (\<lambda>next_retry_at. update_ctx (ctx_mark_failed (event_id e)
          (Some (hc_err_name hc err @ lit '': '' @ hc_err_text hc err)) True next_retry_at (Some STATUS_FAILED))))"
  have "records (\<lambda>_. ?ok) frame (event_id e) body"
  proof (cases r)
    case (Inr raw)
    then show ?thesis
      using records_outcome [OF assms(3), of "coerce_handler_outcome raw" ?ok] by (simp add: body_def)
  next
    case (Inl err)
    have "records (\<lambda>_. ?ok) frame (event_id e) (andthen (backoff hc e) (\<lambda>next_retry_at. update_ctx
        (ctx_mark_failed (event_id e) msg True next_retry_at (Some STATUS_FAILED))))" for msg
      by (intro records_after records_ctx enters_marks backoff_returns [OF assms(3)])
    with Inl records_weaken [OF assms(4)] records_weaken [OF assms(5)] show ?thesis
      by (simp add: body_def)
  qed
  then obtain s2 where s2: "body ?s = (Inr (), s2)" "moves ?ok frame (event_id e) ?s s2"
    using sane by (rule recordsE)
  have "handler_execute hc on_timeout on_transient e s = (Inr step_next, s2)"
    using call s2(1) exc
    by (cases r) (auto simp: handler_execute_def body_def andthen_def catch_def on_db_def split: if_splits)
  moreover have "?ok \<Longrightarrow> evidence e (w_db s2)"
    using assms(2) call evidence_stays [of e db' "w_db s2"] s2(2)
    by (auto simp: leaves_def moves_def dest: spec [of _ "w_db s"])
  moreover have "moves ?ok frame (event_id e) s s2"
    using s2(2) fr frame_trans by (auto simp: moves_def later_def)
  ultimately show ?thesis
    using moves_mono by blast
qed

lemma publisher_execute_records:
  assumes "benign frame (hc_handler hc) e" and "leaves evidence (hc_handler hc) e" and "backoff_ok hc e"
    and "sane_world s"
  shows "\<exists>s'. publisher_execute hc e s = (Inr step_next, s') \<and>
    moves (evidence e (w_db s')) frame (event_id e) s s'"
proof (cases "ctx_extra (w_ctx s) DEFERRED_BROKER_ERROR")
  case None
  have "records (\<lambda>_. False) frame (event_id e) (publisher_timed_out hc e)"
    by (simp add: publisher_timed_out_def records_publisher_retry)
  from handler_execute_records [where on_timeout = "publisher_timed_out hc" and
      on_transient = publisher_retry_later and hc = hc and e = e, OF assms(1-3) this
      records_publisher_retry assms(4)] None
  show ?thesis
    by (simp add: publisher_execute_def)
next
  case (Some err)
  then show ?thesis
    by (simp add: publisher_execute_def andthen_def update_ctx_returns moves_def later_same frame_refl enters_marks)
qed

end

section \<open>Batches\<close>

text \<open>The request to shut down is a question: it answers and changes nothing.\<close>

definition polls :: "('db world, bool) act option \<Rightarrow> bool" where
  "polls shutdown \<longleftrightarrow> (case shutdown of None \<Rightarrow> True
     | Some f \<Rightarrow> \<forall>s. \<exists>b s'. f s = (Inr b, s') \<and> untouched s s')"

lemma pollsE:
  assumes "polls shutdown"
  obtains b s' where "(case shutdown of None \<Rightarrow> ret False | Some f \<Rightarrow> f) s = (Inr b, s')" "untouched s s'"
  using assms by (cases shutdown) (auto simp: polls_def dest: spec [of _ s])

text \<open>What a pipeline promises its processor: each event it is given it enters in the record.\<close>

locale recorder = db_evidence frame evidence
  for frame :: "'db \<Rightarrow> 'db \<Rightarrow> bool" and evidence :: "'x base_event_scheme \<Rightarrow> 'db \<Rightarrow> bool" +
  fixes steps :: "('db world, 'x base_event_scheme) step list" and ok :: "'x base_event_scheme \<Rightarrow> bool"
  assumes enters_event: "ok e \<Longrightarrow> records (evidence e) frame (event_id e) (process_event steps e)"
    and quiet_start: "ok e \<Longrightarrow> quiet (on_batch_start steps)"
    and quiet_end: "ok e \<Longrightarrow> quiet (on_batch_end steps)"
begin

text \<open>The ids whose completion is proved in a state.\<close>

definition proved :: "'x base_event_scheme set \<Rightarrow> 'db world \<Rightarrow> uuid set" where
  "proved X s = {i. \<exists>e\<in>X. event_id e = i \<and> evidence e (w_db s)}"

lemma proved_mono: "frame (w_db s) (w_db s') \<Longrightarrow> proved X s \<subseteq> proved X s'"
  using evidence_stays by (auto simp: proved_def)

lemma loop_accounts:
  assumes "sane_world s" and "list_all ok es" and "distinct (map event_id es)" and "polls shutdown"
    and "accounts (proved X s) I (ledger (w_ctx s))" and "event_id ` set es \<inter> I = {}" and "set es \<subseteq> X"
  shows "\<exists>s'. event_loop steps shutdown es s = (Inr (), s') \<and> later s s' \<and> frame (w_db s) (w_db s') \<and>
    accounts (proved X s') (I \<union> event_id ` set es) (ledger (w_ctx s'))"
  using assms
proof (induction es arbitrary: s I)
  case Nil
  then show ?case by (simp add: later_same frame_refl)
next
  case (Cons e es)
  have fresh: "event_id e \<notin> I" "event_id e \<notin> event_id ` set es"
    using Cons.prems(3,6) by auto
  obtain cs fs ns ss where l: "ledger (w_ctx s) = (cs, fs, ns, ss)"
    by (metis prod_cases4)
  then have ss: "skipped_ids (w_ctx s) = ss"
    by (simp add: ledger_def)
  then have noskip: "event_id e \<notin> skipped_ids (w_ctx s)"
    using Cons.prems(5) fresh l by auto
  obtain b s1 where s1: "(case shutdown of None \<Rightarrow> ret False | Some f \<Rightarrow> f) s = (Inr b, s1)"
    and u1: "untouched s s1"
    using Cons.prems(4) by (rule pollsE)
  show ?case
  proof (cases b)
    case True
    let ?J = "event_id ` set (e # es)"
    let ?f = "\<lambda>c. c\<lparr>skipped_ids := skipped_ids c \<union> {i \<in> ?J. i \<notin> skipped_ids c}\<rparr>"
    have "ledger (?f (w_ctx s1)) = (cs, fs, ns, ss \<union> ?J)"
      using l u1 by (auto simp: ledger_def untouched_def)
    then have "accounts (proved X s) (I \<union> ?J) (ledger (?f (w_ctx s1)))"
      using accounts_skip [of "proved X s" I cs fs ns ss ?J] Cons.prems(5,6) l by simp
    then show ?thesis
      using True s1 noskip u1 frame_refl
      by (simp add: andthen_def update_ctx_returns untouched_def later_def proved_def)
  next
    case False
    obtain s2 where s2: "process_event steps e s1 = (Inr (), s2)"
      and m: "moves (evidence e (w_db s2)) frame (event_id e) s1 s2"
      using enters_event sane_untouched [OF Cons.prems(1) u1] Cons.prems(2) by (auto elim!: recordsE)
    have m': "moves (evidence e (w_db s2)) frame (event_id e) s s2"
      using moves_untouched [OF u1 m untouched_refl] .
    have "accounts (proved X s2) I (ledger (w_ctx s))"
      using accounts_mono [OF Cons.prems(5)] proved_mono m' by (simp add: moves_def)
    then have "accounts (proved X s2) (insert (event_id e) I) (ledger (w_ctx s2))"
      using m' fresh(1) Cons.prems(7)
      by (intro accounts_enters [where success = "evidence e (w_db s2)"]) (auto simp: moves_def proved_def)
    moreover have "sane_world s2"
      using sane_later [OF Cons.prems(1)] m' by (simp add: moves_def)
    ultimately obtain s3 where "event_loop steps shutdown es s2 = (Inr (), s3)" "later s2 s3"
        "frame (w_db s2) (w_db s3)" "accounts (proved X s3) (insert (event_id e) I \<union> event_id ` set es) (ledger (w_ctx s3))"
      using Cons.IH [of s2 "insert (event_id e) I"] Cons.prems fresh by auto
    with False s1 s2 noskip m' show ?thesis
      using later_trans frame_trans by (auto simp: andthen_def moves_def)
  qed
qed

lemma batch_accounts:
  assumes "sane_world s" and "es \<noteq> []" and "list_all ok es" and "distinct (map event_id es)"
    and "polls shutdown" and "w_ctx s = new_context w"
  shows "\<exists>s'. process_batch steps shutdown es s = (Inr (), s') \<and> frame (w_db s) (w_db s') \<and>
    accounts {i. \<exists>e\<in>set es. event_id e = i \<and> evidence e (w_db s')} (event_id ` set es) (ledger (w_ctx s'))"
proof -
  obtain e where e: "ok e"
    using assms(2,3) by (cases es) auto
  obtain s1 where s1: "on_batch_start steps s = (Inr (), s1)" "untouched s s1"
    using quiet_start [OF e] by (rule quietE)
  obtain s2 where s2: "event_loop steps shutdown es s1 = (Inr (), s2)" "frame (w_db s1) (w_db s2)"
      "accounts (proved (set es) s2) ({} \<union> event_id ` set es) (ledger (w_ctx s2))"
    using loop_accounts [OF sane_untouched [OF assms(1) s1(2)] assms(3,4,5), where I = "{}" and X = "set es"]
      s1(2) assms(6) accounts_new unfolding untouched_def by auto
  obtain s3 where s3: "on_batch_end steps s2 = (Inr (), s3)" "untouched s2 s3"
    using quiet_end [OF e] by (rule quietE)
  have "process_batch steps shutdown es s = (Inr (), s3)"
    using s1(1) s2(1) s3(1) by (simp add: process_batch_def andthen_def catch_def)
  with s1(2) s2 s3(2) show ?thesis
    by (auto simp: untouched_def proved_def)
qed

end

section \<open>The pipelines of the factories\<close>

definition worker_ok :: "('db \<Rightarrow> 'db \<Rightarrow> bool) \<Rightarrow> ('x base_event_scheme \<Rightarrow> 'db \<Rightarrow> bool) \<Rightarrow> ('db, 'x) factory_options \<Rightarrow>
    ('db, 'x base_event_scheme) handler_config \<Rightarrow> 'x base_event_scheme \<Rightarrow> bool" where
  "worker_ok frame evidence opts hc e \<longleftrightarrow> plain_options opts \<and> benign frame (hc_handler hc) e \<and>
     leaves evidence (hc_handler hc) e \<and> backoff_ok hc e"

lemma factory_hooks_quiet:
  assumes "plain_options opts" and "\<And>st. st \<in> set core \<Longrightarrow> quiet_hooks st"
    and "st \<in> set (factory_steps opts None core)"
  shows "quiet_hooks st"
  using assms(2,3) quiet_step_hooks [OF quiet_otel] quiet_step_hooks [OF quiet_before [OF assms(1)]]
    quiet_step_hooks [OF quiet_after [OF assms(1)]]
  by (auto simp: factory_steps_split opt_step_def [of None])

context db_frame
begin

lemma factory_records:
  assumes "plain_options opts" and "\<And>st. st \<in> set core \<Longrightarrow> quiet_hooks st"
    and "records ev frame i (execute_steps (core @ steps_after opts) e)"
  shows "records ev frame i (process_event (factory_steps opts None core) e)"
proof -
  let ?pre = "opt_step (fo_otel opts) otel_step @ steps_before opts"
  have "list_all quiet_step ?pre"
    using quiet_otel quiet_before [OF assms(1)] by simp
  then have "records ev frame i (process_event (?pre @ (core @ steps_after opts)) e)"
    using assms(2,3) quiet_step_hooks [OF quiet_after [OF assms(1)]] by (intro process_event_records) auto
  then show ?thesis
    by (simp add: factory_steps_split opt_step_def [of None])
qed

end

sublocale db_evidence \<subseteq> outbox: recorder frame evidence "factory_steps opts None [publisher_step hc]"
    "worker_ok frame evidence opts hc" for opts hc
proof unfold_locales
  fix e
  assume ok: "worker_ok frame evidence opts hc e"
  then have p: "plain_options opts"
    by (simp add: worker_ok_def)
  have hooks: "st \<in> set [publisher_step hc] \<Longrightarrow> quiet_hooks st" for st
    by simp
  show "records (evidence e) frame (event_id e)
      (process_event (factory_steps opts None [publisher_step hc]) e)"
    using ok execute_worker [OF _ quiet_after [OF p], of "publisher_step hc"]
    by (intro factory_records [OF p hooks])
      (auto simp: worker_ok_def publisher_step_def intro: publisher_execute_records)
  show "quiet (on_batch_start (factory_steps opts None [publisher_step hc]))"
    using factory_hooks_quiet [OF p hooks] by (rule on_batch_start_quiet)
  show "quiet (on_batch_end (factory_steps opts None [publisher_step hc]))"
    using factory_hooks_quiet [OF p hooks] by (rule on_batch_end_quiet)
qed

text \<open>The inbox pipeline, with or without the search for siblings.\<close>

definition inbox_core :: "(pystr \<Rightarrow> pystr \<Rightarrow> uuid \<Rightarrow> ('db, bool) act) option \<Rightarrow>
    ('db, inbox_event) handler_config \<Rightarrow> ('db world, inbox_event) step list" where
  "inbox_core check hc =
     (case check of None \<Rightarrow> [] | Some c \<Rightarrow> [sibling_step True (Some c)]) @ [handler_step hc]"

definition inbox_ok :: "('db \<Rightarrow> 'db \<Rightarrow> bool) \<Rightarrow> (inbox_event \<Rightarrow> 'db \<Rightarrow> bool) \<Rightarrow> (pystr \<Rightarrow> pystr \<Rightarrow> uuid \<Rightarrow> ('db, bool) act) option \<Rightarrow>
    ('db, unit inbox_event_ext) factory_options \<Rightarrow> ('db, inbox_event) handler_config \<Rightarrow> inbox_event \<Rightarrow> bool" where
  "inbox_ok frame evidence check opts hc e \<longleftrightarrow> worker_ok frame evidence opts hc e \<and> pred_option (check_ok frame) check"

locale inbox_evidence = db_evidence frame evidence
  for frame :: "'db \<Rightarrow> 'db \<Rightarrow> bool" and evidence :: "inbox_event \<Rightarrow> 'db \<Rightarrow> bool"
begin

lemma inbox_records:
  assumes "inbox_ok frame evidence check opts hc e"
  shows "records (evidence e) frame (event_id e)
    (process_event (factory_steps opts None (inbox_core check hc)) e)"
proof (rule factory_records)
  show p: "plain_options opts"
    using assms by (simp add: inbox_ok_def worker_ok_def)
  have b: "benign frame (hc_handler hc) e" "leaves evidence (hc_handler hc) e" "backoff_ok hc e"
    using assms by (simp_all add: inbox_ok_def worker_ok_def)
  have "records (evidence e) frame (event_id e)
      (execute_steps (handler_step hc # steps_after opts) e)"
    using handler_execute_records [where on_timeout = "timed_out hc" and on_transient = retry_later
        and hc = hc and e = e, OF b records_timed_out [OF b(3)] records_retry_later]
    by (intro execute_worker quiet_after [OF p]) (simp add: handler_step_def)
  then show "records (evidence e) frame (event_id e)
      (execute_steps (inbox_core check hc @ steps_after opts) e)"
    using assms execute_sibling by (auto simp: inbox_core_def inbox_ok_def split: option.split)
qed (auto simp: inbox_core_def split: option.splits)

end

sublocale inbox_evidence \<subseteq> inbox: recorder frame evidence "factory_steps opts None (inbox_core check hc)"
    "inbox_ok frame evidence check opts hc" for check opts hc
proof unfold_locales
  fix e
  assume ok: "inbox_ok frame evidence check opts hc e"
  then have p: "plain_options opts"
    by (simp add: inbox_ok_def worker_ok_def)
  have hooks: "st \<in> set (inbox_core check hc) \<Longrightarrow> quiet_hooks st" for st
    by (auto simp: inbox_core_def split: option.splits)
  show "records (evidence e) frame (event_id e)
      (process_event (factory_steps opts None (inbox_core check hc)) e)"
    using ok by (rule inbox_records)
  show "quiet (on_batch_start (factory_steps opts None (inbox_core check hc)))"
    using factory_hooks_quiet [OF p hooks] by (rule on_batch_start_quiet)
  show "quiet (on_batch_end (factory_steps opts None (inbox_core check hc)))"
    using factory_hooks_quiet [OF p hooks] by (rule on_batch_end_quiet)
qed

text \<open>Any database, and a table the handlers leave alone.\<close>

interpretation any_db: inbox_evidence "\<lambda>_ _. True" "\<lambda>e _. succeeds h e" for h :: "('db, inbox_event) handler"
  by unfold_locales auto

definition same_table :: "('db, 'r) engine \<Rightarrow> 'db \<Rightarrow> 'db \<Rightarrow> bool" where
  "same_table E db db' \<longleftrightarrow> table_rows E db' = table_rows E db \<and> same_session E db' db"

interpretation table: db_frame "same_table E :: 'db \<Rightarrow> _" for E :: "('db, 'r) engine"
  by unfold_locales (simp_all add: same_table_def same_session_def)

section \<open>A factory without options and a world to run it in\<close>

definition plain_factory :: "('db, 'x) factory_options" where
  "plain_factory = \<lparr>fo_metrics = None, fo_dlq = None, fo_otel = None, fo_breaker = None, fo_before = [], fo_after = []\<rparr>"

definition world_of :: "'db \<Rightarrow> 'db world" where
  "world_of db = \<lparr>w_db = db, w_ctx = new_context [], w_times = (\<lambda>_. 5), w_perf = (\<lambda>_. 0), w_random = (\<lambda>_. 0),
     w_breaker = closed_breaker, w_metrics = empty_metrics, w_spans = [], w_log = []\<rparr>"

lemma plain_factory_ok [simp]: "plain_options plain_factory" "fo_breaker plain_factory = None"
  by (simp_all add: plain_options_def plain_factory_def)

lemma world_of_sane [simp]: "sane_world (world_of db)"
  by (simp add: sane_world_def world_of_def DATETIME_MAX_def us_per_s_def)

lemma world_of_db [simp]: "w_db (world_of db) = db"
  by (simp add: world_of_def)

end
