(* ===== verification/StepProps.thy ===== *)
theory StepProps
  imports Accounting
begin

text \<open>
  What single steps promise in the pipelines of the factories: an unreachable broker ends the
  publishing of the batch, the circuit breaker opens at its threshold - and is closed again by the
  first event it rejects -, and the dead letter queue gets exactly the events that are given up.
\<close>

section \<open>One worker among quiet steps\<close>

text \<open>If the worker, started where quiet steps may have led, passes the event on and establishes \<open>Q\<close>, so
  does the whole event.\<close>

lemma worker_event:
  assumes "list_all quiet_step pre" and "quiet_hooks st" and "list_all quiet_step post"
    and work: "\<And>t. untouched s t \<Longrightarrow> \<exists>t'. execute st e t = (Inr step_next, t') \<and> later t t' \<and> Q t'"
    and stable: "\<And>t t'. Q t \<Longrightarrow> untouched t t' \<Longrightarrow> Q t'"
  shows "\<exists>s'. process_event (pre @ st # post) e s = (Inr (), s') \<and> later s s' \<and> Q s'"
proof -
  have hooks: "x \<in> set (pre @ st # post) \<Longrightarrow> quiet_hooks x" for x
    using assms(1-3) quiet_step_hooks by auto
  obtain s1 r s2 s3 where s1: "untouched s s1" "execute_steps (pre @ st # post) e s1 = (r, s2)"
    and s3: "process_event (pre @ st # post) e s = (r, s3)" "untouched s2 s3"
    using hooks by (rule process_event_steps)
  obtain t where t: "untouched s1 t" "execute_steps (pre @ st # post) e s1 = execute_steps (st # post) e t"
    using assms(1) by (rule execute_quiet_prefix)
  have st: "untouched s t"
    using s1(1) t(1) by (rule untouched_trans)
  obtain t1 where t1: "execute st e t = (Inr step_next, t1)" "later t t1" "Q t1"
    using work [OF st] by blast
  obtain t2 where t2: "untouched t1 t2" "execute_steps post e t1 = (Inr (), t2)"
    using assms(3) by (rule execute_quiet_steps)
  have "execute_steps (st # post) e t = (Inr (), t2)"
    using t1(1) t2(2) by (simp add: andthen_def step_next_def)
  then have "r = Inr ()" "s2 = t2"
    using s1(2) t(2) by auto
  moreover have "later s s3"
    using st t1(2) t2(1) s3(2) unfolding \<open>s2 = t2\<close> untouched_def by (meson later_trans)
  moreover have "Q s3"
    using stable [OF stable [OF t1(3) t2(1)]] s3(2) \<open>s2 = t2\<close> by simp
  ultimately show ?thesis
    using s3(1) by blast
qed

lemma factory_event:
  assumes "plain_options opts" and "quiet_hooks st"
    and "\<And>t. untouched s t \<Longrightarrow> \<exists>t'. execute st e t = (Inr step_next, t') \<and> later t t' \<and> Q t'"
    and "\<And>t t'. Q t \<Longrightarrow> untouched t t' \<Longrightarrow> Q t'"
  shows "\<exists>s'. process_event (factory_steps opts None [st]) e s = (Inr (), s') \<and> later s s' \<and> Q s'"
proof -
  let ?pre = "opt_step (fo_otel opts) otel_step @ steps_before opts"
  have "list_all quiet_step ?pre"
    using quiet_otel quiet_before [OF assms(1)] by simp
  from worker_event [OF this assms(2) quiet_after [OF assms(1)] assms(3,4)] show ?thesis
    by (simp add: factory_steps_split opt_step_def [of None])
qed

section \<open>A broker that does not answer\<close>

definition deferred :: "pystr \<Rightarrow> 'x base_event_scheme \<Rightarrow> failure_update" where
  "deferred err e = \<lparr>fail_id = event_id e, fail_error = text_or (Some err) (lit ''unknown error''), fail_retry_at = None\<rparr>"

lemma deferred_mark:
  "ctx_mark_failed (event_id e) (Some err) False None st c =
     set_status (event_id e) st (c\<lparr>failed_noncounted := failed_noncounted c @ [deferred err e]\<rparr>)"
  by (simp add: ctx_mark_failed_def deferred_def)

lemma deferred_event:
  assumes "plain_options opts" and "ctx_extra (w_ctx s) DEFERRED_BROKER_ERROR = Some err"
  shows "\<exists>s'. process_event (factory_steps opts None [publisher_step hc]) e s = (Inr (), s') \<and> w_db s' = w_db s \<and>
    w_ctx s' = ctx_mark_failed (event_id e) (Some err) False None (Some STATUS_RETRY) (w_ctx s)"
proof -
  let ?Q = "\<lambda>t. w_db t = w_db s \<and>
    w_ctx t = ctx_mark_failed (event_id e) (Some err) False None (Some STATUS_RETRY) (w_ctx s)"
  have "\<exists>s'. process_event (factory_steps opts None [publisher_step hc]) e s = (Inr (), s') \<and> later s s' \<and> ?Q s'"
  proof (rule factory_event [OF assms(1)])
    fix t
    assume "untouched s t"
    then show "\<exists>t'. execute (publisher_step hc) e t = (Inr step_next, t') \<and> later t t' \<and> ?Q t'"
      using assms(2) by (simp add: publisher_step_def publisher_execute_def andthen_def update_ctx_returns
          untouched_def later_same)
  qed (auto simp: untouched_def)
  then show ?thesis by blast
qed

lemma deferred_loop:
  assumes "plain_options opts" and "ctx_extra (w_ctx s) DEFERRED_BROKER_ERROR = Some err"
    and "event_id ` set es \<inter> skipped_ids (w_ctx s) = {}"
  shows "\<exists>s'. event_loop (factory_steps opts None [publisher_step hc]) None es s = (Inr (), s') \<and>
    w_db s' = w_db s \<and> completed_ids (w_ctx s') = completed_ids (w_ctx s) \<and>
    failed_counted (w_ctx s') = failed_counted (w_ctx s) \<and>
    failed_noncounted (w_ctx s') = failed_noncounted (w_ctx s) @ map (deferred err) es"
  using assms(2,3)
proof (induction es arbitrary: s)
  case (Cons e es)
  obtain s1 where s1: "process_event (factory_steps opts None [publisher_step hc]) e s = (Inr (), s1)" "w_db s1 = w_db s"
    and c1: "w_ctx s1 = ctx_mark_failed (event_id e) (Some err) False None (Some STATUS_RETRY) (w_ctx s)"
    using deferred_event [OF assms(1) Cons.prems(1)] by blast
  have "ctx_extra (w_ctx s1) DEFERRED_BROKER_ERROR = Some err" "event_id ` set es \<inter> skipped_ids (w_ctx s1) = {}"
    using Cons.prems by (simp_all add: c1 deferred_mark)
  from Cons.IH [OF this] show ?case
    using s1 Cons.prems(2) by (auto simp: andthen_def c1 deferred_mark)
qed simp

text \<open>C29. A broker that does not answer ends the publishing of the batch. When publishing an event ends in
  a \<open>TransientError\<close> or a timeout, neither it nor any later event of the batch spends an attempt: it is
  recorded with a retry time, the later ones with the same error and their schedules untouched, and the
  publisher is not called again (what it acts on is as the failed call left it).\<close>

theorem broker_outage_defers_batch:
  assumes "plain_options opts" and "ctx_extra (w_ctx s) DEFERRED_BROKER_ERROR = None"
    and "event_id ` set (e # es) \<inter> skipped_ids (w_ctx s) = {}"
    and "hc_handler hc e (w_db s) = (Inl err, db')" and "is_transient_error err \<or> is_timeout err"
  shows "\<exists>s' msg t. event_loop (factory_steps opts None [publisher_step hc]) None (e # es) s = (Inr (), s') \<and>
    w_db s' = db' \<and> completed_ids (w_ctx s') = completed_ids (w_ctx s) \<and>
    failed_counted (w_ctx s') = failed_counted (w_ctx s) \<and>
    failed_noncounted (w_ctx s') = failed_noncounted (w_ctx s) @
      (deferred msg e)\<lparr>fail_retry_at := Some t\<rparr> # map (deferred msg) es"
proof -
  define msg where "msg = (if is_transient_error err then hc_err_text hc err
    else lit ''Publish timed out after '' @ hc_timeout_text hc @ lit ''s'')"
  let ?Q = "\<lambda>t'. w_db t' = db' \<and> completed_ids (w_ctx t') = completed_ids (w_ctx s) \<and>
    failed_counted (w_ctx t') = failed_counted (w_ctx s) \<and> skipped_ids (w_ctx t') = skipped_ids (w_ctx s) \<and>
    ctx_extra (w_ctx t') DEFERRED_BROKER_ERROR = Some msg \<and>
    (\<exists>t. failed_noncounted (w_ctx t') = failed_noncounted (w_ctx s) @ [(deferred msg e)\<lparr>fail_retry_at := Some t\<rparr>])"
  have "\<exists>s1. process_event (factory_steps opts None [publisher_step hc]) e s = (Inr (), s1) \<and> later s s1 \<and> ?Q s1"
  proof (rule factory_event [OF assms(1)])
    fix t
    assume t: "untouched s t"
    define t1 where "t1 = t\<lparr>w_db := db'\<rparr>"
    have call: "on_db (hc_handler hc e) t = (Inl err, t1)"
      using assms(4) t by (simp add: on_db_def t1_def untouched_def)
    have "publisher_execute hc e t = andthen (publisher_retry_later e msg) (\<lambda>_. ret step_next) t1"
      using assms(2,5) t call
      by (auto simp: publisher_execute_def handler_execute_def andthen_def catch_def msg_def
          publisher_timed_out_def untouched_def)
    then show "\<exists>t'. execute (publisher_step hc) e t = (Inr step_next, t') \<and> later t t' \<and> ?Q t'"
      using t by (simp add: publisher_step_def publisher_retry_later_def retry_later_def andthen_def utc_now_def
          update_ctx_returns t1_def untouched_def later_def ctx_mark_failed_def deferred_def)
        (intro conjI exI [of _ 1] exI [of _ 0]; simp)
  qed (auto simp: untouched_def)
  then obtain s1 t where s1: "process_event (factory_steps opts None [publisher_step hc]) e s = (Inr (), s1)"
    and q: "?Q s1" and n: "failed_noncounted (w_ctx s1) = failed_noncounted (w_ctx s) @ [(deferred msg e)\<lparr>fail_retry_at := Some t\<rparr>]"
    by blast
  obtain s2 where "event_loop (factory_steps opts None [publisher_step hc]) None es s1 = (Inr (), s2)"
      "w_db s2 = w_db s1" "completed_ids (w_ctx s2) = completed_ids (w_ctx s1)"
      "failed_counted (w_ctx s2) = failed_counted (w_ctx s1)"
      "failed_noncounted (w_ctx s2) = failed_noncounted (w_ctx s1) @ map (deferred msg) es"
    using deferred_loop [OF assms(1), of s1 msg es hc] q assms(3) by auto
  then show ?thesis
    using s1 q n assms(3) by (intro exI [of _ s2] exI [of _ msg] exI [of _ t]) (simp add: andthen_def)
qed

section \<open>The circuit breaker\<close>

lemma in_order_append: "in_order (xs @ ys) = andthen (in_order xs) (\<lambda>_. in_order ys)"
  by (induction xs) (auto simp: fun_eq_iff andthen_def split: prod.split sum.split)

lemma event_end_split:
  "on_event_end (pre @ circuit_breaker_step cfg # post) e =
     andthen (on_event_end pre e) (\<lambda>_. andthen (breaker_event_end cfg e) (\<lambda>_. on_event_end post e))"
  by (simp add: on_event_end_def List.map_filter_def in_order_append
      circuit_breaker_step_def base_processing_step_def)

lemma event_start_breaker: "quiet_hooks st \<or> st = circuit_breaker_step cfg \<Longrightarrow>
    (\<forall>h. event_hooks st = Some h \<longrightarrow> quiet (fst h e))"
  by (auto simp: quiet_hooks_def circuit_breaker_step_def base_processing_step_def quiet_ret)

lemma on_event_start_breaker:
  assumes "\<And>st. st \<in> set steps \<Longrightarrow> quiet_hooks st \<or> st = circuit_breaker_step cfg"
  shows "quiet (on_event_start steps e)"
  unfolding on_event_start_def
  by (rule quiet_in_order) (use assms event_start_breaker in \<open>force simp: List.map_filter_def\<close>)

lemma batch_hooks_breaker:
  assumes "\<And>st. st \<in> set steps \<Longrightarrow> quiet_hooks st \<or> st = circuit_breaker_step cfg"
  shows "quiet (on_batch_start steps)" "quiet (on_batch_end steps)"
proof -
  have "quiet a \<and> quiet b" if "st \<in> set steps" "batch_hooks st = Some (a, b)" for st a b
    using assms [OF that(1)] that(2)
    by (auto simp: quiet_hooks_def circuit_breaker_step_def base_processing_step_def quiet_ret)
  then show "quiet (on_batch_start steps)" "quiet (on_batch_end steps)"
    unfolding on_batch_start_def on_batch_end_def
    by (intro quiet_in_order; force simp: List.map_filter_def)+
qed

definition tick :: "'db world \<Rightarrow> 'db world" where
  "tick s = s\<lparr>w_times := (\<lambda>n. w_times s (Suc n))\<rparr>"

lemma untouched_tick: "untouched s (tick s)"
  unfolding untouched_def later_def tick_def by (simp, intro conjI exI [of _ 1] exI [of _ 0]; simp)

text \<open>An open breaker, before its recovery timeout: the event is rejected, and its end hook - which finds
  no failure recorded for it - resets the breaker.\<close>

lemma rejected_event:
  assumes "list_all quiet_step pre" and "\<And>st. st \<in> set post \<Longrightarrow> quiet_hooks st"
    and "is_open (w_breaker s)" and "opened_at (w_breaker s) = Some t"
    and "\<forall>n. w_times s n - t \<le> recovery_timeout cfg" and "get_failure (w_ctx s) (event_id e) = None"
  shows "\<exists>s'. process_event (pre @ circuit_breaker_step cfg # post) e s = (Inl PipelineStoppedError, s') \<and>
    w_db s' = w_db s \<and> w_ctx s' = w_ctx s \<and> w_breaker s' = closed_breaker"
proof -
  let ?steps = "pre @ circuit_breaker_step cfg # post"
  have pre: "st \<in> set pre \<Longrightarrow> quiet_hooks st" for st
    using assms(1) by (rule quiet_step_hooks)
  have mine: "st \<in> set ?steps \<Longrightarrow> quiet_hooks st \<or> st = circuit_breaker_step cfg" for st
    using pre assms(2) by auto
  obtain s1 where s1: "on_event_start ?steps e s = (Inr (), s1)" "untouched s s1"
    using on_event_start_breaker [OF mine] by (rule quietE)
  obtain s2 where s2: "untouched s1 s2" "execute_steps ?steps e s1 = execute_steps (circuit_breaker_step cfg # post) e s2"
    using assms(1) by (rule execute_quiet_prefix)
  have u: "untouched s s2"
    using s1(2) s2(1) by (rule untouched_trans)
  obtain k where "w_times s2 = (\<lambda>n. w_times s (n + k))"
    using u by (auto simp: untouched_def later_def)
  then have "w_times s2 0 - t \<le> recovery_timeout cfg"
    using assms(5) by simp
  then have "execute_steps (circuit_breaker_step cfg # post) e s2 = (Inl PipelineStoppedError, tick s2)"
    using u assms(3,4)
    by (simp add: circuit_breaker_step_def base_processing_step_def breaker_execute_def andthen_def utc_now_def
        step_stop_def untouched_def tick_def)
  then obtain s3 where s3: "execute_steps (circuit_breaker_step cfg # post) e s2 = (Inl PipelineStoppedError, s3)"
      "untouched s2 s3"
    using untouched_tick by blast
  have us: "untouched s s3"
    using u s3(2) by (rule untouched_trans)
  obtain s4 where s4: "on_event_end pre e s3 = (Inr (), s4)" "untouched s3 s4"
    using on_event_end_quiet [OF pre] by (rule quietE)
  have us4: "untouched s s4"
    using us s4(2) by (rule untouched_trans)
  then have s5: "breaker_event_end cfg e s4 = (Inr (), s4\<lparr>w_breaker := closed_breaker\<rparr>)"
    using assms(6) by (simp add: breaker_event_end_def set_breaker_def untouched_def)
  obtain s6 where s6: "on_event_end post e (s4\<lparr>w_breaker := closed_breaker\<rparr>) = (Inr (), s6)"
      "untouched (s4\<lparr>w_breaker := closed_breaker\<rparr>) s6"
    using on_event_end_quiet [OF assms(2)] by (rule quietE)
  have "process_event ?steps e s = (Inl PipelineStoppedError, s6)"
    using s1(1) s2(2) s3(1) s4(1) s5 s6(1)
    by (simp add: process_event_def event_end_split andthen_def finally_do_def)
  with us4 s6(2) show ?thesis
    by (auto simp: untouched_def)
qed

lemma factory_breaker_steps:
  "factory_steps opts (Some cfg) core = opt_step (fo_otel opts) otel_step @ circuit_breaker_step cfg #
     (steps_before opts @ core @ steps_after opts)"
  by (simp add: factory_steps_split opt_step_def [of "Some cfg"])

text \<open>C31. An open breaker does not stay open for its recovery timeout: the first event of the next batch
  is rejected, and its end hook, which takes an event without a recorded failure for a success, closes
  the breaker and clears its count. The batch ends without an error, no event of it is recorded - not
  even as skipped -, and the batch after that runs on a closed breaker, however little time has passed.\<close>

theorem rejected_event_closes_breaker:
  assumes "plain_options opts" and "\<forall>st\<in>set core. quiet_hooks st"
    and "is_open (w_breaker s)" and "opened_at (w_breaker s) = Some t"
    and "\<forall>n. w_times s n - t \<le> recovery_timeout cfg"
    and "get_failure (w_ctx s) (event_id e) = None" and "event_id e \<notin> skipped_ids (w_ctx s)"
  shows "\<exists>s'. process_batch (factory_steps opts (Some cfg) core) None (e # es) s = (Inr (), s') \<and>
    w_breaker s' = closed_breaker \<and> w_ctx s' = w_ctx s \<and> w_db s' = w_db s"
proof -
  let ?pre = "opt_step (fo_otel opts) otel_step :: ('a world, 'b base_event_scheme) step list"
  let ?post = "steps_before opts @ core @ steps_after opts"
  let ?steps = "factory_steps opts (Some cfg) core"
  have pre: "list_all quiet_step ?pre"
    by (rule quiet_otel)
  have post: "st \<in> set ?post \<Longrightarrow> quiet_hooks st" for st
    using assms(2) quiet_step_hooks [OF quiet_before [OF assms(1)]] quiet_step_hooks [OF quiet_after [OF assms(1)]]
    by auto
  have mine: "st \<in> set ?steps \<Longrightarrow> quiet_hooks st \<or> st = circuit_breaker_step cfg" for st
    using quiet_step_hooks [OF pre] post unfolding factory_breaker_steps by auto
  obtain s1 where s1: "on_batch_start ?steps s = (Inr (), s1)" "untouched s s1"
    using batch_hooks_breaker(1) [OF mine] by (rule quietE)
  have b1: "is_open (w_breaker s1)" "opened_at (w_breaker s1) = Some t" "get_failure (w_ctx s1) (event_id e) = None"
    using s1(2) assms(3,4,6) by (simp_all add: untouched_def)
  have "\<forall>n. w_times s1 n - t \<le> recovery_timeout cfg"
    using s1(2) assms(5) by (auto simp: untouched_def later_def)
  then obtain s2 where s2: "process_event ?steps e s1 = (Inl PipelineStoppedError, s2)"
      "w_db s2 = w_db s1" "w_ctx s2 = w_ctx s1" "w_breaker s2 = closed_breaker"
    using rejected_event [OF pre post b1(1,2) _ b1(3)] unfolding factory_breaker_steps by blast
  obtain s3 where s3: "on_batch_end ?steps s2 = (Inr (), s3)" "untouched s2 s3"
    using batch_hooks_breaker(2) [OF mine] by (rule quietE)
  have "event_loop ?steps None (e # es) s1 = (Inl PipelineStoppedError, s2)"
    using s2(1) s1(2) assms(7) by (simp add: andthen_def untouched_def)
  then have "process_batch ?steps None (e # es) s = (Inr (), s3)"
    using s1(1) s3(1) by (simp add: process_batch_def andthen_def catch_def)
  with s1(2) s2 s3(2) show ?thesis
    by (auto simp: untouched_def)
qed

lemma breaker_end:
  assumes "\<not> is_open (w_breaker s)"
  shows "\<exists>s'. breaker_event_end cfg e s = (Inr (), s') \<and> w_ctx s' = w_ctx s \<and>
    (if get_failure (w_ctx s) (event_id e) = None then w_breaker s' = closed_breaker
     else consecutive_failures (w_breaker s') = consecutive_failures (w_breaker s) + 1 \<and>
       is_open (w_breaker s') = (failure_threshold cfg \<le> consecutive_failures (w_breaker s) + 1) \<and>
       (is_open (w_breaker s') \<longrightarrow> opened_at (w_breaker s') \<noteq> None))"
proof (cases "get_failure (w_ctx s) (event_id e)")
  case (Some f)
  then show ?thesis
    using assms
    by (cases "failure_threshold cfg \<le> consecutive_failures (w_breaker s) + 1")
      (simp_all add: breaker_event_end_def set_breaker_def andthen_def utc_now_def)
qed (simp add: breaker_event_end_def set_breaker_def)

text \<open>C30. The breaker opens at its threshold: on a closed breaker, an event the worker passes on counts one
  more consecutive failure if a failure of it is recorded, and opens the breaker when the count
  reaches the threshold; if none is recorded the count starts again at 0.\<close>

theorem breaker_counts_failures:
  assumes "plain_options opts" and "quiet_hooks st" and "\<not> is_open (w_breaker s)"
    and "\<forall>u. \<exists>u'. execute st e u = (Inr step_next, u') \<and> w_breaker u' = w_breaker u"
  shows "\<exists>s'. process_event (factory_steps opts (Some cfg) [st]) e s = (Inr (), s') \<and>
    (if get_failure (w_ctx s') (event_id e) = None then w_breaker s' = closed_breaker
     else consecutive_failures (w_breaker s') = consecutive_failures (w_breaker s) + 1 \<and>
       is_open (w_breaker s') = (failure_threshold cfg \<le> consecutive_failures (w_breaker s) + 1) \<and>
       (is_open (w_breaker s') \<longrightarrow> opened_at (w_breaker s') \<noteq> None))"
proof -
  let ?pre = "opt_step (fo_otel opts) otel_step :: ('a world, 'b base_event_scheme) step list"
  let ?post = "steps_before opts @ st # steps_after opts"
  have pre: "x \<in> set ?pre \<Longrightarrow> quiet_hooks x" for x
    by (rule quiet_step_hooks [OF quiet_otel])
  have post: "x \<in> set ?post \<Longrightarrow> quiet_hooks x" for x
    using assms(2) quiet_step_hooks [OF quiet_before [OF assms(1)]] quiet_step_hooks [OF quiet_after [OF assms(1)]]
    by auto
  have steps: "factory_steps opts (Some cfg) [st] = ?pre @ circuit_breaker_step cfg # ?post"
    by (simp add: factory_breaker_steps)
  have "quiet (on_event_start (?pre @ circuit_breaker_step cfg # ?post) e)"
    using pre post by (intro on_event_start_breaker) auto
  then obtain s1 where s1: "on_event_start (?pre @ circuit_breaker_step cfg # ?post) e s = (Inr (), s1)" "untouched s s1"
    by (rule quietE)
  obtain s2 where s2: "untouched s1 s2" "execute_steps (?pre @ circuit_breaker_step cfg # ?post) e s1 =
      execute_steps (circuit_breaker_step cfg # ?post) e s2"
    using quiet_otel by (rule execute_quiet_prefix)
  have closed: "w_breaker s2 = w_breaker s"
    using s1(2) s2(1) by (simp add: untouched_def)
  then have b: "execute_steps (circuit_breaker_step cfg # ?post) e s2 = execute_steps ?post e s2"
    using assms(3) by (simp add: circuit_breaker_step_def base_processing_step_def breaker_execute_def andthen_def step_next_def)
  obtain s3 where s3: "untouched s2 s3" "execute_steps ?post e s2 = execute_steps (st # steps_after opts) e s3"
    using quiet_before [OF assms(1)] by (rule execute_quiet_prefix)
  obtain s4 where s4: "execute st e s3 = (Inr step_next, s4)" "w_breaker s4 = w_breaker s3"
    using assms(4) by blast
  obtain s5 where s5: "untouched s4 s5" "execute_steps (steps_after opts) e s4 = (Inr (), s5)"
    using quiet_after [OF assms(1)] by (rule execute_quiet_steps)
  have run: "execute_steps (?pre @ circuit_breaker_step cfg # ?post) e s1 = (Inr (), s5)"
    using s2(2) b s3(2) s4(1) s5(2) by (simp add: andthen_def step_next_def)
  obtain s6 where s6: "on_event_end ?pre e s5 = (Inr (), s6)" "untouched s5 s6"
    using on_event_end_quiet [OF pre] by (rule quietE)
  have br: "w_breaker s6 = w_breaker s"
    using s6(2) s5(1) s4(2) s3(1) closed by (simp add: untouched_def)
  obtain s7 where s7: "breaker_event_end cfg e s6 = (Inr (), s7)" and c7: "w_ctx s7 = w_ctx s6"
    and b7: "if get_failure (w_ctx s6) (event_id e) = None then w_breaker s7 = closed_breaker
      else consecutive_failures (w_breaker s7) = consecutive_failures (w_breaker s) + 1 \<and>
        is_open (w_breaker s7) = (failure_threshold cfg \<le> consecutive_failures (w_breaker s) + 1) \<and>
        (is_open (w_breaker s7) \<longrightarrow> opened_at (w_breaker s7) \<noteq> None)"
    using breaker_end [of s6 cfg e] assms(3) unfolding br by blast
  obtain s8 where s8: "on_event_end ?post e s7 = (Inr (), s8)" "untouched s7 s8"
    using on_event_end_quiet [OF post] by (rule quietE)
  have "process_event (factory_steps opts (Some cfg) [st]) e s = (Inr (), s8)"
    using s1(1) run s6(1) s7 s8(1) unfolding steps
    by (simp add: process_event_def event_end_split andthen_def finally_do_def)
  then show ?thesis
    using s8(2) c7 b7 by (intro exI [of _ s8]) (simp add: untouched_def)
qed

section \<open>Concrete batches\<close>

text \<open>A publisher whose broker is down.\<close>

definition outage_hc :: "(unit, outbox_event) handler_config" where
  "outage_hc = \<lparr>hc_handler = (\<lambda>_ db. (Inl (TransientError (lit ''down'')), db)), hc_timeout_text = lit ''30.0'',
     hc_backoff_base = 10, hc_backoff_cap = 3600, hc_err_text = (\<lambda>_. lit ''down''), hc_err_name = (\<lambda>_. [])\<rparr>"

lemma new_world_ctx [simp]: "w_ctx (world_of db) = new_context []" "ctx_extra (new_context w) = (\<lambda>_. None)"
  "skipped_ids (new_context w) = {}" "get_failure (new_context w) i = None"
  by (simp_all add: world_of_def new_context_def get_failure_def)

theorem broker_outage_defers_batch_witness:
  "\<exists>s'. event_loop (factory_steps plain_factory None [publisher_step outage_hc]) None
     [sample_event, sample_event\<lparr>event_id := UUID 8\<rparr>] (world_of ()) = (Inr (), s') \<and>
   failed_counted (w_ctx s') = [] \<and> map fail_id (failed_noncounted (w_ctx s')) = [UUID 7, UUID 8]"
proof -
  have "hc_handler outage_hc sample_event (w_db (world_of ())) = (Inl (TransientError (lit ''down'')), ())"
    by (simp add: outage_hc_def)
  from broker_outage_defers_batch [OF plain_factory_ok(1), of "world_of ()" sample_event
      "[sample_event\<lparr>event_id := UUID 8\<rparr>]", OF _ _ this]
  obtain s' msg t where "event_loop (factory_steps plain_factory None [publisher_step outage_hc]) None
      [sample_event, sample_event\<lparr>event_id := UUID 8\<rparr>] (world_of ()) = (Inr (), s')"
    "failed_counted (w_ctx s') = []" "failed_noncounted (w_ctx s') =
      [(deferred msg sample_event)\<lparr>fail_retry_at := Some t\<rparr>, deferred msg (sample_event\<lparr>event_id := UUID 8\<rparr>)]"
    by (auto simp: new_context_def)
  then show ?thesis
    by (intro exI [of _ s']) (simp add: deferred_def sample_event_def)
qed

definition open_world :: "unit world" where
  "open_world = (world_of ())\<lparr>w_breaker := \<lparr>consecutive_failures = 5, is_open = True, opened_at = Some 0\<rparr>\<rparr>"

definition sample_breaker :: breaker_config where
  "sample_breaker = \<lparr>failure_threshold = 5, recovery_timeout = 60 * us_per_s\<rparr>"

theorem rejected_event_closes_breaker_witness:
  "\<exists>s'. process_batch (factory_steps plain_factory (Some sample_breaker) [publisher_step outage_hc]) None
     [sample_event] open_world = (Inr (), s') \<and> \<not> is_open (w_breaker s')"
  using rejected_event_closes_breaker [OF plain_factory_ok(1), of "[publisher_step outage_hc]" open_world 0
      sample_breaker sample_event "[]"]
  by (auto simp: open_world_def world_of_def sample_breaker_def us_per_s_def closed_breaker_def)

theorem breaker_counts_failures_witness:
  "\<exists>s'. process_event (factory_steps plain_factory (Some sample_breaker) [base_processing_step]) sample_event
     (world_of ()) = (Inr (), s') \<and> (get_failure (w_ctx s') (UUID 7) = None \<longrightarrow> w_breaker s' = closed_breaker)"
proof -
  have "\<forall>u. \<exists>u'. execute base_processing_step sample_event u = (Inr step_next, u') \<and> w_breaker u' = w_breaker u"
    by (simp add: base_processing_step_def)
  from breaker_counts_failures [OF plain_factory_ok(1) base_hooks _ this, of "world_of ()" sample_breaker]
  show ?thesis
    by (auto simp: world_of_def closed_breaker_def sample_event_def)
qed

section \<open>Dead letters\<close>

text \<open>C32. The dead letter queue agrees with the table: for a fetched pending event with a recorded failure,
  the step hands the event over, with the failure's error, exactly when committing that failure makes
  the row failed - a counted failure of the last attempt -, and a sink that raises changes nothing of
  this.\<close>

theorem dead_letters_are_failed_rows:
  assumes "same_state e r" and "status r = PENDING" and "get_failure (w_ctx s) (event_id e) = Some f"
    and "pred_option is_exception (sink e (fail_error f))"
  shows "\<exists>s'. dlq_event_end sink e s = (Inr (), s') \<and> w_ctx s' = w_ctx s \<and>
    w_log s' = w_log s @
      (if status (failed_row err (fail_retry_at f) (event_id e \<in> fail_id ` set (failed_counted (w_ctx s))) r) = FAILED
       then [MoveToDlq (event_id e) (fail_error f)] else [])"
proof (cases "List.find (\<lambda>f. fail_id f = event_id e) (failed_counted (w_ctx s))")
  case None
  then have "event_id e \<notin> fail_id ` set (failed_counted (w_ctx s))"
    by (simp only: find_id_None not_False_eq_True)
  with None show ?thesis
    using assms(2)
    by (simp add: dlq_event_end_def failed_row_def Let_def split: option.split)
next
  case (Some g)
  then have "g = f"
    using assms(3) by (simp add: get_failure_def)
  moreover have counted: "event_id e \<in> fail_id ` set (failed_counted (w_ctx s))"
    using find_id_None [of "event_id e" "failed_counted (w_ctx s)"] unfolding Some by blast
  moreover have "status (failed_row err (fail_retry_at f) True r) = FAILED \<longleftrightarrow> \<not> attempts_made e + 1 < max_attempts e"
    using assms(1,2) by (auto simp: failed_row_def Let_def same_state_def split: option.split)
  ultimately show ?thesis
    using Some assms(4) by (auto simp: dlq_event_end_def andthen_def tell_def split: option.splits)
qed

theorem dead_letters_are_failed_rows_witness:
  "\<exists>s'. dlq_event_end (\<lambda>_ _. Some StorageError) sample_event ((world_of ())\<lparr>w_ctx := (new_context [])\<lparr>failed_counted :=
     [\<lparr>fail_id = UUID 7, fail_error = lit ''x'', fail_retry_at = None\<rparr>]\<rparr>\<rparr>) = (Inr (), s') \<and> w_log s' = []"
proof -
  let ?f = "\<lparr>fail_id = UUID 7, fail_error = lit ''x'', fail_retry_at = None\<rparr>"
  let ?s = "(world_of ())\<lparr>w_ctx := (new_context [])\<lparr>failed_counted := [?f]\<rparr>\<rparr>"
  have e: "same_state sample_event sample_event" "status sample_event = PENDING"
    "get_failure (w_ctx ?s) (event_id sample_event) = Some ?f"
    by (simp_all add: same_state_def sample_event_def get_failure_def)
  from dead_letters_are_failed_rows [OF e, of "\<lambda>_ _. Some StorageError"]
  show ?thesis
    by (auto simp: world_of_def sample_event_def failed_row_def)
qed

section \<open>The record of an inbox batch\<close>






end
