(* ===== verification/Cycle.thy ===== *)
theory Cycle
  imports Accounting Commits
begin

text \<open>
  A whole cycle of the processors over the PostgreSQL repository: what the bulk commit of a recorded
  batch makes of the table, and from fetch to commit what becomes of every row.
\<close>

section \<open>The table after a commit\<close>

definition failed_by :: "'x repository \<Rightarrow> bool \<Rightarrow> failure_update \<Rightarrow> 'x base_event_scheme \<Rightarrow> 'x base_event_scheme" where
  "failed_by R counts f r = (case repo_truncate_error R (fail_error f) of
     Inl _ \<Rightarrow> r | Inr err \<Rightarrow> failed_row err (fail_retry_at f) counts r)"

definition failed_in :: "'x repository \<Rightarrow> bool \<Rightarrow> failure_update list \<Rightarrow> 'x base_event_scheme \<Rightarrow> 'x base_event_scheme" where
  "failed_in R counts fs r = (case List.find (\<lambda>f. fail_id f = event_id r) fs of
     None \<Rightarrow> r | Some f \<Rightarrow> failed_by R counts f r)"

text \<open>What a row becomes: completed, failed with its own error and schedule, or nothing.\<close>

definition settled_row :: "'x repository \<Rightarrow> instant \<Rightarrow> uuid list \<Rightarrow> failure_update list \<Rightarrow> failure_update list \<Rightarrow>
    'x base_event_scheme \<Rightarrow> 'x base_event_scheme" where
  "settled_row R now completed counted noncounted r =
     (if event_id r \<in> set completed then completed_row now r
      else if event_id r \<in> fail_id ` set counted then failed_in R True counted r
      else failed_in R False noncounted r)"

lemma failed_row_id [simp]: "event_id (failed_row err nxt c r) = event_id r"
  by (simp add: failed_row_def Let_def split: option.split)

lemma failed_in_id [simp]: "event_id (failed_in R c fs r) = event_id r"
  by (simp add: failed_in_def failed_by_def split: option.split sum.split)

lemma settled_row_id [simp]: "event_id (settled_row R now cs fs ns r) = event_id r"
  by (simp add: settled_row_def)

lemma failed_in_none: "event_id r \<notin> fail_id ` set fs \<Longrightarrow> failed_in R c fs r = r"
  using find_id_None [of "event_id r" fs] by (simp add: failed_in_def)

lemma failure_data_ok:
  "failure_data R gs = Inr data \<Longrightarrow> f \<in> set gs \<Longrightarrow> \<exists>err. repo_truncate_error R (fail_error f) = Inr err"
  by (induction gs arbitrary: data) (auto simp: failure_data_def bindr_Inr_iff)

text \<open>The join on the data of a bulk failure is, row by row, the failure of its id.\<close>

lemma failure_data_lookup:
  assumes "failure_data R gs = Inr data" and "set gs = set fs" and "distinct (map fail_id fs)"
    and "distinct (map fail_id gs)" and "event_id r \<in> fail_id ` set fs"
  shows "join_failure data c r = failed_in R c fs r"
proof -
  obtain f where f: "List.find (\<lambda>f. fail_id f = event_id r) fs = Some f"
    using find_id_None [of "event_id r" fs] assms(5) by (metis not_Some_eq)
  then have "f \<in> set fs" and id: "fail_id f = event_id r"
    by (auto simp: find_Some_iff)
  then have "f \<in> set gs"
    using assms(2) by simp
  then obtain err where err: "repo_truncate_error R (fail_error f) = Inr err"
    using failure_data_ok [OF assms(1)] by blast
  then have "(event_id r, err, fail_retry_at f) \<in> set data"
    using failure_data_set [OF assms(1)] \<open>f \<in> set gs\<close> id by fastforce
  moreover have "distinct (map fst data)"
    using failure_data_ids [OF assms(1)] assms(4) by simp
  ultimately have "map_of data (event_id r) = Some (err, fail_retry_at f)"
    by (intro map_of_is_SomeI)
  then show ?thesis
    using f err by (simp add: join_failure_def failed_in_def failed_by_def)
qed

context sql_engine
begin

lemma bulk_failed_table:
  assumes "bulk_mark_failed E R fs w c db = (Inr n, db')" and "unique_ids (table_rows E db)"
    and "1 \<le> repo_batch_size R" and "distinct (map fail_id fs)"
  shows "table_rows E db' = image_mset (failed_in R c fs) (table_rows E db) \<and> unique_ids (table_rows E db') \<and>
    (\<forall>i\<in>fail_id ` set fs. \<exists>r\<in>#table_rows E db. event_id r = i \<and> status r = PENDING \<and> locked_by r = Some w)"
proof -
  obtain data where data: "failure_data R (sort_key fail_id fs) = Inr data"
    and tbl: "table_rows E db' = updated_rows (\<lambda>r. event_id r \<in> fail_id ` set fs) (join_failure data c) (table_rows E db)"
    and held: "\<forall>f\<in>set fs. \<exists>r\<in>#table_rows E db. event_id r = fail_id f \<and> status r = PENDING \<and> locked_by r = Some w"
    using bulk_failed_outcome [OF assms(1-3)] by blast
  have d: "distinct (map fail_id (sort_key fail_id fs))"
    using assms(4) by (metis distinct_map distinct_sort set_sort)
  have "table_rows E db' = image_mset (failed_in R c fs) (table_rows E db)"
    unfolding tbl updated_rows_def
    by (intro image_mset_cong)
      (auto simp: failure_data_lookup [OF data _ assms(4) d] failed_in_none)
  moreover have "unique_ids (table_rows E db')"
    unfolding tbl using assms(2) by (subst unique_updated) (simp_all add: join_failure_def split: option.split)
  ultimately show ?thesis
    using held by auto
qed

text \<open>A bulk commit that reports success has settled every row of the record.\<close>

lemma commit_settles:
  assumes "bulk_commit (postgres_repository E L R) c db = (Inr True, db')"
    and "unique_ids (table_rows E db)" and "1 \<le> repo_batch_size R" and "accounts D I (ledger c)"
  shows "table_rows E db' = image_mset
      (settled_row R (tx_now E db) (completed_ids c) (failed_counted c) (failed_noncounted c)) (table_rows E db)"
    and "\<forall>f\<in>set (failed_counted c). \<exists>err. repo_truncate_error R (fail_error f) = Inr err"
proof -
  let ?cs = "completed_ids c" and ?fs = "failed_counted c" and ?ns = "failed_noncounted c"
  have d: "distinct (map fail_id ?fs)" "distinct (map fail_id ?ns)"
    and apart: "set ?cs \<inter> fail_id ` set ?fs = {}" "set ?cs \<inter> fail_id ` set ?ns = {}"
      "fail_id ` set ?fs \<inter> fail_id ` set ?ns = {}"
    using assms(4) by (auto simp: ledger_def)
  obtain n1 db1 n2 db2 n3 where
      c1: "bulk_mark_completed E R ?cs (ctx_worker_id c) db = (Inr n1, db1)"
    and c2: "bulk_mark_failed E R ?fs (ctx_worker_id c) True db1 = (Inr n2, db2)"
    and c3: "bulk_mark_failed E R ?ns (ctx_worker_id c) False db2 = (Inr n3, db')"
    using assms(1)
    by (auto simp: bulk_commit_def false_on_error_def postgres_repository_def required_def res_simps
        bulk_mark_completed_def [of E R "[]"] bulk_mark_failed_def [of E R "[]"] split: if_splits)
  have t1: "table_rows E db1 = updated_rows (\<lambda>r. event_id r \<in> set ?cs) (completed_row (tx_now E db)) (table_rows E db)"
    using bulk_completed_outcome [OF c1 assms(2,3)] by blast
  have u1: "unique_ids (table_rows E db1)"
    unfolding t1 using assms(2) by (subst unique_updated) simp_all
  have t2: "table_rows E db2 = image_mset (failed_in R True ?fs) (table_rows E db1)"
    and u2: "unique_ids (table_rows E db2)"
    using bulk_failed_table [OF c2 u1 assms(3) d(1)] by blast+
  have t3: "table_rows E db' = image_mset (failed_in R False ?ns) (table_rows E db2)"
    using bulk_failed_table [OF c3 u2 assms(3) d(2)] by blast
  have "table_rows E db' = image_mset (\<lambda>r. failed_in R False ?ns (failed_in R True ?fs
      (if event_id r \<in> set ?cs then completed_row (tx_now E db) r else r))) (table_rows E db)"
    unfolding t3 t2 t1 updated_rows_def by (simp add: multiset.map_comp comp_def)
  also have "\<dots> = image_mset (settled_row R (tx_now E db) ?cs ?fs ?ns) (table_rows E db)"
  proof (intro image_mset_cong)
    fix r
    show "failed_in R False ?ns (failed_in R True ?fs
        (if event_id r \<in> set ?cs then completed_row (tx_now E db) r else r)) =
        settled_row R (tx_now E db) ?cs ?fs ?ns r"
    proof (cases "event_id r \<in> set ?cs")
      case True
      then have "event_id r \<notin> fail_id ` set ?fs" "event_id r \<notin> fail_id ` set ?ns"
        using apart by blast+
      with True show ?thesis
        by (simp add: settled_row_def failed_in_none)
    next
      case False
      show ?thesis
      proof (cases "event_id r \<in> fail_id ` set ?fs")
        case True
        then have "event_id r \<notin> fail_id ` set ?ns"
          using apart by blast
        with True False show ?thesis
          by (simp add: settled_row_def failed_in_none)
      qed (simp add: False settled_row_def failed_in_none)
    qed
  qed
  finally show "table_rows E db' = image_mset (settled_row R (tx_now E db) ?cs ?fs ?ns) (table_rows E db)" .
  show "\<forall>f\<in>set ?fs. \<exists>err. repo_truncate_error R (fail_error f) = Inr err"
    using bulk_failed_outcome [OF c2 u1 assms(3)] failure_data_ok by (metis set_sort)
qed

end

section \<open>A cycle of the outbox\<close>

lemma outbox_processor_built:
  assumes "create_outbox_processor (postgres_repository E L R) publish tt base cap et en opts = Inr P"
    and "fo_breaker opts = None"
  obtains hc where "hc_handler hc = publish" and "0 \<le> hc_backoff_base hc" and "0 < hc_backoff_cap hc"
    and "hc_backoff_cap hc = cap" and "pr_pipeline P = factory_steps opts None [publisher_step hc]"
    and "pr_repo P = postgres_repository E L R"
    and "pr_fetch P = distributed_fetch DEFAULT_LEASE_TIMEOUT_SECONDS" and "pr_commit P = bulk_commit"
    and "pr_outbox_metrics P = fo_metrics opts"
proof -
  obtain hc where hc: "HandlerExecutionStep_init publish tt base cap et en = Inr hc"
    and P: "P = build True (with_metrics (fo_metrics opts)
      ((new_builder (postgres_repository E L R))\<lparr>b_pipeline := factory_steps opts None [publisher_step hc]\<rparr>))"
    using assms by (auto simp: create_outbox_processor_def factory_breaker_def res_simps)
  have "hc_handler hc = publish \<and> 0 \<le> hc_backoff_base hc \<and> 0 < hc_backoff_cap hc \<and> hc_backoff_cap hc = cap"
    using hc by (auto simp: HandlerExecutionStep_init_def split: if_splits)
  then show thesis
    by (intro that [of hc]) (simp_all add: P build_def with_metrics_def new_builder_def postgres_repository_def)
qed

context sql_engine
begin

lemma fetch_session:
  "fetch_and_lock_pending E L R limit w ttl fs db = (Inr es, db') \<Longrightarrow> same_session E db' db"
  unfolding fetch_and_lock_pending_def
  by (auto simp: res_simps split: if_splits dest!: update_from_law)

lemma fetch_entities:
  assumes "fetch_and_lock_pending E L R limit w ttl fs db = (Inr es, db')" and "unique_ids (table_rows E db)"
    and "e \<in> set es"
  shows "\<exists>r\<in>#table_rows E db. to_entity L R (locked_row (tx_now E db) (strip w) r) = Inr e"
proof -
  let ?f = "locked_row (tx_now E db) (strip w)"
  obtain wanted chosen rows where sel: "selects (pending_query R ttl wanted (tx_now E db) limit) (held_elsewhere E db)
      (table_rows E db) chosen" and rows: "mset rows = mset (map ?f chosen)"
    and es: "list_all2 (\<lambda>r e. to_entity L R r = Inr e) rows es"
    using fetch_outcome [OF assms(1,2)] by blast
  obtain r where "r \<in> set rows" "to_entity L R r = Inr e"
    using es assms(3) by (induction rows es rule: list_all2_induct) auto
  then obtain q where "q \<in> set chosen" "r = ?f q"
    using arg_cong [OF rows, of set_mset] by auto
  then show ?thesis
    using selects_where [OF sel] \<open>to_entity L R r = Inr e\<close> by blast
qed

end

text \<open>A relay: the handler keeps the table, and its success leaves evidence in the state.\<close>

locale relay = sql_engine E + db_evidence frame evidence
  for E :: "('db, outbox_event) engine" and frame :: "'db \<Rightarrow> 'db \<Rightarrow> bool"
    and evidence :: "outbox_event \<Rightarrow> 'db \<Rightarrow> bool" +
  assumes frame_table: "frame a b \<Longrightarrow> same_table E a b"
begin

lemma outbox_batch:
  assumes run: "processor_batch P w n shutdown filters s = (Inr res, s')" and ok: "\<not> commit_failed res"
    and u: "unique_ids (table_rows E (w_db s))"
    and R: "PostgresOutboxRepository_init part ii im bs em suffix skew = Inr R"
    and P: "pr_pipeline P = factory_steps opts None [publisher_step hc]"
      "pr_repo P = postgres_repository E L R" "pr_fetch P = distributed_fetch ttl" "pr_commit P = bulk_commit"
      "pr_outbox_metrics P = fo_metrics opts"
    and good: "\<forall>e\<in>E'. worker_ok frame evidence opts hc e"
    and small: "\<forall>es db'. fetch_and_lock_pending E L R n w (Some ttl) filters (w_db s) = (Inr es, db') \<longrightarrow> set es \<subseteq> E'"
    and plain: "plain_options opts" and sane: "sane_world s" and polls: "polls shutdown"
  shows "\<exists>I db4. table_rows E (w_db s') = image_mset (\<lambda>r. if event_id r \<in> I
        then settled_row R (tx_now E (w_db s)) (processed_event_ids res) (result_failed_counted res)
          (result_failed_noncounted res) (locked_row (tx_now E (w_db s)) (strip w) r)
        else r) (table_rows E (w_db s)) \<and>
    (\<forall>i\<in>I. \<exists>wanted. \<exists>r\<in>#table_rows E (w_db s). event_id r = i \<and>
      fetchable R (Some ttl) wanted (tx_now E (w_db s)) (set_mset (table_rows E (w_db s))) r) \<and>
    accounts {i. \<exists>e\<in>E'. event_id e = i \<and> evidence e db4} I
      (processed_event_ids res, map fail_id (result_failed_counted res),
       map fail_id (result_failed_noncounted res), remaining_event_ids res) \<and>
    (processed_event_ids res = [] \<or> (\<exists>c ok. bulk_commit (postgres_repository E L R) c db4 = (Inr ok, w_db s'))) \<and>
    (shutdown = None \<longrightarrow> (\<exists>es db'. fetch_and_lock_pending E L R n w (Some ttl) filters (w_db s) = (Inr es, db') \<and>
      I = event_id ` set es)) \<and>
    (\<forall>f\<in>set (result_failed_counted res). \<exists>err. repo_truncate_error R (fail_error f) = Inr err)"
proof -
  let ?now = "tx_now E (w_db s)" and ?T = "table_rows E (w_db s)"
  have empty: ?thesis if "res = empty_result" "table_rows E (w_db s') = ?T"
    "shutdown = None \<longrightarrow> (\<exists>db'. fetch_and_lock_pending E L R n w (Some ttl) filters (w_db s) = (Inr [], db'))"
    using that by (intro exI [of _ "{}"] exI [of _ "w_db s"]) (simp add: empty_result_def)
  obtain b s1 where s1: "poll shutdown s = (Inr b, s1)" "untouched s s1"
    using polls unfolding poll_def by (rule pollsE)
  show ?thesis
  proof (cases b)
    case True
    with run s1 show ?thesis
      by (intro empty) (auto simp: processor_batch_def andthen_def untouched_def poll_def)
  next
    case False
    obtain es s2 where f: "on_db (pr_fetch P (pr_repo P) n w filters) s1 = (Inr es, s2)"
      using run s1 False by (auto simp: processor_batch_def res_simps andthen_Inr)
    then have fetch: "fetch_and_lock_pending E L R n w (Some ttl) filters (w_db s) = (Inr es, w_db s2)"
      and s2: "later s1 s2"
      using s1(2) by (auto simp: on_db_def P distributed_fetch_def required_def postgres_repository_def
          untouched_def later_same split: prod.splits)
    obtain s3 where m: "(case pr_outbox_metrics P of None \<Rightarrow> ret ()
          | Some refuses \<Rightarrow> emit refuses (SetLockedBatchSize (int (length es)))) s2 = (Inr (), s3)"
      and s3: "untouched s2 s3"
    proof -
      have "quiet (case pr_outbox_metrics P of None \<Rightarrow> ret ()
          | Some refuses \<Rightarrow> emit refuses (SetLockedBatchSize (int (length es))))"
        using plain by (cases "fo_metrics opts") (auto simp: P plain_options_def quiet_ret intro: quiet_emit)
      then show thesis
        by (rule quietE) (rule that)
    qed
    have same: "same_state e r" if "to_entity L R r = Inr e" for e r
      using to_entity_same that outbox_init [OF R] by blast
    let ?I = "event_id ` set es"
    note got = fetch_locks [OF fetch u same]
    have now: "tx_now E (w_db s2) = ?now" and lim: "distinct (map event_id es)"
      using fetch_session [OF fetch] got by (simp_all add: same_session_def)
    have T2: "table_rows E (w_db s2) = updated_rows (\<lambda>r. event_id r \<in> ?I) (locked_row ?now (strip w)) ?T"
      using got by blast
    show ?thesis
    proof (cases "es = []")
      case True
      with run s1 False f m s3 T2 fetch show ?thesis
        by (intro empty) (auto simp: processor_batch_def andthen_def untouched_def updated_rows_idle)
    next
      case nonempty: False
      let ?s = "s3\<lparr>w_ctx := new_context w\<rparr>"
      have "sane_world ?s"
        using sane_untouched [OF sane_later [OF sane_untouched [OF sane s1(2)] s2] s3]
        by (simp add: sane_world_def)
      moreover have "list_all (worker_ok frame evidence opts hc) es"
        using good small [rule_format, OF fetch] by (auto simp: list_all_iff)
      ultimately obtain s4 where p: "process_batch (pr_pipeline P) shutdown es ?s = (Inr (), s4)"
        and fr: "same_table E (w_db s3) (w_db s4)"
        and acc: "accounts {i. \<exists>e\<in>set es. event_id e = i \<and> evidence e (w_db s4)} ?I (ledger (w_ctx s4))"
        using outbox.batch_accounts [OF _ nonempty _ lim polls, of ?s opts hc w] P by (auto dest: frame_table)
      have t4: "table_rows E (w_db s4) = table_rows E (w_db s2)" "tx_now E (w_db s4) = ?now"
        using fr s3 now by (simp_all add: same_table_def same_session_def untouched_def)
      obtain success db5 where c: "bulk_commit (postgres_repository E L R) (w_ctx s4) (w_db s4) = (Inr success, db5)"
        and res: "res = \<lparr>processed_event_ids = completed_ids (w_ctx s4),
            result_failed_counted = failed_counted (w_ctx s4),
            result_failed_noncounted = failed_noncounted (w_ctx s4),
            remaining_event_ids = skipped_ids (w_ctx s4), commit_failed = (\<not> success)\<rparr>"
        and s': "w_db s' = db5"
        using run s1 False f m nonempty p
        by (auto simp: processor_batch_def res_simps andthen_Inr update_ctx_returns on_db_def P split: prod.splits)
      have success using ok res by simp
      have "unique_ids (table_rows E (w_db s4))"
        unfolding t4 T2 using u by (subst unique_updated) simp_all
      note commits = commit_settles [OF c [unfolded \<open>success\<close> [THEN eqTrueI]] this _ acc]
      from commits(1) outbox_init [OF R] have "table_rows E db5 = image_mset (settled_row R ?now (completed_ids (w_ctx s4))
          (failed_counted (w_ctx s4)) (failed_noncounted (w_ctx s4))) (table_rows E (w_db s4))"
        by (simp add: t4)
      also have "\<dots> = image_mset (\<lambda>r. if event_id r \<in> ?I
          then settled_row R ?now (completed_ids (w_ctx s4)) (failed_counted (w_ctx s4))
            (failed_noncounted (w_ctx s4)) (locked_row ?now (strip w) r) else r) ?T"
      proof -
        have "settled_row R ?now (completed_ids (w_ctx s4)) (failed_counted (w_ctx s4))
            (failed_noncounted (w_ctx s4)) r = r" if "event_id r \<notin> ?I" for r
        proof -
          have "event_id r \<notin> set (completed_ids (w_ctx s4))" "event_id r \<notin> fail_id ` set (failed_counted (w_ctx s4))"
            "event_id r \<notin> fail_id ` set (failed_noncounted (w_ctx s4))"
            using acc that by (auto simp: ledger_def)
          then show ?thesis
            by (simp add: settled_row_def failed_in_none)
        qed
        then show ?thesis
          unfolding t4 T2 updated_rows_def by (auto simp: multiset.map_comp intro!: image_mset_cong)
      qed
      finally have tbl: "table_rows E (w_db s') = image_mset (\<lambda>r. if event_id r \<in> ?I
          then settled_row R ?now (processed_event_ids res) (result_failed_counted res)
            (result_failed_noncounted res) (locked_row ?now (strip w) r) else r) ?T"
        unfolding res s' batch_result.select_convs .
      have "accounts {i. \<exists>e\<in>E'. event_id e = i \<and> evidence e (w_db s4)} ?I
          (processed_event_ids res, map fail_id (result_failed_counted res),
           map fail_id (result_failed_noncounted res), remaining_event_ids res)"
        unfolding res batch_result.select_convs
        by (rule accounts_mono [OF acc [unfolded ledger_def]]) (use small [rule_format, OF fetch] in blast)
      moreover have "\<forall>i\<in>?I. \<exists>wanted. \<exists>r\<in>#?T. event_id r = i \<and> fetchable R (Some ttl) wanted ?now (set_mset ?T) r"
        using got by blast
      moreover have "bulk_commit (postgres_repository E L R) (w_ctx s4) (w_db s4) = (Inr success, w_db s')"
        using c s' by simp
      moreover have "\<forall>f\<in>set (result_failed_counted res). \<exists>err. repo_truncate_error R (fail_error f) = Inr err"
        using commits(2) outbox_init [OF R] by (simp add: res)
      ultimately show ?thesis
        using tbl fetch by blast
    qed
  qed
qed

end

lemma relay_succeeds: "sql_engine E \<Longrightarrow> relay E (same_table E) (\<lambda>e _. succeeds h e)"
  unfolding relay_def relay_axioms_def db_evidence_def db_evidence_axioms_def using table.db_frame_axioms by blast

interpretation list_relay: relay list_engine "same_table list_engine" "\<lambda>e _. succeeds h e"
  for h :: "(outbox_event listdb, outbox_event) handler"
  by (rule relay_succeeds) (rule list_sql.sql_engine_axioms)

text \<open>A cycle of the relay \<open>create_outbox_processor\<close> makes, whatever the publisher does.\<close>

lemma relay_cycle:
  assumes "sql_engine E" and "unique_ids (table_rows E (w_db s))"
    and "PostgresOutboxRepository_init part ii im bs em suffix skew = Inr R"
    and "create_outbox_processor (postgres_repository E L R) publish tt base cap et en opts = Inr P"
    and "fo_breaker opts = None" and "plain_options opts"
    and "\<forall>e. benign (same_table E) publish e" and "cap \<le> LONGEST_DELAY"
    and "\<forall>r\<in>#table_rows E (w_db s). 0 \<le> attempts_made r \<and> attempts_made r < 1024"
    and "sane_world s" and "polls shutdown"
    and "processor_batch P w n shutdown filters s = (Inr res, s')" and "\<not> commit_failed res"
  shows "\<exists>I. table_rows E (w_db s') = image_mset (\<lambda>r. if event_id r \<in> I
        then settled_row R (tx_now E (w_db s)) (processed_event_ids res) (result_failed_counted res)
          (result_failed_noncounted res) (locked_row (tx_now E (w_db s)) (strip w) r) else r) (table_rows E (w_db s)) \<and>
    (\<forall>i\<in>I. \<exists>wanted. \<exists>r\<in>#table_rows E (w_db s). event_id r = i \<and>
      fetchable R (Some DEFAULT_LEASE_TIMEOUT_SECONDS) wanted (tx_now E (w_db s)) (set_mset (table_rows E (w_db s))) r) \<and>
    accounts {i. \<exists>e. event_id e = i \<and> succeeds publish e} I
      (processed_event_ids res, map fail_id (result_failed_counted res),
       map fail_id (result_failed_noncounted res), remaining_event_ids res) \<and>
    (shutdown = None \<longrightarrow> (\<exists>es db'. fetch_and_lock_pending E L R n w (Some DEFAULT_LEASE_TIMEOUT_SECONDS) filters
      (w_db s) = (Inr es, db') \<and> I = event_id ` set es)) \<and>
    (\<forall>f\<in>set (result_failed_counted res). \<exists>err. repo_truncate_error R (fail_error f) = Inr err)"
proof -
  let ?now = "tx_now E (w_db s)" and ?T = "table_rows E (w_db s)"
  let ?E = "{e. \<exists>r\<in>#?T. same_state e (locked_row ?now (strip w) r)}"
  obtain hc where hc: "hc_handler hc = publish" "0 \<le> hc_backoff_base hc" "0 < hc_backoff_cap hc" "hc_backoff_cap hc = cap"
    and P: "pr_pipeline P = factory_steps opts None [publisher_step hc]" "pr_repo P = postgres_repository E L R"
      "pr_fetch P = distributed_fetch DEFAULT_LEASE_TIMEOUT_SECONDS" "pr_commit P = bulk_commit"
      "pr_outbox_metrics P = fo_metrics opts"
    using assms(4,5) by (rule outbox_processor_built)
  have good: "\<forall>e\<in>?E. worker_ok (same_table E) (\<lambda>e _. succeeds publish e) opts hc e"
    using assms(6-9) hc leaves_succeeds [of publish]
    by (auto simp: worker_ok_def backoff_ok_def same_state_def locked_row_def)
  have "to_entity L R r = Inr e \<Longrightarrow> same_state e r" for e r
    using to_entity_same outbox_init [OF assms(3)] by blast
  then have fetched: "\<forall>es db'. fetch_and_lock_pending E L R n w (Some DEFAULT_LEASE_TIMEOUT_SECONDS) filters (w_db s) =
      (Inr es, db') \<longrightarrow> set es \<subseteq> ?E"
    using sql_engine.fetch_locks [OF assms(1) _ assms(2)] by blast
  obtain I db4 where "table_rows E (w_db s') = image_mset (\<lambda>r. if event_id r \<in> I
        then settled_row R ?now (processed_event_ids res) (result_failed_counted res)
          (result_failed_noncounted res) (locked_row ?now (strip w) r) else r) ?T"
    and "\<forall>i\<in>I. \<exists>wanted. \<exists>r\<in>#?T. event_id r = i \<and>
      fetchable R (Some DEFAULT_LEASE_TIMEOUT_SECONDS) wanted ?now (set_mset ?T) r"
    and acc: "accounts {i. \<exists>e\<in>?E. event_id e = i \<and> succeeds publish e} I
      (processed_event_ids res, map fail_id (result_failed_counted res),
       map fail_id (result_failed_noncounted res), remaining_event_ids res)"
    and "processed_event_ids res = [] \<or> (\<exists>c ok. bulk_commit (postgres_repository E L R) c (db4 :: 'a) = (Inr ok, w_db s'))"
    and "shutdown = None \<longrightarrow> (\<exists>es db'. fetch_and_lock_pending E L R n w (Some DEFAULT_LEASE_TIMEOUT_SECONDS) filters
      (w_db s) = (Inr es, db') \<and> I = event_id ` set es)"
    and "\<forall>f\<in>set (result_failed_counted res). \<exists>err. repo_truncate_error R (fail_error f) = Inr err"
    using relay.outbox_batch [OF relay_succeeds [OF assms(1)] assms(12,13,2,3) P good fetched assms(6,10,11)]
    by (elim exE conjE) (rule that)
  moreover have "accounts {i. \<exists>e. event_id e = i \<and> succeeds publish e} I
      (processed_event_ids res, map fail_id (result_failed_counted res),
       map fail_id (result_failed_noncounted res), remaining_event_ids res)"
    by (rule accounts_mono [OF acc]) blast
  ultimately show ?thesis by blast
qed

text \<open>C2. A cycle of the outbox relay, from fetch to commit. When \<open>process_batch\<close> returns without
  \<open>commit_failed\<close>, the table is the old one with only the fetched rows changed, each of them due and
  free or expired before: the completed ones are completed, the failed ones carry their own error,
  attempt and schedule, and the rest are left pending under the worker's lock. Every fetched event is
  in exactly one of the lists of the result, and one is completed only if the publisher accepted it.\<close>

theorem outbox_cycle:
  assumes "sql_engine E" and "unique_ids (table_rows E (w_db s))"
    and "PostgresOutboxRepository_init part ii im bs em suffix skew = Inr R"
    and "create_outbox_processor (postgres_repository E L R) publish tt base cap et en opts = Inr P"
    and "fo_breaker opts = None" and "plain_options opts"
    and "\<forall>e. benign (same_table E) publish e" and "cap \<le> LONGEST_DELAY"
    and "\<forall>r\<in>#table_rows E (w_db s). 0 \<le> attempts_made r \<and> attempts_made r < 1024"
    and "sane_world s" and "polls shutdown"
    and "processor_batch P w n shutdown filters s = (Inr res, s')" and "\<not> commit_failed res"
  shows "\<exists>I. table_rows E (w_db s') = image_mset (\<lambda>r. if event_id r \<in> I
        then settled_row R (tx_now E (w_db s)) (processed_event_ids res) (result_failed_counted res)
          (result_failed_noncounted res) (r\<lparr>locked_at := Some (tx_now E (w_db s)), locked_by := Some (strip w)\<rparr>)
        else r) (table_rows E (w_db s)) \<and>
    (\<forall>i\<in>I. \<exists>r\<in>#table_rows E (w_db s). event_id r = i \<and> status r = PENDING \<and>
      scheduled_at r \<le> tx_now E (w_db s) \<and>
      lock_filter (Some DEFAULT_LEASE_TIMEOUT_SECONDS) (tx_now E (w_db s)) r) \<and>
    distinct (processed_event_ids res @ map fail_id (result_failed_counted res) @
      map fail_id (result_failed_noncounted res)) \<and>
    set (processed_event_ids res @ map fail_id (result_failed_counted res) @
      map fail_id (result_failed_noncounted res)) \<union> remaining_event_ids res = I \<and>
    set (processed_event_ids res @ map fail_id (result_failed_counted res) @
      map fail_id (result_failed_noncounted res)) \<inter> remaining_event_ids res = {} \<and>
    (\<forall>i\<in>set (processed_event_ids res). \<exists>e. event_id e = i \<and> succeeds publish e)"
proof -
  let ?now = "tx_now E (w_db s)" and ?T = "table_rows E (w_db s)"
  obtain I where tbl: "table_rows E (w_db s') = image_mset (\<lambda>r. if event_id r \<in> I
        then settled_row R ?now (processed_event_ids res) (result_failed_counted res)
          (result_failed_noncounted res) (locked_row ?now (strip w) r) else r) ?T"
    and fetched: "\<forall>i\<in>I. \<exists>wanted. \<exists>r\<in>#?T. event_id r = i \<and>
      fetchable R (Some DEFAULT_LEASE_TIMEOUT_SECONDS) wanted ?now (set_mset ?T) r"
    and acc: "accounts {i. \<exists>e. event_id e = i \<and> succeeds publish e} I
      (processed_event_ids res, map fail_id (result_failed_counted res),
       map fail_id (result_failed_noncounted res), remaining_event_ids res)"
    using relay_cycle [OF assms] by (elim exE conjE) (rule that)
  show ?thesis
    by (intro exI [of _ I] conjI tbl [unfolded locked_row_def])
      (use fetched acc in \<open>auto simp: fetchable_def\<close>)
qed

section \<open>A concrete cycle\<close>

definition sample_publish :: "(outbox_event listdb, outbox_event) handler" where
  "sample_publish e db = (Inr None, db)"

definition sample_hc :: "(outbox_event listdb, outbox_event) handler_config" where
  "sample_hc = \<lparr>hc_handler = sample_publish, hc_timeout_text = lit ''30.0'', hc_backoff_base = 10,
     hc_backoff_cap = 3600, hc_err_text = (\<lambda>_. []), hc_err_name = (\<lambda>_. [])\<rparr>"

definition sample_processor :: "(outbox_event listdb, unit outbox_event_ext) processor" where
  "sample_processor = build True (with_metrics None ((new_builder
     (postgres_repository list_engine sample_libs sample_repository))\<lparr>b_pipeline := [publisher_step sample_hc]\<rparr>))"

lemma sample_processor_created:
  "create_outbox_processor (postgres_repository list_engine sample_libs sample_repository) sample_publish
     (lit ''30.0'') 10 3600 (\<lambda>_. []) (\<lambda>_. []) plain_factory = Inr sample_processor"
  by (simp add: create_outbox_processor_def factory_breaker_def plain_factory_def HandlerExecutionStep_init_def
      sample_processor_def factory_steps_def opt_step_def sample_hc_def)

lemma sample_lease_fetch:
  "fetch_and_lock_pending list_engine sample_libs sample_repository 10 (lit ''w'')
     (Some DEFAULT_LEASE_TIMEOUT_SECONDS) [] sample_db =
   (Inr [locked_sample], \<lparr>db_rows = [locked_sample, sample_next], db_now = 5, db_held = {}\<rparr>)"
proof -
  have "lock_filter (Some DEFAULT_LEASE_TIMEOUT_SECONDS) 5 r = lock_filter None 5 r"
    if "r \<in> {sample_event, sample_next}" for r
    using that by (auto simp: lock_filter_def sample_event_def sample_next_def)
  then have "list_chosen (pending_query sample_repository (Some DEFAULT_LEASE_TIMEOUT_SECONDS) (\<lambda>_. True) 5 10) sample_db =
      list_chosen (pending_query sample_repository None (\<lambda>_. True) 5 10) sample_db"
    by (simp add: list_chosen_def pending_query_def sample_db_def fetchable_def)
  then have "sql_update_from list_engine (pending_query sample_repository (Some DEFAULT_LEASE_TIMEOUT_SECONDS) (\<lambda>_. True) 5 10)
      f sample_db = sql_update_from list_engine (pending_query sample_repository None (\<lambda>_. True) 5 10) f sample_db" for f
    by (simp add: list_engine_def)
  moreover have "tx_now list_engine sample_db = 5"
    by (simp add: list_engine_def sample_db_def)
  moreover have "timedelta_ok DEFAULT_LEASE_TIMEOUT_SECONDS"
    by (simp add: timedelta_ok_def DEFAULT_LEASE_TIMEOUT_SECONDS_def)
  moreover have "normalize_worker_id (lit ''w'') = Inr (lit ''w'')"
    by (simp add: normalize_worker_id_def lit_def py_space_def worker_char_def)
  ultimately show ?thesis
    using sample_fetch by (simp add: fetch_and_lock_pending_def andthen_def)
qed

definition sample_result :: batch_result where
  "sample_result = \<lparr>processed_event_ids = [UUID 7], result_failed_counted = [], result_failed_noncounted = [],
     remaining_event_ids = {}, commit_failed = False\<rparr>"

lemma sample_processor_parts:
  "pr_fetch sample_processor (pr_repo sample_processor) n w fs db =
     fetch_and_lock_pending list_engine sample_libs sample_repository n w (Some DEFAULT_LEASE_TIMEOUT_SECONDS) fs db"
  "pr_repo sample_processor = postgres_repository list_engine sample_libs sample_repository"
  "pr_pipeline sample_processor = [publisher_step sample_hc]"
  "pr_commit sample_processor = bulk_commit" "pr_outbox_metrics sample_processor = None"
  by (simp_all add: sample_processor_def build_def with_metrics_def new_builder_def postgres_repository_def
      distributed_fetch_def required_def)

text \<open>A cycle that fetches one event, publishes it and completes its row.\<close>

lemma sample_batch:
  assumes "fetch_and_lock_pending list_engine sample_libs sample_repository 10 (lit ''w'') (Some DEFAULT_LEASE_TIMEOUT_SECONDS) []
      db = (Inr [e], db1)"
    and "event_id e = UUID 7" and "db_rows db1 = e # rows" and "status e = PENDING" and "locked_by e = Some (lit ''w'')"
    and "locked_at e \<noteq> None" and "\<forall>r\<in>set rows. event_id r \<noteq> UUID 7" and "db_held db1 = {}"
  shows "\<exists>s'. processor_batch sample_processor (lit ''w'') 10 None [] (world_of db) = (Inr sample_result, s')"
proof -
  have "filter (\<lambda>r. event_id r = UUID 7 \<and> P r) rows = []" for P
    using assms(7) by (simp add: filter_empty_conv)
  then have "\<exists>db'. bulk_commit (pr_repo sample_processor) ((new_context (lit ''w''))\<lparr>completed_ids := [UUID 7],
      statuses := [UUID 7 \<mapsto> STATUS_COMPLETED]\<rparr>) db1 = (Inr True, db')"
    using assms(2-6,8)
    by (auto simp: bulk_commit_def false_on_error_def new_context_def sample_processor_parts postgres_repository_def required_def
        bulk_mark_completed_def sample_repository_def chunks.simps complete_batch_def andthen_def catch_def
        list_engine_def list_update_def held_by_def check_total_def)
  then show ?thesis
    using assms(1,2)
    by (auto simp: processor_batch_def sample_processor_parts(1) sample_processor_parts(3-5) poll_def andthen_def on_db_def
        update_ctx_def world_of_def process_batch_def on_batch_start_def on_batch_end_def catch_def process_event_def on_event_start_def
        on_event_end_def finally_do_def publisher_step_def base_processing_step_def List.map_filter_def
        publisher_execute_def new_context_def handler_execute_def sample_hc_def sample_publish_def
        coerce_handler_outcome_def record_outcome_def handler_completed_def ctx_mark_completed_def
        set_status_def STATUS_COMPLETED_def lit_def step_next_def sample_result_def)
qed

lemma sample_cycle:
  "\<exists>s'. processor_batch sample_processor (lit ''w'') 10 None [] (world_of sample_db) = (Inr sample_result, s')"
  by (rule sample_batch [OF sample_lease_fetch, where rows = "[sample_next]"])
    (simp_all add: locked_sample_def sample_event_def sample_next_def)

theorem outbox_cycle_witness:
  "\<exists>e. event_id e = UUID 7 \<and> succeeds sample_publish e"
proof -
  obtain s' where run: "processor_batch sample_processor (lit ''w'') 10 None [] (world_of sample_db) = (Inr sample_result, s')"
    using sample_cycle by blast
  have "benign (same_table list_engine) sample_publish e" for e
    by (simp add: benign_def sample_publish_def table.frame_refl)
  moreover have "0 \<le> attempts_made r \<and> attempts_made r < 1024" if "r \<in># table_rows list_engine sample_db" for r
    using that by (auto simp: sample_event_def sample_next_def)
  moreover have "polls None" "(3600::rat) \<le> LONGEST_DELAY" "\<not> commit_failed sample_result"
    by (simp_all add: polls_def LONGEST_DELAY_def sample_result_def)
  ultimately have "\<forall>i\<in>set (processed_event_ids sample_result). \<exists>e. event_id e = i \<and> succeeds sample_publish e"
    using outbox_cycle [OF list_sql.sql_engine_axioms _ sample_repository_init sample_processor_created _ _ _ _ _ _ _ run]
      sample_db_rows(2) by auto
  then show ?thesis
    by (simp add: sample_result_def)
qed

section \<open>A worker id with blanks around it\<close>

text \<open>C33. The fetch strips the worker id, the commits do not: what a worker whose id has blanks around it
  fetches it can neither complete nor fail, one by one or in bulk, whatever the counting; the rows stay
  locked under the stripped id until their lease expires.\<close>

theorem padded_worker_cannot_commit:
  assumes "sql_engine E" and "unique_ids (table_rows E db)"
    and "PostgresOutboxRepository_init part ii im bs em suffix skew = Inr R"
    and "fetch_and_lock_pending E L R n w ttl fs db = (Inr es, db')"
    and "strip w \<noteq> w" and "e \<in> set es" and "fail_id f = event_id e"
  shows "fst (mark_completed E (event_id e) w db') \<noteq> Inr () \<and>
    fst (mark_failed E R (event_id e) err w nxt c db') \<noteq> Inr () \<and>
    fst (bulk_mark_completed E R [event_id e] w db') \<noteq> Inr k \<and>
    fst (bulk_mark_failed E R [f] w c db') \<noteq> Inr k"
proof -
  note R = outbox_init [OF assms(3)]
  have "to_entity L R r = Inr e \<Longrightarrow> same_state e r" for e r
    using to_entity_same R by blast
  then have tbl: "table_rows E db' = updated_rows (\<lambda>r. event_id r \<in> event_id ` set es)
      (locked_row (tx_now E db) (strip w)) (table_rows E db)"
    using sql_engine.fetch_locks [OF assms(1,4,2)] by blast
  then have other: "locked_by r \<noteq> Some w" if "r \<in># table_rows E db'" "event_id r = event_id e" for r
    using that assms(5,6) by (auto simp: set_updated_rows locked_row_def)
  have u: "unique_ids (table_rows E db')"
    unfolding tbl using assms(2) by (subst unique_updated) simp_all
  have "fst (mark_completed E (event_id e) w db') \<noteq> Inr ()"
    using sql_engine.mark_completed_outcome [OF assms(1) u, of "event_id e" w] other
    by (cases "mark_completed E (event_id e) w db'") (fastforce simp: held_by_def)
  moreover have "fst (mark_failed E R (event_id e) err w nxt c db') \<noteq> Inr ()"
  proof (cases "repo_truncate_error R err")
    case (Inr tr)
    then show ?thesis
      using sql_engine.mark_failed_outcome [OF assms(1) u _ Inr, of "event_id e" w nxt c] other
      by (cases "mark_failed E R (event_id e) err w nxt c db'") (fastforce simp: held_by_def)
  qed (simp add: mark_failed_def andthen_def)
  moreover have "fst (bulk_mark_completed E R [event_id e] w db') \<noteq> Inr k"
    using sql_engine.bulk_completed_outcome [OF assms(1) _ u, of R "[event_id e]" w k] other R
    by (cases "bulk_mark_completed E R [event_id e] w db'") (fastforce simp: held_by_def)
  moreover have "fst (bulk_mark_failed E R [f] w c db') \<noteq> Inr k"
    using sql_engine.bulk_failed_outcome [OF assms(1) _ u, of R "[f]" w c k] other R assms(7)
    by (cases "bulk_mark_failed E R [f] w c db'") fastforce
  ultimately show ?thesis by blast
qed

lemma padded_fetch:
  "fetch_and_lock_pending list_engine sample_libs sample_repository 10 (lit '' w'') None [] sample_db =
     (Inr [locked_sample], \<lparr>db_rows = [locked_sample, sample_next], db_now = 5, db_held = {}\<rparr>)"
proof -
  have "normalize_worker_id (lit '' w'') = Inr (lit ''w'')" "normalize_worker_id (lit ''w'') = Inr (lit ''w'')"
    by (simp_all add: normalize_worker_id_def strip_def lit_def py_space_def worker_char_def)
  then show ?thesis
    using sample_fetch by (simp add: fetch_and_lock_pending_def andthen_def)
qed

theorem padded_worker_cannot_commit_witness:
  "fst (mark_completed list_engine (UUID 7) (lit '' w'')
     \<lparr>db_rows = [locked_sample, sample_next], db_now = 5, db_held = {}\<rparr>) \<noteq> Inr ()"
proof -
  have "strip (lit '' w'') \<noteq> lit '' w''" "event_id locked_sample = UUID 7"
    by (simp_all add: strip_def lit_def py_space_def locked_sample_def sample_event_def)
  then show ?thesis
    using padded_worker_cannot_commit [OF list_sql.sql_engine_axioms sample_db_rows(2) sample_repository_init
        padded_fetch, of locked_sample "\<lparr>fail_id = UUID 7, fail_error = [], fail_retry_at = None\<rparr>"] by simp
qed

end
