(* ===== verification/Consumer.thy ===== *)
theory Consumer
  imports Steps
begin

text \<open>
  The inbox consumer (\<open>application/services/consume.py\<close>, \<open>core/protocols/consumers.py\<close>): one broker
  message becomes an inbox row, is handled inside the row's transaction, and is committed to the
  broker or rewound. The broker's client, the transaction provider, the handler and the metrics
  collector are the user's: arguments of the runner. The optional semaphore and the lifecycle lock
  only exclude other tasks and are left out.
\<close>

section \<open>Messages\<close>

record 'b ack_handle =
  ack_commit :: "('b, unit) act"
  ack_rewind :: "('b, unit) act"

text \<open>\<open>NullAckHandle\<close>, and \<open>AckHandle.rewind\<close> by default, do nothing.\<close>

definition null_ack_handle :: "'b ack_handle" where
  "null_ack_handle = \<lparr>ack_commit = ret (), ack_rewind = ret ()\<rparr>"

text \<open>The payload and the four identifiers come from the broker's message, where an envelope may hold any JSON
  value in their place (\<open>None\<close> is \<open>JNull\<close>): \<open>cast\<close> checks nothing.\<close>

record 'b consumed_message =
  msg_message_id :: pystr
  msg_source :: pystr
  msg_event_type :: pystr
  msg_payload :: json
  msg_headers :: "(pystr \<times> pystr) list option"
  msg_trace_id :: json
  msg_correlation_id :: json
  msg_causation_id :: json
  msg_schema_version :: json
  msg_ack_handle :: "'b ack_handle option"

definition handle_of :: "'b consumed_message \<Rightarrow> 'b ack_handle" where
  "handle_of m = get_or (msg_ack_handle m) null_ack_handle"

section \<open>The runner and the state it works on\<close>

datatype ack_strategy = AT_MOST_ONCE | AT_LEAST_ONCE | EXACTLY_ONCE_INBOX

datatype commit_offset_policy = ON_PERSIST | ON_SUCCESS

datatype consumer_observation =
    IncConsumed
  | IncCommitted
  | IncCommitFailed
  | IncInboxDuplicate pystr
  | IncInboxProcessed pystr
  | IncInboxFailed pystr
  | ObserveHandlerDuration rat pystr

text \<open>
  \<open>transaction()\<close> is an asynchronous context manager: entering it opens the transaction; leaving it
  commits when the body returned and rolls back when it raised, and may raise itself.
\<close>

record 'db transaction_provider =
  tx_enter :: "('db, unit) act"
  tx_leave :: "error option \<Rightarrow> ('db, unit) act"

text \<open>The calls the runner makes on the repository the transaction yields.\<close>

record 'db inbox_calls =
  ic_create :: "inbox_event \<Rightarrow> ('db, inbox_event) act"
  ic_mark_processing :: "uuid \<Rightarrow> pystr \<Rightarrow> ('db, bool) act"
  ic_mark_completed :: "uuid \<Rightarrow> pystr \<Rightarrow> ('db, unit) act"

definition postgres_inbox :: "('db, inbox_event) engine \<Rightarrow> (cell \<Rightarrow> pystr) \<Rightarrow> libs \<Rightarrow>
    unit inbox_event_ext repository \<Rightarrow> 'db inbox_calls" where
  "postgres_inbox E py_str L R = \<lparr>ic_create = create E py_str L R,
     ic_mark_processing = mark_processing E, ic_mark_completed = mark_completed E\<rparr>"

record ('db, 'b) runner =
  rn_getone :: "('b, 'b consumed_message) act"
  rn_start :: "('b, unit) act"
  rn_stop :: "('b, unit) act"
  rn_provider :: "'db transaction_provider"
  rn_calls :: "'db inbox_calls"
  rn_handler :: "('db, inbox_event) handler option"
  rn_worker_id :: pystr
  rn_consumer_group :: pystr
  rn_libs :: libs
  rn_service :: domain_service
  rn_ack_strategy :: ack_strategy
  rn_commit_offset_policy :: commit_offset_policy
  rn_commit_on_failed :: bool
  rn_refuses :: "consumer_observation \<Rightarrow> error option"

text \<open>
  The streams are what \<open>uuid4\<close>, the clocks and, for the loop, another task's \<open>stop()\<close> will give;
  \<open>n_sleeps\<close> are the delays slept so far.
\<close>

record ('db, 'b) node =
  n_db :: 'db
  n_broker :: 'b
  n_uuids :: "nat \<Rightarrow> uuid"
  n_times :: "nat \<Rightarrow> instant"
  n_perf :: "nat \<Rightarrow> rat"
  n_log :: "consumer_observation list"
  n_started :: bool
  n_stops :: "nat \<Rightarrow> bool"
  n_sleeps :: "rat list"

definition on_node_db :: "('db, 'a) act \<Rightarrow> (('db, 'b, 'z) node_scheme, 'a) act" where
  "on_node_db m s = (case m (n_db s) of (r, db) \<Rightarrow> (r, s\<lparr>n_db := db\<rparr>))"

definition on_broker :: "('b, 'a) act \<Rightarrow> (('db, 'b, 'z) node_scheme, 'a) act" where
  "on_broker m s = (case m (n_broker s) of (r, b) \<Rightarrow> (r, s\<lparr>n_broker := b\<rparr>))"

definition new_uuid :: "(('db, 'b, 'z) node_scheme, uuid) act" where
  "new_uuid s = (Inr (n_uuids s 0), s\<lparr>n_uuids := (\<lambda>k. n_uuids s (Suc k))\<rparr>)"

definition node_utc_now :: "(('db, 'b, 'z) node_scheme, instant) act" where
  "node_utc_now s = (Inr (n_times s 0), s\<lparr>n_times := (\<lambda>k. n_times s (Suc k))\<rparr>)"

definition node_perf_counter :: "(('db, 'b, 'z) node_scheme, rat) act" where
  "node_perf_counter s = (Inr (n_perf s 0), s\<lparr>n_perf := (\<lambda>k. n_perf s (Suc k))\<rparr>)"

definition report :: "('db, 'b) runner \<Rightarrow> consumer_observation \<Rightarrow> (('db, 'b, 'z) node_scheme, unit) act" where
  "report Q x s = (case rn_refuses Q x of
     Some err \<Rightarrow> (Inl err, s) | None \<Rightarrow> (Inr (), s\<lparr>n_log := n_log s @ [x]\<rparr>))"

section \<open>One message in a transaction\<close>

text \<open>What the validation of an inbox event accepts as a payload and as an optional text.\<close>

fun json_object :: "json \<Rightarrow> jdict res" where
  "json_object (JObj d) = Inr d"
| "json_object _ = Inl ValidationError"

fun json_text :: "json \<Rightarrow> pystr option res" where
  "json_text JNull = Inr None"
| "json_text (JStr s) = Inr (Some s)"
| "json_text _ = Inl ValidationError"

definition message_event :: "('db, 'b) runner \<Rightarrow> 'b consumed_message \<Rightarrow> uuid \<Rightarrow> instant \<Rightarrow> instant \<Rightarrow>
    inbox_event res" where
  "message_event Q m i now1 now2 =
     bindr (json_object (msg_payload m)) (\<lambda>body.
     bindr (json_text (msg_trace_id m)) (\<lambda>trace.
     bindr (json_text (msg_correlation_id m)) (\<lambda>corr.
     bindr (json_text (msg_causation_id m)) (\<lambda>caus.
     bindr (json_text (msg_schema_version m)) (\<lambda>schema.
     create_inbox_event (rn_libs Q) (rn_service Q) i now1 now2 (msg_message_id m) (rn_consumer_group Q)
       (msg_source m) (msg_event_type m) body (msg_headers m) trace corr caus schema)))))"

definition create_event :: "('db, 'b) runner \<Rightarrow> 'b consumed_message \<Rightarrow>
    (('db, 'b, 'z) node_scheme, inbox_event) act" where
  "create_event Q m =
     andthen new_uuid (\<lambda>i. andthen node_utc_now (\<lambda>now1. andthen node_utc_now (\<lambda>now2.
     lift_res (message_event Q m i now1 now2))))"

text \<open>The variables of \<open>process_in_transaction\<close>: they outlive the transaction that set them.\<close>

record ('db, 'b) frame = "('db, 'b) node" +
  f_stored :: "inbox_event option"
  f_result :: "handler_result option"
  f_error :: "error option"
  f_started_at :: rat

definition assign :: "('s \<Rightarrow> 's) \<Rightarrow> ('s, unit) act" where
  "assign f s = (Inr (), f s)"

text \<open>\<open>async with\<close>: the body's error reaches \<open>leave\<close>; an error \<open>leave\<close> raises replaces it.\<close>

definition async_with :: "('s, unit) act \<Rightarrow> (error option \<Rightarrow> ('s, unit) act) \<Rightarrow> ('s, unit) act \<Rightarrow> ('s, unit) act" where
  "async_with enter leave body = andthen enter (\<lambda>_ s.
     case body s of
       (Inr _, s1) \<Rightarrow> leave None s1
     | (Inl err, s1) \<Rightarrow> andthen (leave (Some err)) (\<lambda>_. throw err) s1)"

text \<open>\<open>except Exception as exc: handler_error = exc\<close>, then \<open>after exc\<close>.\<close>

definition noting_error :: "(('db, 'b) frame, unit) act \<Rightarrow> (error \<Rightarrow> (('db, 'b) frame, unit) act) \<Rightarrow>
    (('db, 'b) frame, unit) act" where
  "noting_error m after = catch m (\<lambda>err.
     if is_exception err then andthen (assign (\<lambda>s. s\<lparr>f_error := Some err\<rparr>)) (\<lambda>_. after err)
     else throw err)"

definition settle :: "('db, 'b) runner \<Rightarrow> inbox_event \<Rightarrow> handler_result \<Rightarrow>
    (('db, 'b, 'z) node_scheme, unit) act" where
  "settle Q stored result =
     (if res_processed result \<and> \<not> res_success result then throw HandlerRetryRequestedError
      else andthen (on_node_db (ic_mark_completed (rn_calls Q) (event_id stored) (rn_worker_id Q)))
        (\<lambda>_. andthen node_perf_counter (\<lambda>_. ret ())))"

definition handle_stored :: "('db, 'b) runner \<Rightarrow> ('db, inbox_event) handler \<Rightarrow> inbox_event \<Rightarrow>
    (('db, 'b) frame, unit) act" where
  "handle_stored Q handler stored =
     andthen node_perf_counter (\<lambda>now. andthen (assign (\<lambda>s. s\<lparr>f_started_at := now\<rparr>)) (\<lambda>_.
     noting_error
       (andthen (on_node_db (handler stored)) (\<lambda>raw.
        andthen (assign (\<lambda>s. s\<lparr>f_result := Some (coerce_handler_outcome raw)\<rparr>)) (\<lambda>_.
        settle Q stored (coerce_handler_outcome raw))))
       throw))"

definition transaction_body :: "('db, 'b) runner \<Rightarrow> inbox_event \<Rightarrow> (('db, 'b) frame, unit) act" where
  "transaction_body Q e =
     andthen (on_node_db (ic_create (rn_calls Q) e)) (\<lambda>stored.
     andthen (assign (\<lambda>s. s\<lparr>f_stored := Some stored\<rparr>)) (\<lambda>_.
     case rn_handler Q of
       None \<Rightarrow> ret ()
     | Some handler \<Rightarrow>
         if status stored = COMPLETED then ret ()
         else andthen (on_node_db (ic_mark_processing (rn_calls Q) (event_id stored) (rn_worker_id Q)))
           (\<lambda>ours. if ours then handle_stored Q handler stored else ret ())))"

type_synonym transaction_outcome =
  "inbox_event option \<times> handler_result option \<times> error option \<times> rat"

definition process_in_transaction :: "('db, 'b) runner \<Rightarrow> inbox_event \<Rightarrow>
    (('db, 'b) node, transaction_outcome) act" where
  "process_in_transaction Q e s =
     (case noting_error
        (async_with (on_node_db (tx_enter (rn_provider Q)))
          (\<lambda>err. on_node_db (tx_leave (rn_provider Q) err)) (transaction_body Q e))
        (\<lambda>_. ret ())
        (node.extend s \<lparr>f_stored = None, f_result = None, f_error = None, f_started_at = 0\<rparr>) of
      (r, s') \<Rightarrow> (bindr r (\<lambda>_. Inr (f_stored s', f_result s', f_error s', f_started_at s')), node.truncate s'))"

section \<open>One message\<close>

record consume_result =
  cr_message_id :: pystr
  cr_event_id :: "uuid option"
  cr_committed :: bool
  cr_processed :: bool
  cr_duplicate :: bool

definition commit_with_metrics :: "('db, 'b) runner \<Rightarrow> 'b ack_handle \<Rightarrow> (('db, 'b) node, unit) act" where
  "commit_with_metrics Q h =
     andthen (catch (on_broker (ack_commit h)) (\<lambda>err.
       if is_exception err then andthen (report Q IncCommitFailed) (\<lambda>_. throw err) else throw err)) (\<lambda>_.
     report Q IncCommitted)"

text \<open>\<open>if cond: await commit(); committed = True\<close>.\<close>

definition commit_if :: "('db, 'b) runner \<Rightarrow> 'b ack_handle \<Rightarrow> bool \<Rightarrow> bool \<Rightarrow> (('db, 'b) node, bool) act" where
  "commit_if Q h cond committed =
     (if cond then andthen (commit_with_metrics Q h) (\<lambda>_. ret True) else ret committed)"

definition handle_duplicate :: "('db, 'b) runner \<Rightarrow> 'b consumed_message \<Rightarrow> inbox_event \<Rightarrow>
    'b ack_handle \<Rightarrow> bool \<Rightarrow> (('db, 'b) node, consume_result) act" where
  "handle_duplicate Q m stored h committed =
     andthen (commit_if Q h (\<not> committed) committed) (\<lambda>committed.
     andthen (report Q (IncInboxDuplicate (event_type stored))) (\<lambda>_.
     ret \<lparr>cr_message_id = msg_message_id m, cr_event_id = Some (event_id stored),
       cr_committed = committed, cr_processed = False, cr_duplicate = True\<rparr>))"

definition handle_handler_error :: "('db, 'b) runner \<Rightarrow> 'b consumed_message \<Rightarrow> inbox_event \<Rightarrow>
    rat \<Rightarrow> 'b ack_handle \<Rightarrow> bool \<Rightarrow> (('db, 'b) node, consume_result) act" where
  "handle_handler_error Q m stored started_at h committed =
     andthen (if started_at > 0
       then andthen node_perf_counter (\<lambda>now.
         report Q (ObserveHandlerDuration (now - started_at) (event_type stored)))
       else ret ()) (\<lambda>_.
     andthen (report Q (IncInboxFailed (event_type stored))) (\<lambda>_.
     andthen (commit_if Q h (rn_ack_strategy Q = AT_LEAST_ONCE \<and>
       rn_commit_offset_policy Q = ON_PERSIST \<and> \<not> committed) committed) (\<lambda>committed.
     andthen (commit_if Q h (rn_ack_strategy Q = EXACTLY_ONCE_INBOX \<and> rn_commit_on_failed Q) committed)
       (\<lambda>committed.
     ret \<lparr>cr_message_id = msg_message_id m, cr_event_id = Some (event_id stored),
       cr_committed = committed, cr_processed = False, cr_duplicate = False\<rparr>))))"

definition update_metrics_after_handler :: "('db, 'b) runner \<Rightarrow> pystr \<Rightarrow> handler_result \<Rightarrow> rat \<Rightarrow>
    (('db, 'b) node, unit) act" where
  "update_metrics_after_handler Q ev_type result started_at =
     andthen node_perf_counter (\<lambda>now.
     andthen (report Q (ObserveHandlerDuration (now - started_at) ev_type)) (\<lambda>_.
     if res_processed result
     then report Q (if res_success result then IncInboxProcessed ev_type else IncInboxFailed ev_type)
     else ret ()))"

definition should_commit_offset :: "('db, 'b) runner \<Rightarrow> handler_result option \<Rightarrow> bool \<Rightarrow> bool" where
  "should_commit_offset Q result committed =
     (if committed then False
      else case rn_ack_strategy Q of
        AT_LEAST_ONCE \<Rightarrow>
          (case rn_commit_offset_policy Q of
             ON_PERSIST \<Rightarrow> True
           | ON_SUCCESS \<Rightarrow>
               (case result of None \<Rightarrow> True | Some r \<Rightarrow> \<not> res_processed r \<or> res_success r))
      | EXACTLY_ONCE_INBOX \<Rightarrow>
          (if rn_handler Q = None then True
           else case result of None \<Rightarrow> False | Some r \<Rightarrow> \<not> res_processed r \<or> res_success r)
      | AT_MOST_ONCE \<Rightarrow> False)"

definition process_message :: "('db, 'b) runner \<Rightarrow> 'b consumed_message \<Rightarrow> 'b ack_handle \<Rightarrow>
    (('db, 'b) node, consume_result) act" where
  "process_message Q m h =
     andthen (commit_if Q h (rn_ack_strategy Q = AT_MOST_ONCE) False) (\<lambda>committed.
     andthen (create_event Q m) (\<lambda>e.
     andthen (process_in_transaction Q e) (\<lambda>(stored, result, error, started_at).
     case stored of
       None \<Rightarrow> throw (InboxPersistError (msg_message_id m) error)
     | Some stored \<Rightarrow>
         if status stored = COMPLETED then handle_duplicate Q m stored h committed
         else if error \<noteq> None then handle_handler_error Q m stored started_at h committed
         else andthen (case result of
                None \<Rightarrow> ret ()
              | Some r \<Rightarrow> update_metrics_after_handler Q (msg_event_type m) r started_at) (\<lambda>_.
           andthen (commit_if Q h (should_commit_offset Q result committed) committed) (\<lambda>committed.
           ret \<lparr>cr_message_id = msg_message_id m, cr_event_id = Some (event_id stored),
             cr_committed = committed,
             cr_processed = (case result of None \<Rightarrow> False | Some r \<Rightarrow> res_processed r),
             cr_duplicate = False\<rparr>)))))"

definition rewind :: "'b ack_handle \<Rightarrow> (('db, 'b) node, unit) act" where
  "rewind h = catch (on_broker (ack_rewind h)) (\<lambda>err. if is_exception err then ret () else throw err)"

definition process_one :: "('db, 'b) runner \<Rightarrow> (('db, 'b) node, consume_result) act" where
  "process_one Q =
     andthen (on_broker (rn_getone Q)) (\<lambda>m.
     andthen (report Q IncConsumed) (\<lambda>_.
     andthen (catch (process_message Q m (handle_of m))
       (\<lambda>err. andthen (rewind (handle_of m)) (\<lambda>_. throw err))) (\<lambda>result.
     andthen (if cr_committed result then ret () else rewind (handle_of m)) (\<lambda>_.
     ret result))))"

section \<open>Lifecycle and loop\<close>

definition start :: "('db, 'b) runner \<Rightarrow> (('db, 'b) node, unit) act" where
  "start Q s =
     (if n_started s then (Inr (), s)
      else andthen (on_broker (rn_start Q)) (\<lambda>_. assign (\<lambda>s. s\<lparr>n_started := True\<rparr>)) s)"

definition stop :: "('db, 'b) runner \<Rightarrow> (('db, 'b) node, unit) act" where
  "stop Q s =
     (if \<not> n_started s then (Inr (), s)
      else andthen (assign (\<lambda>s. s\<lparr>n_started := False\<rparr>)) (\<lambda>_. on_broker (rn_stop Q)) s)"

definition RUN_FOREVER_MIN_BACKOFF :: rat where "RUN_FOREVER_MIN_BACKOFF = 1 / 10"
definition RUN_FOREVER_MAX_BACKOFF :: rat where "RUN_FOREVER_MAX_BACKOFF = 5"

text \<open>One turn of the loop: the wait the next turn starts with.\<close>

definition run_turn :: "('db, 'b) runner \<Rightarrow> rat \<Rightarrow> (('db, 'b) node, rat) act" where
  "run_turn Q wait =
     andthen (catch (andthen (process_one Q) (\<lambda>result. ret (cr_committed result)))
       (\<lambda>err. if is_exception err then ret False else throw err)) (\<lambda>committed.
     if committed then ret RUN_FOREVER_MIN_BACKOFF
     else andthen (assign (\<lambda>s. s\<lparr>n_sleeps := n_sleeps s @ [wait]\<rparr>)) (\<lambda>_.
       ret (min (wait * 2) RUN_FOREVER_MAX_BACKOFF)))"

text \<open>\<open>while self._running\<close>, for at most \<open>k\<close> turns: \<open>n_stops\<close> says when another task has stopped the
  runner. The result says whether the loop has ended.\<close>

fun run_loop :: "('db, 'b) runner \<Rightarrow> nat \<Rightarrow> rat \<Rightarrow> (('db, 'b) node, bool) act" where
  "run_loop Q 0 wait = ret False"
| "run_loop Q (Suc k) wait = (\<lambda>s.
     if n_stops s 0 then (Inr True, s)
     else andthen (run_turn Q wait) (run_loop Q k) (s\<lparr>n_stops := (\<lambda>j. n_stops s (Suc j))\<rparr>))"

definition run_forever :: "('db, 'b) runner \<Rightarrow> nat \<Rightarrow> (('db, 'b) node, bool) act" where
  "run_forever Q k s =
     (if \<not> n_started s then (Inl RuntimeError, s) else run_loop Q k RUN_FOREVER_MIN_BACKOFF s)"

end
