(* ===== verification/Acknowledgement.thy ===== *)
theory Acknowledgement
  imports Consumer
begin

text \<open>
  What the consumer does to the broker and when it sleeps, for any transaction provider, repository
  and handler: \<open>keeps\<close> is a view of the state a computation leaves alone, \<open>acks\<close> tells whether it has
  committed the message.
\<close>

section \<open>Views a computation keeps\<close>

definition keeps :: "('s \<Rightarrow> 'v) \<Rightarrow> ('s \<Rightarrow> 'r \<times> 's) \<Rightarrow> bool" where
  "keeps v m \<longleftrightarrow> (\<forall>s. v (snd (m s)) = v s)"

lemma keepsD: "keeps v m \<Longrightarrow> m s = (r, s') \<Longrightarrow> v s' = v s"
  by (metis keeps_def snd_conv)

lemma keepsI: "(\<And>s r s'. m s = (r, s') \<Longrightarrow> v s' = v s) \<Longrightarrow> keeps v m"
  by (metis keeps_def prod.collapse)

lemma keeps_pure: "keeps v (ret a)" "keeps v (throw e)" "keeps v (lift_res x)"
  by (simp_all add: keeps_def)

lemma keeps_assign: "(\<And>s. v (f s) = v s) \<Longrightarrow> keeps v (assign f)"
  by (simp add: keeps_def assign_def)

lemma keeps_andthen: "keeps v m \<Longrightarrow> (\<And>a. keeps v (f a)) \<Longrightarrow> keeps v (andthen m f)"
  by (auto simp: keeps_def andthen_def split: prod.split sum.split) (metis snd_conv)+

lemma keeps_catch: "keeps v m \<Longrightarrow> (\<And>e. keeps v (h e)) \<Longrightarrow> keeps v (catch m h)"
  by (auto simp: keeps_def catch_def split: prod.split sum.split) (metis snd_conv)+

lemma keeps_if: "(b \<Longrightarrow> keeps v m) \<Longrightarrow> (\<not> b \<Longrightarrow> keeps v m') \<Longrightarrow> keeps v (if b then m else m')"
  by simp

lemma keeps_option:
  "(x = None \<Longrightarrow> keeps v m) \<Longrightarrow> (\<And>a. x = Some a \<Longrightarrow> keeps v (f a)) \<Longrightarrow>
     keeps v (case x of None \<Rightarrow> m | Some a \<Rightarrow> f a)"
  by (cases x) simp_all

lemma keeps_prod: "(\<And>a b. x = (a, b) \<Longrightarrow> keeps v (f a b)) \<Longrightarrow> keeps v (case x of (a, b) \<Rightarrow> f a b)"
  by (cases x) simp

lemma keeps_async_with:
  assumes "keeps v enter" and "\<And>err. keeps v (leave err)" and "keeps v body"
  shows "keeps v (async_with enter leave body)"
  unfolding async_with_def
proof (rule keeps_andthen [OF assms(1)], rule keepsI)
  fix a s r s'
  assume run: "(case body s of (Inr _, s1) \<Rightarrow> leave None s1
    | (Inl err, s1) \<Rightarrow> andthen (leave (Some err)) (\<lambda>_. throw err) s1) = (r, s')"
  have leaves: "keeps v (andthen (leave (Some err)) (\<lambda>_. throw err))" for err
    using assms(2) by (intro keeps_andthen keeps_pure)
  obtain x s1 where b: "body s = (x, s1)"
    by fastforce
  with assms(3) have "v s1 = v s"
    by (rule keepsD)
  moreover have "v s' = v s1"
    using run b keepsD [OF leaves] keepsD [OF assms(2)] by (cases x) auto
  ultimately show "v s' = v s" by simp
qed

lemmas keeps_intros = keeps_pure keeps_andthen keeps_catch keeps_if keeps_option keeps_prod
  keeps_async_with

text \<open>The primitives of the runner and the views they keep.\<close>

lemma keeps_broker:
  "keeps n_broker (on_node_db m)" "keeps n_broker new_uuid" "keeps n_broker node_utc_now"
  "keeps n_broker node_perf_counter" "keeps n_broker (report Q x)"
  by (auto simp: keeps_def on_node_db_def new_uuid_def node_utc_now_def node_perf_counter_def report_def
      split: prod.split option.split)

lemma keeps_sleeps:
  "keeps n_sleeps (on_node_db m)" "keeps n_sleeps new_uuid" "keeps n_sleeps node_utc_now"
  "keeps n_sleeps node_perf_counter" "keeps n_sleeps (report Q x)" "keeps n_sleeps (on_broker c)"
  by (auto simp: keeps_def on_node_db_def new_uuid_def node_utc_now_def node_perf_counter_def report_def
      on_broker_def split: prod.split option.split)

lemma keeps_stops:
  "keeps n_stops (on_node_db m)" "keeps n_stops new_uuid" "keeps n_stops node_utc_now"
  "keeps n_stops node_perf_counter" "keeps n_stops (report Q x)" "keeps n_stops (on_broker c)"
  by (auto simp: keeps_def on_node_db_def new_uuid_def node_utc_now_def node_perf_counter_def report_def
      on_broker_def split: prod.split option.split)

lemma keeps_noting: "keeps v m \<Longrightarrow> (\<And>s err. v (s\<lparr>f_error := Some err\<rparr>) = v s) \<Longrightarrow>
    (\<And>err. keeps v (after err)) \<Longrightarrow> keeps v (noting_error m after)"
  unfolding noting_error_def by (intro keeps_intros keeps_assign)

lemma keeps_transaction_body:
  assumes "\<And>(m :: ('db, inbox_event) act). keeps v (on_node_db m)"
    and "\<And>(m :: ('db, bool) act). keeps v (on_node_db m)"
    and "\<And>(m :: ('db, unit) act). keeps v (on_node_db m)"
    and "\<And>(m :: ('db, handler_result option) act). keeps v (on_node_db m)"
    and "keeps v node_perf_counter"
    and "\<And>s x. v (s\<lparr>f_stored := x\<rparr>) = v s" "\<And>s x. v (s\<lparr>f_result := x\<rparr>) = v s"
      "\<And>s x. v (s\<lparr>f_error := x\<rparr>) = v s" "\<And>s x. v (s\<lparr>f_started_at := x\<rparr>) = v s"
  shows "keeps v (transaction_body (Q :: ('db, 'b) runner) e)"
  unfolding transaction_body_def handle_stored_def settle_def
  by (intro keeps_intros keeps_noting keeps_assign assms)

lemma truncate_extend [simp]: "node.truncate (node.extend s x) = s"
  by (cases s) (simp add: node.defs)

lemma keeps_transaction:
  assumes "keeps (v \<circ> node.truncate) (transaction_body Q e)"
    and "\<And>m. keeps v (on_node_db m :: (('db, 'b) node, unit) act)"
  shows "keeps v (process_in_transaction (Q :: ('db, 'b) runner) e)"
proof (rule keepsI)
  fix s r s'
  assume run: "process_in_transaction Q e s = (r, s')"
  have db: "keeps (v \<circ> node.truncate) (on_node_db m :: (('db, 'b) frame, unit) act)" for m
  proof (rule keepsI)
    fix s r s'
    assume a: "(on_node_db m :: (('db, 'b) frame, unit) act) s = (r, s')"
    then have "(on_node_db m :: (('db, 'b) node, unit) act) (node.truncate s) = (r, node.truncate s')"
      by (auto simp: on_node_db_def node.defs split: prod.splits)
    then show "(v \<circ> node.truncate) s' = (v \<circ> node.truncate) s"
      using assms(2) by (auto dest: keepsD)
  qed
  have "keeps (v \<circ> node.truncate) (noting_error
      (async_with (on_node_db (tx_enter (rn_provider Q)))
        (\<lambda>err. on_node_db (tx_leave (rn_provider Q) err)) (transaction_body Q e)) (\<lambda>_. ret ()))"
    by (intro keeps_noting keeps_intros db assms(1)) (simp add: node.defs)
  then show "v s' = v s"
    using run by (auto simp: process_in_transaction_def split: prod.splits dest!: keepsD)
qed

lemma keeps_process_in_transaction:
  "keeps n_broker (process_in_transaction Q e)" "keeps n_sleeps (process_in_transaction Q e)"
  "keeps n_stops (process_in_transaction Q e)"
  by (intro keeps_transaction keeps_transaction_body;
      simp add: node.defs comp_def keeps_broker keeps_sleeps keeps_stops)+

section \<open>One message at the broker\<close>

text \<open>The broker after a message read at \<open>b\<close> has been committed, once and without an error, or not.\<close>

definition acked :: "'b ack_handle \<Rightarrow> 'b \<Rightarrow> bool \<Rightarrow> 'b \<Rightarrow> bool" where
  "acked h b committed b' \<longleftrightarrow> (if committed then ack_commit h b = (Inr (), b') else b' = b)"

definition acks :: "'b ack_handle \<Rightarrow> 'b \<Rightarrow> bool \<Rightarrow> (('db, 'b) node, 'a) act \<Rightarrow> ('a \<Rightarrow> bool) \<Rightarrow> bool" where
  "acks h b c m after \<longleftrightarrow> (\<forall>s. acked h b c (n_broker s) \<longrightarrow>
     (case m s of (Inr a, s') \<Rightarrow> acked h b (after a) (n_broker s')
      | (Inl _, s') \<Rightarrow> n_broker s' \<in> {b, snd (ack_commit h b)}))"

lemma acked_cases: "acked h b c b' \<Longrightarrow> b' \<in> {b, snd (ack_commit h b)}"
  by (auto simp: acked_def split: if_splits)

lemma acks_kept:
  fixes m :: "(('db, 'b) node, 'a) act"
  assumes "keeps n_broker m"
  shows "acks h b c m (\<lambda>_. c)"
  unfolding acks_def
proof (intro allI impI)
  fix s :: "('db, 'b) node"
  assume a: "acked h b c (n_broker s)"
  obtain r s' where run: "m s = (r, s')"
    by fastforce
  have "acked h b c (n_broker s')"
    using keepsD [OF assms run] a by simp
  with run show "case m s of (Inr a, s') \<Rightarrow> acked h b c (n_broker s')
      | (Inl _, s') \<Rightarrow> n_broker s' \<in> {b, snd (ack_commit h b)}"
    using acked_cases [of h b c "n_broker s'"] by (cases r) auto
qed

lemma acks_andthen:
  fixes m :: "(('db, 'b) node, 'a) act"
  assumes "acks h b c m g" and "\<And>a. acks h b (g a) (k a) f"
  shows "acks h b c (andthen m k) f"
  unfolding acks_def
proof (intro allI impI)
  fix s :: "('db, 'b) node"
  assume a: "acked h b c (n_broker s)"
  obtain r s' where run: "m s = (r, s')"
    by fastforce
  show "case andthen m k s of (Inr a, s') \<Rightarrow> acked h b (f a) (n_broker s')
      | (Inl _, s') \<Rightarrow> n_broker s' \<in> {b, snd (ack_commit h b)}"
    using assms(1) [unfolded acks_def, rule_format, OF a] run
      assms(2) [unfolded acks_def, rule_format, of _ s'] by (cases r) (auto simp: andthen_def)
qed

lemma acks_ret: "f a = c \<Longrightarrow> acks h b c (ret a) f"
  by (simp add: acks_def)

lemma acks_throw: "acks h b c (throw e) f"
  using acked_cases by (fastforce simp: acks_def)

lemma acks_if: "(p \<Longrightarrow> acks h b c m f) \<Longrightarrow> (\<not> p \<Longrightarrow> acks h b c m' f) \<Longrightarrow> acks h b c (if p then m else m') f"
  by simp

lemma acks_option: "(x = None \<Longrightarrow> acks h b c m f) \<Longrightarrow> (\<And>a. x = Some a \<Longrightarrow> acks h b c (g a) f) \<Longrightarrow>
    acks h b c (case x of None \<Rightarrow> m | Some a \<Rightarrow> g a) f"
  by (cases x) simp_all

lemma acks_prod: "(\<And>x y. p = (x, y) \<Longrightarrow> acks h b c (g x y) f) \<Longrightarrow> acks h b c (case p of (x, y) \<Rightarrow> g x y) f"
  by (cases p) simp

lemma commit_with_metrics_broker:
  "commit_with_metrics Q h s = (r, s') \<Longrightarrow> n_broker s' = snd (ack_commit h (n_broker s)) \<and>
     (r = Inr () \<longrightarrow> fst (ack_commit h (n_broker s)) = Inr ())"
proof -
  obtain x b where c: "ack_commit h (n_broker s) = (x, b)"
    by fastforce
  assume "commit_with_metrics Q h s = (r, s')"
  with c show ?thesis
    by (cases x) (simp_all add: commit_with_metrics_def andthen_def catch_def on_broker_def report_def
        split: if_splits option.splits; auto)+
qed

lemma acks_commit_if: "cond \<longrightarrow> \<not> c \<Longrightarrow> acks h b c (commit_if Q h cond c) (\<lambda>c. c)"
proof (cases cond)
  case True
  assume "cond \<longrightarrow> \<not> c"
  with True have "\<not> c" by blast
  then show ?thesis
    using True commit_with_metrics_broker [of Q h]
    by (fastforce simp: acks_def commit_if_def acked_def andthen_def prod_eq_iff split: prod.split sum.split)
next
  case False
  then show ?thesis
    by (simp add: commit_if_def acks_ret)
qed

lemma commit_if_False [simp]: "commit_if Q h False c = ret c"
  by (simp add: commit_if_def)

lemma andthen_ret_left [simp]: "andthen (ret a) f = f a"
  by (rule ext) (simp add: andthen_def)

lemma acks_duplicate: "acks h b c (handle_duplicate Q m x h c) cr_committed"
  unfolding handle_duplicate_def
  by (intro acks_andthen [OF acks_commit_if] acks_andthen [OF acks_kept] keeps_broker acks_ret) simp_all

lemma acks_commit_return:
  "cond \<longrightarrow> \<not> c \<Longrightarrow> (\<And>d. f (g d) = d) \<Longrightarrow> acks h b c (andthen (commit_if Q h cond c) (\<lambda>d. ret (g d))) f"
  by (rule acks_andthen [OF acks_commit_if], assumption, rule acks_ret, simp)

lemma acks_handler_error:
  assumes "c \<longrightarrow> rn_ack_strategy Q = AT_MOST_ONCE"
  shows "acks h b c (handle_handler_error Q m x t h c) cr_committed"
proof -
  have tail: "acks h b c (andthen (commit_if Q h (rn_ack_strategy Q = AT_LEAST_ONCE \<and>
       rn_commit_offset_policy Q = ON_PERSIST \<and> \<not> c) c) (\<lambda>committed.
     andthen (commit_if Q h (rn_ack_strategy Q = EXACTLY_ONCE_INBOX \<and> rn_commit_on_failed Q) committed)
       (\<lambda>committed. ret (res committed)))) cr_committed"
    if "\<And>d. cr_committed (res d) = d" for res
  proof (cases "rn_ack_strategy Q = EXACTLY_ONCE_INBOX")
    case True
    with assms that show ?thesis
      by (simp del: ret_apply add: acks_commit_return)
  next
    case False
    then have "rn_ack_strategy Q = EXACTLY_ONCE_INBOX \<and> rn_commit_on_failed Q \<longleftrightarrow> False"
      by simp
    then have "acks h b c (andthen (commit_if Q h (rn_ack_strategy Q = AT_LEAST_ONCE \<and>
        rn_commit_offset_policy Q = ON_PERSIST \<and> \<not> c) c) (\<lambda>committed. ret (res committed))) cr_committed"
      using that by (intro acks_commit_return) simp_all
    with False show ?thesis
      by (simp del: ret_apply)
  qed
  have "keeps n_broker (if t > 0 then andthen node_perf_counter (\<lambda>now.
      report Q (ObserveHandlerDuration (now - t) (event_type x))) else ret ())"
    by (intro keeps_intros keeps_broker)
  then show ?thesis
    unfolding handle_handler_error_def
    by (rule acks_andthen [OF acks_kept]) (intro acks_andthen [OF acks_kept [OF keeps_broker(5)]] tail, simp)
qed

lemma acks_process_message: "acks h b False (process_message Q m h) cr_committed"
proof -
  have metrics: "keeps n_broker (case result of None \<Rightarrow> ret ()
      | Some r \<Rightarrow> update_metrics_after_handler Q ev r t)" for result ev t
    unfolding update_metrics_after_handler_def by (intro keeps_intros keeps_broker)
  have event: "keeps n_broker (create_event Q m)"
    unfolding create_event_def by (intro keeps_intros keeps_broker)
  have rest: "acks h b c (andthen (create_event Q m) (\<lambda>e.
     andthen (process_in_transaction Q e) (\<lambda>(stored, result, error, started_at).
     case stored of
       None \<Rightarrow> throw (InboxPersistError (msg_message_id m) error)
     | Some stored \<Rightarrow>
         if status stored = COMPLETED then handle_duplicate Q m stored h c
         else if error \<noteq> None then handle_handler_error Q m stored started_at h c
         else andthen (case result of
                None \<Rightarrow> ret ()
              | Some r \<Rightarrow> update_metrics_after_handler Q (msg_event_type m) r started_at) (\<lambda>_.
           andthen (commit_if Q h (should_commit_offset Q result c) c) (\<lambda>committed.
           ret \<lparr>cr_message_id = msg_message_id m, cr_event_id = Some (event_id stored),
             cr_committed = committed,
             cr_processed = (case result of None \<Rightarrow> False | Some r \<Rightarrow> res_processed r),
             cr_duplicate = False\<rparr>))))) cr_committed"
    if "c \<longrightarrow> rn_ack_strategy Q = AT_MOST_ONCE" for c
    using that
    by (intro acks_andthen [OF acks_kept [OF event]] acks_andthen [OF acks_kept [OF metrics]]
        acks_andthen [OF acks_kept [OF keeps_process_in_transaction(1)]] acks_throw acks_prod acks_option
        acks_if acks_duplicate acks_handler_error acks_commit_return)
      (simp_all add: should_commit_offset_def)
  show ?thesis
  proof (cases "rn_ack_strategy Q = AT_MOST_ONCE")
    case True
    then show ?thesis
      unfolding process_message_def by (intro acks_andthen [OF acks_commit_if] rest) simp_all
  next
    case False
    then have "rn_ack_strategy Q = AT_MOST_ONCE \<longleftrightarrow> False"
      by simp
    then show ?thesis
      unfolding process_message_def using rest [of False]
      by (simp only: commit_if_False andthen_ret_left simp_thms)
  qed
qed

lemma process_one_broker:
  assumes "rn_getone Q (n_broker s) = (Inr m, b)" and "process_one Q s = (r, s')"
    and "rn_refuses Q IncConsumed = None"
  shows "case r of
      Inr result \<Rightarrow>
        if cr_committed result then ack_commit (handle_of m) b = (Inr (), n_broker s')
        else n_broker s' = snd (ack_rewind (handle_of m) b)
    | Inl err \<Rightarrow>
        \<exists>b1\<in>{b, snd (ack_commit (handle_of m) b)}. n_broker s' = snd (ack_rewind (handle_of m) b1)"
proof -
  let ?h = "handle_of m"
  obtain s1 where s1: "n_broker s1 = b" "process_one Q s =
     andthen (catch (process_message Q m ?h) (\<lambda>err. andthen (rewind ?h) (\<lambda>_. throw err))) (\<lambda>result.
     andthen (if cr_committed result then ret () else rewind ?h) (\<lambda>_. ret result)) s1"
  proof
    let ?s1 = "s\<lparr>n_broker := b, n_log := n_log s @ [IncConsumed]\<rparr>"
    show "n_broker ?s1 = b" by simp
    show "process_one Q s = andthen (catch (process_message Q m ?h) (\<lambda>err. andthen (rewind ?h) (\<lambda>_. throw err)))
      (\<lambda>result. andthen (if cr_committed result then ret () else rewind ?h) (\<lambda>_. ret result)) ?s1"
      using assms(1,3) by (simp add: process_one_def andthen_def [of "on_broker _"] andthen_def [of "report _ _"]
          on_broker_def report_def)
  qed
  obtain x s2 where run: "process_message Q m ?h s1 = (x, s2)"
    by fastforce
  have "acked ?h b False (n_broker s1)"
    by (simp add: acked_def s1)
  then have ack: "case x of Inr result \<Rightarrow> acked ?h b (cr_committed result) (n_broker s2)
      | Inl _ \<Rightarrow> n_broker s2 \<in> {b, snd (ack_commit ?h b)}"
    using acks_process_message [of ?h b Q m, unfolded acks_def] run by fastforce
  have returned: "n_broker s4 = snd (ack_rewind ?h (n_broker s3))" if "rewind ?h s3 = (u, s4)" for s3 u s4
    using that by (auto simp: rewind_def catch_def on_broker_def split: prod.splits sum.splits if_splits)
  show ?thesis
  proof (cases x)
    case (Inl err)
    then have "andthen (rewind ?h) (\<lambda>_. throw err) s2 = (r, s')"
      using assms(2) s1(2) run by (auto simp: andthen_def catch_def split: prod.splits sum.splits)
    then show ?thesis
      using ack Inl returned [of s2] by (cases "rewind ?h s2") (auto simp: andthen_def split: sum.splits)
  next
    case (Inr result)
    then have "andthen (if cr_committed result then ret () else rewind ?h) (\<lambda>_. ret result) s2 = (r, s')"
      using assms(2) s1(2) run by (auto simp: andthen_def catch_def split: prod.splits sum.splits)
    then show ?thesis
      using ack Inr returned [of s2]
      by (cases "rewind ?h s2") (auto simp: andthen_def acked_def split: sum.splits if_splits)
  qed
qed

text \<open>The counter of consumed messages runs before the \<open>try\<close>: when the collector refuses it the call ends with the message read,
  and neither committed nor rewound.\<close>

lemma process_one_uncounted:
  assumes "rn_getone Q (n_broker s) = (Inr m, b)" and "process_one Q s = (r, s')"
    and "rn_refuses Q IncConsumed = Some err"
  shows "r = Inl err \<and> n_broker s' = b"
  using assms by (auto simp: process_one_def andthen_def on_broker_def report_def)

text \<open>C14. What becomes of a message the runner has read. When the call returns with
  \<open>committed\<close> the broker has seen exactly one commit of this message, which succeeded, and nothing else;
  when it returns without, the broker has only seen the rewind; and when it raises, the last thing the
  broker has seen is the rewind, of a message at most one commit of which was tried. This is so
  whatever the strategy, the handler, the database, the broker and the collector do, with one exception: a collector that
  raises on \<open>inc_consumed\<close>. Then the call raises its exception, and the broker has seen neither a commit nor a rewind.\<close>

theorem message_committed_or_rewound:
  assumes "rn_getone Q (n_broker s) = (Inr m, b)" and "process_one Q s = (r, s')"
  shows "case rn_refuses Q IncConsumed of
      Some err \<Rightarrow> r = Inl err \<and> n_broker s' = b
    | None \<Rightarrow> (case r of
        Inr result \<Rightarrow>
          if cr_committed result then ack_commit (handle_of m) b = (Inr (), n_broker s')
          else n_broker s' = snd (ack_rewind (handle_of m) b)
      | Inl err \<Rightarrow>
          \<exists>b1\<in>{b, snd (ack_commit (handle_of m) b)}. n_broker s' = snd (ack_rewind (handle_of m) b1))"
  using process_one_broker [OF assms] process_one_uncounted [OF assms] by (cases "rn_refuses Q IncConsumed") simp_all

section \<open>The loop\<close>

lemma keeps_process_one: "keeps n_sleeps (process_one Q)" "keeps n_stops (process_one Q)"
  unfolding process_one_def process_message_def create_event_def handle_duplicate_def
    handle_handler_error_def update_metrics_after_handler_def commit_if_def commit_with_metrics_def rewind_def
  by (intro keeps_intros keeps_sleeps keeps_stops keeps_process_in_transaction)+

text \<open>The delays of a loop: each is twice the one before, up to the cap, or the first one again.\<close>

fun delays_from :: "rat \<Rightarrow> rat list \<Rightarrow> bool" where
  "delays_from d [] = True"
| "delays_from d (x # xs) \<longleftrightarrow>
     (x = d \<or> x = RUN_FOREVER_MIN_BACKOFF) \<and> delays_from (min (x * 2) RUN_FOREVER_MAX_BACKOFF) xs"

lemma delays_from_reset: "delays_from RUN_FOREVER_MIN_BACKOFF xs \<Longrightarrow> delays_from d xs"
  by (cases xs) auto

lemma run_turn_cases:
  assumes "run_turn Q d s = (r, s')"
  obtains "r = Inr RUN_FOREVER_MIN_BACKOFF" "n_sleeps s' = n_sleeps s" "n_stops s' = n_stops s"
  | "r = Inr (min (d * 2) RUN_FOREVER_MAX_BACKOFF)" "n_sleeps s' = n_sleeps s @ [d]" "n_stops s' = n_stops s"
  | err where "r = Inl err" "\<not> is_exception err" "fst (process_one Q s) = Inl err" "n_sleeps s' = n_sleeps s"
proof -
  obtain x s1 where one: "process_one Q s = (x, s1)"
    by fastforce
  then have same: "n_sleeps s1 = n_sleeps s" "n_stops s1 = n_stops s"
    using keeps_process_one [of Q] by (auto dest: keepsD)
  have "r = Inr RUN_FOREVER_MIN_BACKOFF \<and> s' = s1 \<or>
      r = Inr (min (d * 2) RUN_FOREVER_MAX_BACKOFF) \<and> s' = s1\<lparr>n_sleeps := n_sleeps s1 @ [d]\<rparr> \<or>
      (\<exists>err. r = Inl err \<and> \<not> is_exception err \<and> x = Inl err \<and> s' = s1)"
    using assms one
    by (cases x) (auto simp: run_turn_def andthen_def catch_def assign_def split: if_splits)
  with one same show thesis
    by (elim disjE conjE exE) (auto intro: that)
qed

lemma run_loop_delays:
  assumes "run_loop Q k d s = (r, s')" and "RUN_FOREVER_MIN_BACKOFF \<le> d" and "d \<le> RUN_FOREVER_MAX_BACKOFF"
  shows "\<exists>ds. n_sleeps s' = n_sleeps s @ ds \<and> delays_from d ds \<and> length ds \<le> k \<and>
    (\<forall>x\<in>set ds. RUN_FOREVER_MIN_BACKOFF \<le> x \<and> x \<le> RUN_FOREVER_MAX_BACKOFF)"
  using assms
proof (induction k arbitrary: d s)
  case 0
  then show ?case by simp
next
  case (Suc k)
  let ?P = "\<lambda>k d s. \<exists>ds. n_sleeps s' = n_sleeps s @ ds \<and> delays_from d ds \<and> length ds \<le> k \<and>
    (\<forall>x\<in>set ds. RUN_FOREVER_MIN_BACKOFF \<le> x \<and> x \<le> RUN_FOREVER_MAX_BACKOFF)"
  show ?case
  proof (cases "n_stops s 0")
    case True
    with Suc.prems show ?thesis by auto
  next
    case False
    let ?s = "s\<lparr>n_stops := (\<lambda>j. n_stops s (Suc j))\<rparr>"
    obtain x s1 where turn: "run_turn Q d ?s = (x, s1)"
      by fastforce
    have min_max: "RUN_FOREVER_MIN_BACKOFF \<le> RUN_FOREVER_MAX_BACKOFF" "0 < RUN_FOREVER_MIN_BACKOFF"
      by (simp_all add: RUN_FOREVER_MIN_BACKOFF_def RUN_FOREVER_MAX_BACKOFF_def)
    from turn show ?thesis
    proof (cases rule: run_turn_cases)
      case 1
      then have "run_loop Q k RUN_FOREVER_MIN_BACKOFF s1 = (r, s')"
        using Suc.prems(1) False turn by (simp add: andthen_def)
      then have "?P k RUN_FOREVER_MIN_BACKOFF s1"
        using Suc.IH min_max by blast
      with 1 show ?thesis
        using delays_from_reset by fastforce
    next
      case 2
      let ?d = "min (d * 2) RUN_FOREVER_MAX_BACKOFF"
      have d: "RUN_FOREVER_MIN_BACKOFF \<le> ?d" "?d \<le> RUN_FOREVER_MAX_BACKOFF"
        using Suc.prems(2) min_max by auto
      have "run_loop Q k ?d s1 = (r, s')"
        using Suc.prems(1) False turn 2 by (simp add: andthen_def)
      then obtain ds where "n_sleeps s' = n_sleeps s1 @ ds" "delays_from ?d ds" "length ds \<le> k"
        "\<forall>x\<in>set ds. RUN_FOREVER_MIN_BACKOFF \<le> x \<and> x \<le> RUN_FOREVER_MAX_BACKOFF"
        using Suc.IH d by blast
      with 2 show ?thesis
        using Suc.prems(2,3) by (intro exI [of _ "d # ds"]) simp
    next
      case (3 err)
      then have "s' = s1"
        using Suc.prems(1) False turn by (simp add: andthen_def)
      with 3 show ?thesis by auto
    qed
  qed
qed

text \<open>While messages are not committed \<open>run_forever\<close> sleeps once per message, 0.1 s and then twice as
  long each time up to 5 s, and starts again at 0.1 s after a commit; no delay is outside these bounds.\<close>

theorem run_forever_delays:
  assumes "run_forever Q k s = (r, s')"
  shows "\<exists>ds. n_sleeps s' = n_sleeps s @ ds \<and> delays_from RUN_FOREVER_MIN_BACKOFF ds \<and> length ds \<le> k \<and>
    (\<forall>x\<in>set ds. 1 / 10 \<le> x \<and> x \<le> 5)"
proof (cases "n_started s")
  case True
  then have "run_loop Q k RUN_FOREVER_MIN_BACKOFF s = (r, s')"
    using assms by (simp add: run_forever_def)
  then show ?thesis
    using run_loop_delays [of Q k RUN_FOREVER_MIN_BACKOFF s r s']
    by (simp add: RUN_FOREVER_MIN_BACKOFF_def RUN_FOREVER_MAX_BACKOFF_def)
next
  case False
  with assms show ?thesis
    by (auto simp: run_forever_def)
qed

lemma run_loop_stops:
  assumes "\<And>s err. fst (process_one Q s) = Inl err \<Longrightarrow> is_exception err"
  shows "j < k \<Longrightarrow> n_stops s j \<Longrightarrow> fst (run_loop Q k d s) = Inr True"
proof (induction k arbitrary: d s j)
  case (Suc k)
  show ?case
  proof (cases "n_stops s 0")
    case False
    let ?s = "s\<lparr>n_stops := (\<lambda>j. n_stops s (Suc j))\<rparr>"
    obtain i where j: "j = Suc i"
      using False Suc.prems(2) by (cases j) auto
    obtain x s1 where turn: "run_turn Q d ?s = (x, s1)"
      by fastforce
    then obtain d' where "x = Inr d'" and "n_stops s1 = n_stops ?s"
      using assms by (cases rule: run_turn_cases) auto
    moreover have "fst (run_loop Q k d' s1) = Inr True"
      using Suc.IH [of i s1 d'] Suc.prems j calculation(2) by simp
    ultimately show ?thesis
      using False turn by (simp add: andthen_def)
  qed simp
qed simp

text \<open>The loop ends: when another task stops the runner before its \<open>k\<close>-th turn and no task is
  cancelled, \<open>run_forever\<close> returns within \<open>k\<close> turns, whatever messages fail or are not committed.\<close>

theorem run_forever_stops:
  assumes "n_started s" and "j < k" and "n_stops s j"
    and "\<And>s err. fst (process_one Q s) = Inl err \<Longrightarrow> is_exception err"
  shows "fst (run_forever Q k s) = Inr True"
  using run_loop_stops [OF assms(4) assms(2,3)] assms(1) by (simp add: run_forever_def)

end
