(* ===== verification/ExactlyOnce.thy ===== *)
theory ExactlyOnce
  imports Acknowledgement Idempotence
begin

text \<open>
  The consumer over the PostgreSQL inbox: what a transaction promises (\<open>transactional\<close>), what creating
  an inbox row returns, and that a message is committed when its row is completed, and handled once.
\<close>

section \<open>Creating an inbox row\<close>

lemma inbox_init:
  assumes "PostgresInboxRepository_init part ii im bs em suffix skew = Inr R"
  shows "repo_columns R = inbox_column \<and> repo_validate R = InboxEvent_validate \<and>
    repo_inbox_dedup_columns R = Some (if part then [''message_id'', ''consumer_group'', ''created_at'']
      else [''message_id'', ''consumer_group''])"
  using assms
  by (auto simp: PostgresInboxRepository_init_def PostgresEventRepository_init_def res_simps split: if_splits)

lemma inbox_columns [simp]:
  "inbox_column ''message_id'' = Some (\<lambda>r. Some (CText (message_id r)))"
  "inbox_column ''consumer_group'' = Some (\<lambda>r. Some (CText (consumer_group r)))"
  "inbox_column ''created_at'' = Some (\<lambda>r. Some (CTime (created_at r)))"
  by (simp_all add: inbox_column_def base_column_def)

definition same_key :: "inbox_event \<Rightarrow> inbox_event \<Rightarrow> bool" where
  "same_key e r \<longleftrightarrow> message_id r = message_id e \<and> consumer_group r = consumer_group e"

lemma same_message_key: "repo_columns R = inbox_column \<Longrightarrow> same_message R e r \<longleftrightarrow> same_key e r"
  by (simp add: same_message_def column_value_def same_key_def)

context sql_engine
begin

lemma inbox_fetch_outcome:
  assumes "inbox_fetch_existing_event E R cols e db = (Inr (Some y), db')"
  shows "table_rows E db' = table_rows E db \<and> y \<in># table_rows E db \<and> same_message R e y"
proof -
  let ?p = "\<lambda>r. same_message R e r \<and> (''created_at'' \<in> set cols \<longrightarrow> created_at r = created_at e)"
  from assms obtain rs where sel: "sql_select E (select_where ?p) db = (Inr rs, db')"
    and y: "scalar_one_or_none StorageError rs = Inr (Some y)"
    by (auto simp: inbox_fetch_existing_event_def andthen_Inr_iff creation_error_Inr)
  then have got: "selects (select_where ?p) (held_elsewhere E db) (table_rows E db) rs"
    and tbl: "table_rows E db' = table_rows E db"
    using select_law by blast+
  have "y \<in> set rs"
    using y by (auto simp: res_simps)
  with got have "y \<in># table_rows E db \<and> q_where (select_where ?p) (set_mset (table_rows E db)) y"
    by (rule selects_where)
  with tbl show ?thesis
    by (simp add: select_where_def)
qed

end

lemma inbox_create_outcome:
  fixes E :: "('db, inbox_event) engine"
  assumes "sql_engine E" and "PostgresInboxRepository_init part ii im bs em suffix skew = Inr R"
    and "idempotency_key e = None" and "create E py_str L R e db = (Inr x, db')"
  shows "(table_rows E db' = table_rows E db \<and> (\<exists>r\<in>#table_rows E db. same_key e r \<and> to_entity L R r = Inr x)) \<or>
    (table_rows E db' = add_mset e (table_rows E db) \<and> \<not> (\<exists>r\<in>#table_rows E db. same_key e r) \<and>
      to_entity L R e = Inr x)"
proof -
  note R = inbox_init [OF assms(2)]
  let ?cols = "if part then [''message_id'', ''consumer_group'', ''created_at''] else [''message_id'', ''consumer_group'']"
  have within: "insert_conflict R e e r \<Longrightarrow> same_key e r" for r
    using R by (auto simp: insert_conflict_def conflict_on_def column_value_def same_key_def split: if_splits)
  have found: "table_rows E db2 = table_rows E db1 \<and> y \<in># table_rows E db1 \<and> same_key e y"
    if "fetch_existing_event E R e db1 = (Inr (Some y), db2)" for db1 y db2
    using that R sql_engine.inbox_fetch_outcome [OF assms(1), of R ?cols e db1 y db2] same_message_key [of R e y]
    by (simp add: fetch_existing_event_def)
  have run: "inbox_create E py_str L R ?cols e db = (Inr x, db')"
    using assms(4) R by (simp add: create_def)
  show ?thesis
  proof (cases part)
    case False
    then have ins: "insert_or_fetch E L R e db = (Inr x, db')"
      using run assms(3) by (simp add: inbox_create_def base_create_def truthy_def)
    moreover have "insert_conflict R e e r" if "same_key e r" for r
      using that R False by (simp add: insert_conflict_def conflict_on_def column_value_def same_key_def)
    ultimately show ?thesis
      using sql_engine.insert_or_fetch_outcome [OF assms(1) ins within found] by blast
  next
    case True
    let ?q = "\<lparr>q_where = (\<lambda>_. same_message R e), q_order = (\<lambda>r. [created_at r]), q_limit = Some 1,
           q_skip_locked = False\<rparr>"
    obtain u db1 rs db2 y where lock: "sql_advisory_lock E
          [message_cell R ''message_id'' e, message_cell R ''consumer_group'' e] db = (Inr u, db1)"
      and sel: "sql_select E ?q db1 = (Inr rs, db2)" and y: "scalar_one_or_none StorageError rs = Inr y"
      and rest: "(case y of Some row \<Rightarrow> lift_res (to_entity L R row)
        | None \<Rightarrow> insert_or_fetch E L R e) db2 = (Inr x, db')"
      using run True by (auto simp: inbox_create_def andthen_Inr_iff creation_error_Inr)
    have tbl: "table_rows E db1 = table_rows E db" "table_rows E db2 = table_rows E db1"
      and "selects ?q (held_elsewhere E db1) (table_rows E db1) rs"
      using sql_engine.lock_law [OF assms(1) lock] sql_engine.select_law [OF assms(1) sel] by blast+
    then have got: "case y of None \<Rightarrow> \<forall>r\<in>#table_rows E db. \<not> same_key e r
        | Some r \<Rightarrow> r \<in># table_rows E db \<and> same_key e r"
      using first_of_query [of ?q "held_elsewhere E db1" "table_rows E db1" rs StorageError y] y
        same_message_key [of R e] R by (cases y) simp_all
    show ?thesis
    proof (cases y)
      case (Some row)
      with rest got tbl show ?thesis by auto
    next
      case None
      then have ins: "insert_or_fetch E L R e db2 = (Inr x, db')"
        and fresh: "\<not> (\<exists>r\<in>#table_rows E db2. same_key e r)"
        using rest got tbl by simp_all
      then show ?thesis
        using sql_engine.insert_or_fetch_outcome [OF assms(1) ins within found] tbl by auto
    qed
  qed
qed

section \<open>Transactions\<close>

text \<open>
  \<open>durable\<close> is the committed table; the session reads and writes \<open>table_rows\<close>. Opening a transaction
  shows the committed table, a commit makes what the session wrote the committed table, a rollback
  drops it; a commit that raises may have done either. No statement commits. The inbox is a plain table, whose
  primary key is the id.
\<close>

locale transactional = sql_engine E for E :: "('db, inbox_event) engine" +
  fixes P :: "'db transaction_provider" and durable :: "'db \<Rightarrow> inbox_event multiset"
  assumes plain_table: "\<not> partitioned_table E"
    and enter_law: "tx_enter P db = (res, db') \<Longrightarrow> durable db' = durable db \<and>
      (res = Inr () \<longrightarrow> table_rows E db' = durable db)"
    and commit_law: "tx_leave P None db = (Inr (), db') \<Longrightarrow> durable db' = table_rows E db"
    and commit_error: "tx_leave P None db = (Inl err, db') \<Longrightarrow> durable db' \<in> {durable db, table_rows E db}"
    and rollback_law: "tx_leave P (Some err) db = (res, db') \<Longrightarrow> durable db' = durable db"
    and select_durable: "keeps durable (sql_select E q)"
    and update_durable: "keeps durable (sql_update E p f)"
    and insert_durable: "keeps durable (sql_insert E c vs)"
    and lock_durable: "keeps durable (sql_advisory_lock E tokens)"

text \<open>A session over any engine: the state the session works on, next to another one, here the committed one.\<close>

definition on_working :: "('db \<Rightarrow> ('e + 'a) \<times> 'db) \<Rightarrow> 'c \<times> 'db \<Rightarrow> ('e + 'a) \<times> ('c \<times> 'db)" where
  "on_working f db = (case f (snd db) of (r, w) \<Rightarrow> (r, (fst db, w)))"

definition session_engine :: "('db, 'r) engine \<Rightarrow> ('c \<times> 'db, 'r) engine" where
  "session_engine E = \<lparr>
     table_rows = (\<lambda>db. table_rows E (snd db)), tx_now = (\<lambda>db. tx_now E (snd db)),
     held_elsewhere = (\<lambda>db. held_elsewhere E (snd db)), partitioned_table = partitioned_table E,
     sql_select = (\<lambda>q. on_working (sql_select E q)),
     sql_update = (\<lambda>p f. on_working (sql_update E p f)),
     sql_update_from = (\<lambda>q f. on_working (sql_update_from E q f)),
     sql_delete_from = (\<lambda>q. on_working (sql_delete_from E q)),
     sql_insert = (\<lambda>c vs. on_working (sql_insert E c vs)),
     sql_advisory_lock = (\<lambda>tokens. on_working (sql_advisory_lock E tokens))\<rparr>"

definition session_provider :: "('db \<times> 'db) transaction_provider" where
  "session_provider = \<lparr>
     tx_enter = (\<lambda>db. (Inr (), (fst db, fst db))),
     tx_leave = (\<lambda>err db. (Inr (), case err of None \<Rightarrow> (snd db, snd db) | Some _ \<Rightarrow> (fst db, fst db)))\<rparr>"

lemma on_working_iff: "on_working f db = (r, db') \<longleftrightarrow> f (snd db) = (r, snd db') \<and> fst db' = fst db"
  by (cases db') (auto simp: on_working_def split: prod.splits)

context sql_engine
begin

lemma session_sql: "sql_engine (session_engine E)"
  by unfold_locales
    (auto simp: session_engine_def on_working_iff same_session_def
      dest: select_law [unfolded same_session_def] update_law [unfolded same_session_def]
        update_err [unfolded same_session_def] update_from_law [unfolded same_session_def]
        update_from_err [unfolded same_session_def] delete_from_law [unfolded same_session_def]
        delete_from_err [unfolded same_session_def] insert_law [unfolded same_session_def]
        insert_err [unfolded same_session_def] lock_law [unfolded same_session_def])

end

lemma session_durable: "keeps (\<lambda>db. v (fst db)) (on_working f)"
  by (auto simp: keeps_def on_working_def split: prod.split)

lemma session_transactional:
  assumes "sql_engine E" and "\<not> partitioned_table E"
  shows "transactional (session_engine E) session_provider (\<lambda>db. table_rows E (fst db))"
  using assms(2)
  by (intro transactional.intro sql_engine.session_sql [OF assms(1)] transactional_axioms.intro)
    (auto simp: session_provider_def session_engine_def session_durable)

interpretation list_session: transactional "session_engine list_engine" session_provider
  "\<lambda>db. table_rows list_engine (fst db)"
  by (rule session_transactional) (rule list_sql.sql_engine_axioms, simp add: list_engine_def)

section \<open>The transaction of one message\<close>

lemma on_node_db_iff:
  "on_node_db m s = (r, s') \<longleftrightarrow> (\<exists>db. m (n_db s) = (r, db) \<and> s' = s\<lparr>n_db := db\<rparr>)"
  by (auto simp: on_node_db_def split: prod.splits)

lemma assign_iff: "assign f s = (r, s') \<longleftrightarrow> r = Inr () \<and> s' = f s"
  by (auto simp: assign_def)

lemma node_perf_counter_iff:
  "node_perf_counter s = (r, s') \<longleftrightarrow> r = Inr (n_perf s 0) \<and> s' = s\<lparr>n_perf := (\<lambda>k. n_perf s (Suc k))\<rparr>"
  by (auto simp: node_perf_counter_def)

lemmas run_simps = res_simps on_node_db_iff assign_iff node_perf_counter_iff

text \<open>What a body that returned has done to the database: the row is there, and the handler was not run,
  or was run on the row this worker locked and the row was completed after it.\<close>

definition not_handled :: "('db, 'b) runner \<Rightarrow> inbox_event \<Rightarrow> 'db \<Rightarrow> 'db \<Rightarrow> bool" where
  "not_handled Q x db db' \<longleftrightarrow>
     (if rn_handler Q = None \<or> status x = COMPLETED then db' = db
      else ic_mark_processing (rn_calls Q) (event_id x) (rn_worker_id Q) db = (Inr False, db'))"

definition handled :: "('db, 'b) runner \<Rightarrow> inbox_event \<Rightarrow> handler_result \<Rightarrow> 'db \<Rightarrow> 'db \<Rightarrow> bool" where
  "handled Q x res db db' \<longleftrightarrow> status x \<noteq> COMPLETED \<and> (res_processed res \<longrightarrow> res_success res) \<and>
     (\<exists>h db1 raw db2. rn_handler Q = Some h \<and> res = coerce_handler_outcome raw \<and>
       ic_mark_processing (rn_calls Q) (event_id x) (rn_worker_id Q) db = (Inr True, db1) \<and>
       h x db1 = (Inr raw, db2) \<and>
       ic_mark_completed (rn_calls Q) (event_id x) (rn_worker_id Q) db2 = (Inr (), db'))"

lemma handle_stored_Inr:
  assumes "handle_stored Q h x s = (Inr u, s')" and "f_error s = None"
  shows "f_error s' = None \<and> f_stored s' = f_stored s \<and> (\<exists>raw db1. h x (n_db s) = (Inr raw, db1) \<and>
    f_result s' = Some (coerce_handler_outcome raw) \<and>
    (res_processed (coerce_handler_outcome raw) \<longrightarrow> res_success (coerce_handler_outcome raw)) \<and>
    ic_mark_completed (rn_calls Q) (event_id x) (rn_worker_id Q) db1 = (Inr (), n_db s'))"
  using assms
  by (auto simp: handle_stored_def noting_error_def settle_def run_simps split: if_splits)

lemma handle_stored_stored: "handle_stored Q h x s = (r, s') \<Longrightarrow> f_stored s' = f_stored s"
proof -
  have "keeps f_stored (handle_stored Q h x)"
    unfolding handle_stored_def noting_error_def settle_def
    by (intro keeps_intros keeps_assign) (auto simp: keeps_def on_node_db_def node_perf_counter_def split: prod.split)
  then show "handle_stored Q h x s = (r, s') \<Longrightarrow> f_stored s' = f_stored s"
    by (rule keepsD)
qed

lemma transaction_body_Inr:
  assumes "transaction_body Q e s = (Inr u, s')" and "f_result s = None" and "f_error s = None"
  shows "f_error s' = None \<and> (\<exists>x db1. ic_create (rn_calls Q) e (n_db s) = (Inr x, db1) \<and> f_stored s' = Some x \<and>
    (case f_result s' of None \<Rightarrow> not_handled Q x db1 (n_db s') | Some res \<Rightarrow> handled Q x res db1 (n_db s')))"
proof -
  obtain x db1 where c: "ic_create (rn_calls Q) e (n_db s) = (Inr x, db1)"
    and rest: "(case rn_handler Q of None \<Rightarrow> ret ()
     | Some handler \<Rightarrow> if status x = COMPLETED then ret ()
         else andthen (on_node_db (ic_mark_processing (rn_calls Q) (event_id x) (rn_worker_id Q)))
           (\<lambda>ours. if ours then handle_stored Q handler x else ret ())) (s\<lparr>n_db := db1, f_stored := Some x\<rparr>) = (Inr u, s')"
    using assms(1) by (auto simp: transaction_body_def run_simps)
  show ?thesis
  proof (cases "rn_handler Q = None \<or> status x = COMPLETED")
    case True
    with c rest assms show ?thesis
      by (auto simp: not_handled_def split: option.splits if_splits)
  next
    case False
    then obtain h ours db2 where h: "rn_handler Q = Some h" "status x \<noteq> COMPLETED"
      and mp: "ic_mark_processing (rn_calls Q) (event_id x) (rn_worker_id Q) db1 = (Inr ours, db2)"
      and go: "(if ours then handle_stored Q h x else ret ()) (s\<lparr>f_stored := Some x, n_db := db2\<rparr>) = (Inr u, s')"
      using rest by (auto simp: run_simps)
    show ?thesis
    proof (cases ours)
      case True
      then show ?thesis
        using handle_stored_Inr [of Q h x "s\<lparr>f_stored := Some x, n_db := db2\<rparr>" u s'] go c h mp assms
        by (auto simp: handled_def)
    next
      case no: False
      with go have "s' = s\<lparr>f_stored := Some x, n_db := db2\<rparr>" by simp
      with no c h mp assms show ?thesis
        by (simp add: not_handled_def)
    qed
  qed
qed

lemma transaction_body_Inl:
  assumes "transaction_body Q e s = (Inl err, s')" and "f_stored s' = Some x" and "f_stored s = None"
  shows "\<exists>db1. ic_create (rn_calls Q) e (n_db s) = (Inr x, db1) \<and> status x \<noteq> COMPLETED"
  using assms
  by (auto simp: transaction_body_def run_simps split: option.splits if_splits dest!: handle_stored_stored)

lemma process_in_transaction_cases:
  assumes "process_in_transaction Q e s = (Inr (Some x, res, err, t), s')"
  obtains db0 db1 where "tx_enter (rn_provider Q) (n_db s) = (Inr (), db0)"
    and "ic_create (rn_calls Q) e db0 = (Inr x, db1)"
    and "(\<exists>db2 u. tx_leave (rn_provider Q) None db2 = (u, n_db s') \<and> (err = None \<longleftrightarrow> u = Inr ()) \<and>
        (case res of None \<Rightarrow> not_handled Q x db1 db2 | Some r \<Rightarrow> handled Q x r db1 db2)) \<or>
      (\<exists>s1 e2 s2 u. transaction_body Q e s1 = (Inl e2, s2) \<and> n_db s1 = db0 \<and> err \<noteq> None \<and>
        status x \<noteq> COMPLETED \<and> tx_leave (rn_provider Q) (Some e2) (n_db s2) = (u, n_db s'))"
proof -
  let ?f = "node.extend s \<lparr>f_stored = None, f_result = None, f_error = None, f_started_at = 0\<rparr> :: ('a, 'b) frame"
  have f: "f_stored ?f = None" "f_result ?f = None" "f_error ?f = None" "n_db ?f = n_db s"
    by (simp_all add: node.defs)
  let ?enter = "on_node_db (tx_enter (rn_provider Q)) :: (('a, 'b) frame, unit) act"
  let ?leave = "\<lambda>err. on_node_db (tx_leave (rn_provider Q) err) :: (('a, 'b) frame, unit) act"
  obtain r s1 where run: "async_with ?enter ?leave (transaction_body Q e) ?f = (r, s1)"
    by fastforce
  have out: "f_stored s1 = Some x" "f_result s1 = res" "n_db s' = n_db s1"
    "r = Inr () \<Longrightarrow> f_error s1 = err" "\<And>e. r = Inl e \<Longrightarrow> err \<noteq> None"
    using assms run
    by (cases r; auto simp: process_in_transaction_def noting_error_def catch_def andthen_def assign_def node.defs
        split: if_splits)+
  obtain db0 where enter: "tx_enter (rn_provider Q) (n_db s) = (Inr (), db0)"
    and body: "(case transaction_body Q e (?f\<lparr>n_db := db0\<rparr>) of
       (Inr _, s1) \<Rightarrow> ?leave None s1
     | (Inl err, s1) \<Rightarrow> andthen (?leave (Some err)) (\<lambda>_. throw err) s1) = (r, s1)"
    using run out(1) f
    by (auto simp: async_with_def andthen_def on_node_db_def split: prod.splits sum.splits)
  obtain r2 s2 where b: "transaction_body Q e (?f\<lparr>n_db := db0\<rparr>) = (r2, s2)"
    by fastforce
  show thesis
  proof (cases r2)
    case (Inl err2)
    obtain u db3 where l: "tx_leave (rn_provider Q) (Some err2) (n_db s2) = (u, db3)"
      by fastforce
    then have "f_stored s2 = Some x" and "r \<noteq> Inr ()" and db3: "n_db s1 = db3"
      using body b Inl out(1) by (cases u; auto simp: andthen_def on_node_db_def)+
    then obtain db1 where "ic_create (rn_calls Q) e db0 = (Inr x, db1)" "status x \<noteq> COMPLETED"
      using transaction_body_Inl [OF b [unfolded Inl]] f by auto
    moreover have "err \<noteq> None"
      using \<open>r \<noteq> Inr ()\<close> out(5) by (cases r) auto
    moreover have "n_db (?f\<lparr>n_db := db0\<rparr>) = db0"
      by simp
    ultimately show thesis
      using enter b [unfolded Inl] l db3 out(3) that by metis
  next
    case (Inr u)
    have l: "?leave None s2 = (r, s1)"
      using body b Inr by simp
    then have same: "f_stored s2 = Some x" "f_result s2 = res" "f_error s1 = f_error s2"
      and l2: "tx_leave (rn_provider Q) None (n_db s2) = (r, n_db s')"
      using out(1-3) by (auto simp: on_node_db_iff)
    obtain db1 where c: "ic_create (rn_calls Q) e db0 = (Inr x, db1)" and "f_error s2 = None"
      and h: "case res of None \<Rightarrow> not_handled Q x db1 (n_db s2) | Some r \<Rightarrow> handled Q x r db1 (n_db s2)"
      using transaction_body_Inr [OF b [unfolded Inr]] f same by auto
    then have "err = None \<longleftrightarrow> r = Inr ()"
      using out(4,5) same by (cases r) auto
    with l2 h show thesis
      by (intro that [OF enter c] disjI1 exI conjI)
  qed
qed

section \<open>The outcome of one message\<close>

lemma keeps_db:
  "keeps n_db new_uuid" "keeps n_db node_utc_now" "keeps n_db node_perf_counter"
  "keeps n_db (report Q x)" "keeps n_db (on_broker c)"
  by (auto simp: keeps_def new_uuid_def node_utc_now_def node_perf_counter_def report_def on_broker_def
      split: prod.split option.split)

lemma keeps_db_calls:
  "keeps n_db (create_event Q m)" "keeps n_db (commit_if Q h p c)" "keeps n_db (rewind h)"
  "keeps n_db (update_metrics_after_handler Q ev r t)" "keeps n_db (handle_duplicate Q m x h c)"
  "keeps n_db (handle_handler_error Q m x t h c)"
  unfolding create_event_def commit_if_def commit_with_metrics_def rewind_def update_metrics_after_handler_def
    handle_duplicate_def handle_handler_error_def
  by (intro keeps_intros keeps_db)+

lemma commit_if_Inr: "commit_if Q h p c s = (Inr d, s') \<Longrightarrow> d = (c \<or> p)"
  by (auto simp: commit_if_def res_simps split: if_splits)

text \<open>The event a message becomes.\<close>

definition event_of :: "('db, 'b) runner \<Rightarrow> 'b consumed_message \<Rightarrow> inbox_event \<Rightarrow> bool" where
  "event_of Q m e \<longleftrightarrow> (\<exists>i now1 now2. message_event Q m i now1 now2 = Inr e)"

lemma event_ofD:
  assumes "event_of Q m e"
  shows "status e = PENDING" "locked_at e = None" "idempotency_key e = None"
    "message_id e = strip (msg_message_id m)" "consumer_group e = strip (rn_consumer_group Q)"
proof -
  obtain ctx e0 where e0: "InboxEvent_validate (rn_libs Q) ctx e0 = Inr e" "status e0 = PENDING" "locked_at e0 = None"
      "idempotency_key e0 = None" "message_id e0 = strip (msg_message_id m)"
      "consumer_group e0 = strip (rn_consumer_group Q)"
    using assms unfolding event_of_def message_event_def bindr_Inr_iff create_inbox_event_def by auto
  obtain f where f: "BaseEvent_fields (rn_libs Q) ctx e0 = Inr f" and e: "idempotency_key e = idempotency_key f"
    "message_id e = strip (message_id f)" "consumer_group e = strip (consumer_group f)"
    using e0(1) unfolding InboxEvent_validate_def
    by (auto simp: res_simps check_invariants_Inr stripped_non_empty_Inr)
  have "message_id f = message_id e0" "consumer_group f = consumer_group e0"
    using BaseEvent_fields_more [OF f] by (cases e0; cases f; simp)+
  moreover have "idempotency_key f = None"
    using f e0(4) unfolding BaseEvent_fields_def bindr_Inr_iff by auto
  ultimately show "idempotency_key e = None"
    "message_id e = strip (msg_message_id m)" "consumer_group e = strip (rn_consumer_group Q)"
    using e e0 by simp_all
  show "status e = PENDING" "locked_at e = None"
    using inbox_class.class_same [OF e0(1)] e0 by (simp_all add: same_state_def)
qed

lemma create_event_Inr: "create_event Q m s = (Inr e, s') \<Longrightarrow> event_of Q m e"
  unfolding create_event_def event_of_def by (auto simp: res_simps)

text \<open>When a message whose transaction left \<open>x\<close>, a handler's result and an error is committed.\<close>

definition commits :: "('db, 'b) runner \<Rightarrow> inbox_event \<Rightarrow> handler_result option \<Rightarrow> error option \<Rightarrow> bool" where
  "commits Q x res err \<longleftrightarrow> rn_ack_strategy Q = AT_MOST_ONCE \<or> status x = COMPLETED \<or>
     (if err = None then should_commit_offset Q res False
      else rn_ack_strategy Q = AT_LEAST_ONCE \<and> rn_commit_offset_policy Q = ON_PERSIST \<or>
        rn_ack_strategy Q = EXACTLY_ONCE_INBOX \<and> rn_commit_on_failed Q)"

lemma process_message_Inr:
  assumes "process_message Q m h s = (Inr result, s')"
  obtains e x res err t s1 s2 where "event_of Q m e" and "n_db s1 = n_db s"
    and "process_in_transaction Q e s1 = (Inr (Some x, res, err, t), s2)" and "n_db s' = n_db s2"
    and "cr_event_id result = Some (event_id x)" and "cr_duplicate result \<longleftrightarrow> status x = COMPLETED"
    and "cr_committed result \<longleftrightarrow> commits Q x res err"
proof -
  obtain c s0 e s1 stored res err t s2 where
      first: "commit_if Q h (rn_ack_strategy Q = AT_MOST_ONCE) False s = (Inr c, s0)"
    and e: "create_event Q m s0 = (Inr e, s1)"
    and run: "process_in_transaction Q e s1 = (Inr (stored, res, err, t), s2)"
    and rest: "(case stored of
       None \<Rightarrow> throw (InboxPersistError (msg_message_id m) err)
     | Some stored \<Rightarrow>
         if status stored = COMPLETED then handle_duplicate Q m stored h c
         else if err \<noteq> None then handle_handler_error Q m stored t h c
         else andthen (case res of
                None \<Rightarrow> ret ()
              | Some r \<Rightarrow> update_metrics_after_handler Q (msg_event_type m) r t) (\<lambda>_.
           andthen (commit_if Q h (should_commit_offset Q res c) c) (\<lambda>committed.
           ret \<lparr>cr_message_id = msg_message_id m, cr_event_id = Some (event_id stored),
             cr_committed = committed,
             cr_processed = (case res of None \<Rightarrow> False | Some r \<Rightarrow> res_processed r),
             cr_duplicate = False\<rparr>))) s2 = (Inr result, s')"
    using assms unfolding process_message_def by (auto simp: andthen_Inr_iff)
  have c: "c \<longleftrightarrow> rn_ack_strategy Q = AT_MOST_ONCE"
    using commit_if_Inr [OF first] by simp
  obtain x where x: "stored = Some x"
    using rest by (cases stored) auto
  have db: "n_db s1 = n_db s"
    using keepsD [OF keeps_db_calls(2) first] keepsD [OF keeps_db_calls(1) e] by simp
  consider (dup) "status x = COMPLETED" "handle_duplicate Q m x h c s2 = (Inr result, s')"
    | (err) "status x \<noteq> COMPLETED" "err \<noteq> None" "handle_handler_error Q m x t h c s2 = (Inr result, s')"
    | (ok) d s3 where "status x \<noteq> COMPLETED" "err = None" "n_db s3 = n_db s2"
        "commit_if Q h (should_commit_offset Q res c) c s3 = (Inr d, s')" "cr_committed result = d"
        "cr_event_id result = Some (event_id x)" "\<not> cr_duplicate result"
  proof (cases "status x = COMPLETED")
    case True
    with rest x show thesis
      by (intro that(1)) simp_all
  next
    case new: False
    show thesis
    proof (cases "err = None")
      case False
      with new rest x show thesis
        by (intro that(2)) simp_all
    next
      case True
      with new rest x obtain u s3 d where m: "(case res of None \<Rightarrow> ret ()
          | Some r \<Rightarrow> update_metrics_after_handler Q (msg_event_type m) r t) s2 = (Inr u, s3)"
        and d: "commit_if Q h (should_commit_offset Q res c) c s3 = (Inr d, s')"
        and res: "result = \<lparr>cr_message_id = msg_message_id m, cr_event_id = Some (event_id x), cr_committed = d,
             cr_processed = (case res of None \<Rightarrow> False | Some r \<Rightarrow> res_processed r), cr_duplicate = False\<rparr>"
        by (auto simp: andthen_Inr_iff)
      have "n_db s3 = n_db s2"
        using m keepsD [OF keeps_db_calls(4)] by (cases res) auto
      with new True d res show thesis
        by (intro that(3)) simp_all
    qed
  qed
  then show thesis
  proof cases
    case dup
    moreover have "cr_committed result \<and> cr_event_id result = Some (event_id x) \<and> cr_duplicate result"
      using dup(2) unfolding handle_duplicate_def by (auto simp: andthen_Inr_iff dest!: commit_if_Inr)
    ultimately show thesis
      using e x run db keepsD [OF keeps_db_calls(5) dup(2)]
      by (intro that [of e s1 x res err t s2]) (auto simp: commits_def dest: create_event_Inr)
  next
    case err
    moreover have "cr_committed result = (c \<or> rn_ack_strategy Q = AT_LEAST_ONCE \<and>
        rn_commit_offset_policy Q = ON_PERSIST \<or> rn_ack_strategy Q = EXACTLY_ONCE_INBOX \<and> rn_commit_on_failed Q) \<and>
        cr_event_id result = Some (event_id x) \<and> \<not> cr_duplicate result"
      using err(3) unfolding handle_handler_error_def by (auto simp: andthen_Inr_iff dest!: commit_if_Inr)
    ultimately show thesis
      using e x run db c keepsD [OF keeps_db_calls(6) err(3)]
      by (intro that [of e s1 x res err t s2]) (auto simp: commits_def dest: create_event_Inr)
  next
    case ok
    then show thesis
      using e x run db c commit_if_Inr [OF ok(4)] keepsD [OF keeps_db_calls(2) ok(4)]
      by (intro that [of e s1 x res err t s2]) (auto simp: commits_def should_commit_offset_def dest: create_event_Inr)
  qed
qed

lemma process_one_Inr:
  assumes "rn_getone Q (n_broker s) = (Inr m, b)" and "process_one Q s = (Inr result, s')"
  obtains s1 s2 where "n_db s1 = n_db s" and "process_message Q m (handle_of m) s1 = (Inr result, s2)"
    and "n_db s' = n_db s2"
proof -
  obtain s0 s1 s2 where get: "on_broker (rn_getone Q) s = (Inr m, s0)"
    and rep: "report Q IncConsumed s0 = (Inr (), s1)"
    and run: "process_message Q m (handle_of m) s1 = (Inr result, s2)"
    and fin: "(if cr_committed result then ret () else rewind (handle_of m)) s2 = (Inr (), s')"
    using assms unfolding process_one_def by (auto simp: res_simps on_broker_def split: prod.splits)
  have "n_db s' = n_db s2"
    using fin keepsD [OF keeps_db_calls(3)] by (auto split: if_splits)
  moreover have "n_db s1 = n_db s"
    using keepsD [OF keeps_db(5) get] keepsD [OF keeps_db(4) rep] by simp
  ultimately show thesis
    using that run by blast
qed

section \<open>The calls in a transaction\<close>

lemma keeps_statement: "(\<And>x. keeps v (m x)) \<Longrightarrow> keeps v (\<lambda>db. storage_error (m (g db) db))"
  "(\<And>x. keeps v (m x)) \<Longrightarrow> keeps v (\<lambda>db. creation_error (m (g db) db))"
  unfolding keeps_def by (metis fst_conv snd_conv prod.collapse storage_error_snd creation_error_snd)+

text \<open>A view of the database no statement on the table changes; no call of the repository does then.\<close>

locale statement_view =
  fixes E :: "('db, inbox_event) engine" and v :: "'db \<Rightarrow> 'v"
  assumes select_view: "keeps v (sql_select E q)" and update_view: "keeps v (sql_update E p f)"
    and insert_view: "keeps v (sql_insert E conflict vs)" and lock_view: "keeps v (sql_advisory_lock E tokens)"
begin

lemma mark_processing_view: "keeps v (mark_processing E i w)"
  unfolding mark_processing_def
  by (intro keeps_intros keeps_statement(1) [where g = "tx_now E" and
      m = "\<lambda>now. sql_update E _ (\<lambda>r. r\<lparr>locked_at := Some now, locked_by := Some w\<rparr>)"] update_view)

lemma mark_completed_view: "keeps v (mark_completed E i w)"
  unfolding mark_completed_def
  by (intro keeps_intros keeps_statement(1) [where g = "tx_now E" and
      m = "\<lambda>now. sql_update E _ (completed_row now)"] update_view)

lemma select_keeps: "keeps v (\<lambda>db. creation_error (sql_select E q db))"
  by (rule keeps_statement(2) [where m = "\<lambda>_. sql_select E q"]) (rule select_view)

lemma lock_keeps: "keeps v (\<lambda>db. creation_error (sql_advisory_lock E t db))"
  by (rule keeps_statement(2) [where m = "\<lambda>_. sql_advisory_lock E t"]) (rule lock_view)

lemma insert_keeps: "keeps v (\<lambda>db. creation_error (sql_insert E c vs db))"
  by (rule keeps_statement(2) [where m = "\<lambda>_. sql_insert E c vs"]) (rule insert_view)

lemma create_view: "keeps v (create E py_str L R e)"
proof -
  have fetch: "keeps v (fetch_existing_event E R e)"
    unfolding fetch_existing_event_def base_fetch_existing_event_def find_existing_by_identity_def
      inbox_fetch_existing_event_def
    by (intro keeps_intros select_keeps)
  have ins: "keeps v (insert_or_fetch E L R e)"
    unfolding insert_or_fetch_def execute_insert_def
    by (intro keeps_intros insert_keeps fetch)
  show ?thesis
    unfolding create_def base_create_def inbox_create_def lock_identity_and_find_existing_def
      find_existing_by_identity_def
    by (intro keeps_intros select_keeps lock_keeps ins)
qed

end

sublocale transactional \<subseteq> committed: statement_view E durable
  by unfold_locales (rule select_durable update_durable insert_durable lock_durable)+

context transactional
begin

lemma durable_view: "statement_view E durable"
  by unfold_locales

text \<open>The row \<open>create\<close> returns, in the table before and after.\<close>

lemma created_row:
  assumes "PostgresInboxRepository_init part ii im bs em suffix skew = Inr R"
    and "idempotency_key e = None" and "status e = PENDING" and "create E py_str L R e db = (Inr x, db')"
    and "unique_ids (table_rows E db)"
  shows "unique_ids (table_rows E db') \<and> durable db' = durable db \<and>
    (\<exists>r\<in>#table_rows E db'. same_key e r \<and> same_state x r) \<and>
    (if \<exists>r\<in>#table_rows E db. same_key e r
     then table_rows E db' = table_rows E db \<and> (\<exists>r\<in>#table_rows E db. same_key e r \<and> same_state x r)
     else table_rows E db' = add_mset e (table_rows E db) \<and> same_state x e)"
proof -
  have same: "to_entity L R r = Inr x \<Longrightarrow> same_state x r" for r
    using inbox_init [OF assms(1)] inbox_class.class_same by (simp add: to_entity_def)
  have "unique_ids (table_rows E db')"
    using safeD [OF safe_create [of "\<lambda>_. True" e py_str L R], OF TrueI assms(4)] assms(5)
    by (simp add: evolves_def sound_ids_plain [OF plain_table])
  moreover have "durable db' = durable db"
    using keepsD [OF committed.create_view assms(4)] .
  ultimately show ?thesis
    using inbox_create_outcome [OF sql_engine_axioms assms(1,2,4)] same by (auto simp: same_key_def)
qed

lemma mark_processing_outcome:
  assumes "mark_processing E i w db = (Inr ours, db')" and "unique_ids (table_rows E db)"
  shows "(ours \<longrightarrow> table_rows E db' = updated_rows (\<lambda>x. event_id x = i)
      (\<lambda>r. r\<lparr>locked_at := Some (tx_now E db), locked_by := Some w\<rparr>) (table_rows E db)) \<and>
    (\<not> ours \<longrightarrow> table_rows E db' = table_rows E db \<and>
      \<not> (\<exists>r\<in>#table_rows E db. event_id r = i \<and> status r = PENDING \<and> locked_at r = None))"
proof -
  obtain res db1 where upd: "sql_update E (\<lambda>r. event_id r = i \<and> status r = PENDING \<and> locked_at r = None)
      (\<lambda>r. r\<lparr>locked_at := Some (tx_now E db), locked_by := Some w\<rparr>) db = (res, db1)" by fastforce
  from update_by_id [OF assms(2) upd] show ?thesis
    using assms(1) upd by (auto simp: mark_processing_def andthen_def)
qed

lemma handled_completes:
  assumes calls: "rn_calls Q = postgres_inbox E py_str L R" and run: "handled Q x res db db'"
    and handler: "\<And>h x db. rn_handler Q = Some h \<Longrightarrow> table_rows E (snd (h x db)) = table_rows E db"
    and u: "unique_ids (table_rows E db)"
    and row: "r \<in># table_rows E db" "event_id r = event_id x" "same_key e r"
  shows "\<exists>r\<in>#table_rows E db'. event_id r = event_id x \<and> status r = COMPLETED \<and> same_key e r"
proof -
  let ?w = "rn_worker_id Q"
  obtain h db1 raw db2 where h: "rn_handler Q = Some h" "h x db1 = (Inr raw, db2)"
    and mp: "mark_processing E (event_id x) ?w db = (Inr True, db1)"
    and mc: "mark_completed E (event_id x) ?w db2 = (Inr (), db')"
    using run calls by (auto simp: handled_def postgres_inbox_def)
  have t1: "table_rows E db1 = updated_rows (\<lambda>y. event_id y = event_id x)
      (\<lambda>r. r\<lparr>locked_at := Some (tx_now E db), locked_by := Some ?w\<rparr>) (table_rows E db)"
    using mark_processing_outcome [OF mp u] by blast
  then have u1: "unique_ids (table_rows E db1)"
    using u by (simp add: unique_updated)
  have t2: "table_rows E db2 = table_rows E db1"
    using handler [OF h(1), of x db1] h(2) by simp
  have t3: "table_rows E db' = updated_rows (\<lambda>y. event_id y = event_id x)
      (completed_row (tx_now E db2)) (table_rows E db2)"
    using mark_completed_outcome [OF _ mc] u1 t2 by auto
  let ?r = "completed_row (tx_now E db2) (r\<lparr>locked_at := Some (tx_now E db), locked_by := Some ?w\<rparr>)"
  have "?r \<in># table_rows E db'"
    using row t1 t2 t3 by (force simp: set_updated_rows)
  moreover have "event_id ?r = event_id x \<and> status ?r = COMPLETED \<and> same_key e ?r"
    using row by (simp add: completed_row_def same_key_def)
  ultimately show ?thesis by blast
qed

lemma transaction_committed:
  assumes "tx_leave P None db = (u, db')"
  shows "durable db' \<in> {durable db, table_rows E db} \<and> (u = Inr () \<longrightarrow> durable db' = table_rows E db)"
  using commit_law [of db] commit_error [of db] assms by (cases u) auto

end

end
