(* ===== verification/ConsumerSample.thy ===== *)
theory ConsumerSample
  imports ExactlyOnce
begin

text \<open>
  A runner over an in-memory broker and the list engine, evaluated on one message: the concrete runs the
  witnesses of the consumer's properties use.
\<close>

section \<open>Calls on a session\<close>

text \<open>A call on the working state of a session is the call on the engine beneath it.\<close>

definition lifts :: "('c \<times> 'db, 'a) act \<Rightarrow> ('db, 'a) act \<Rightarrow> bool" where
  "lifts m' m \<longleftrightarrow> m' = on_working m"

lemma lifts_pure: "lifts (ret a) (ret a)" "lifts (throw e) (throw e)" "lifts (lift_res x) (lift_res x)"
  by (auto simp: lifts_def on_working_def fun_eq_iff lift_res_def split: sum.split)

lemma lifts_andthen: "lifts m' m \<Longrightarrow> (\<And>a. lifts (k' a) (k a)) \<Longrightarrow> lifts (andthen m' k') (andthen m k)"
  by (auto simp: lifts_def on_working_def fun_eq_iff andthen_def split: prod.split sum.split)

lemma lifts_if: "(p \<Longrightarrow> lifts m' m) \<Longrightarrow> (\<not> p \<Longrightarrow> lifts n' n) \<Longrightarrow> lifts (if p then m' else n') (if p then m else n)"
  by simp

lemma lifts_option: "lifts m' m \<Longrightarrow> (\<And>a. lifts (k' a) (k a)) \<Longrightarrow>
    lifts (case x of None \<Rightarrow> m' | Some a \<Rightarrow> k' a) (case x of None \<Rightarrow> m | Some a \<Rightarrow> k a)"
  by (cases x) simp_all

lemma error_pair:
  "storage_error (x, y) = (case x of Inl _ \<Rightarrow> Inl StorageError | Inr a \<Rightarrow> Inr a, y)"
  "creation_error (x, y) = (case x of Inl e \<Rightarrow> Inl (if e = IntegrityError then StorageIntegrityError else StorageError)
     | Inr a \<Rightarrow> Inr a, y)"
  by (cases "(x, y)" rule: storage_error.cases; simp) (cases "(x, y)" rule: creation_error.cases; simp)

lemma lifts_statement:
  "lifts (\<lambda>db. storage_error (sql_update (session_engine E) p (f (tx_now (session_engine E) db)) db))
    (\<lambda>db. storage_error (sql_update E p (f (tx_now E db)) db))"
  "lifts (\<lambda>db. creation_error (sql_select (session_engine E) q db)) (\<lambda>db. creation_error (sql_select E q db))"
  "lifts (\<lambda>db. creation_error (sql_insert (session_engine E) conflict vs db)) (\<lambda>db. creation_error (sql_insert E conflict vs db))"
  "lifts (\<lambda>db. creation_error (sql_advisory_lock (session_engine E) tokens db))
    (\<lambda>db. creation_error (sql_advisory_lock E tokens db))"
  by (auto simp: lifts_def on_working_def session_engine_def fun_eq_iff split: prod.split) (simp_all add: error_pair)

lemmas lifts_intros = lifts_pure lifts_andthen lifts_if lifts_option lifts_statement

lemma lifts_create: "lifts (create (session_engine E) py_str L R e) (create E py_str L R e)"
  unfolding create_def base_create_def inbox_create_def lock_identity_and_find_existing_def insert_or_fetch_def
    execute_insert_def fetch_existing_event_def base_fetch_existing_event_def find_existing_by_identity_def
    inbox_fetch_existing_event_def
  by (intro lifts_intros)

lemma lifts_marks:
  "lifts (mark_processing (session_engine E) i w) (mark_processing E i w)"
  "lifts (mark_completed (session_engine E) i w) (mark_completed E i w)"
  unfolding mark_processing_def mark_completed_def by (intro lifts_intros)+

lemma liftsD: "lifts m' m \<Longrightarrow> m db = (r, db') \<Longrightarrow> m' (c, db) = (r, (c, db'))"
  by (simp add: lifts_def on_working_def)

section \<open>A runner and a message\<close>

definition sample_inbox_repository :: "unit inbox_event_ext repository" where
  "sample_inbox_repository =
     \<lparr>repo_columns = inbox_column, repo_ordering_key_columns = [],
      repo_inbox_dedup_columns = Some [''message_id'', ''consumer_group''], repo_validate = InboxEvent_validate,
      repo_conflict_index_id = [''id''], repo_conflict_index_idempotency = [''idempotency_key''],
      repo_batch_size = 1, repo_error_max_length = 2000,
      repo_truncation_suffix = DEFAULT_TRUNCATION_SUFFIX, repo_scheduled_at_skew_seconds = 60\<rparr>"

lemma sample_inbox_repository_init:
  "PostgresInboxRepository_init False None None 1 2000 DEFAULT_TRUNCATION_SUFFIX 60 = Inr sample_inbox_repository"
  by (simp add: PostgresInboxRepository_init_def PostgresEventRepository_init_def sample_inbox_repository_def
      MAX_BATCH_SIZE_def conflict_index_def DEFAULT_TRUNCATION_SUFFIX_def lit_def encode_text_ok
      surrogate_def encode1_def)

text \<open>A message with the fields of the sample event, and a runner that reads with \<open>getone\<close>.\<close>

definition message_with :: "'b ack_handle \<Rightarrow> 'b consumed_message" where
  "message_with h = \<lparr>msg_message_id = lit ''m'', msg_source = lit ''s'', msg_event_type = lit ''t'',
     msg_payload = JObj sample_payload, msg_headers = None, msg_trace_id = JNull, msg_correlation_id = JNull,
     msg_causation_id = JNull, msg_schema_version = JNull, msg_ack_handle = Some h\<rparr>"

abbreviation sample_message :: "nat list consumed_message" where
  "sample_message \<equiv> message_with \<lparr>ack_commit = (\<lambda>b. (Inr (), b @ [1])), ack_rewind = (\<lambda>b. (Inr (), b @ [2]))\<rparr>"

definition runner_reading :: "('b, 'b consumed_message) act \<Rightarrow> ('db, inbox_event) engine \<Rightarrow> 'db transaction_provider \<Rightarrow>
    ack_strategy \<Rightarrow> commit_offset_policy \<Rightarrow> ('db, inbox_event) handler \<Rightarrow> ('db, 'b) runner" where
  "runner_reading getone E P strategy policy handler =
     \<lparr>rn_getone = getone, rn_start = ret (), rn_stop = ret (), rn_provider = P,
      rn_calls = postgres_inbox E (\<lambda>_. []) sample_libs sample_inbox_repository,
      rn_handler = Some handler, rn_worker_id = lit ''w'', rn_consumer_group = lit ''g'',
      rn_libs = sample_libs, rn_service = default_service\<lparr>svc_max_attempts := 2\<rparr>, rn_ack_strategy = strategy,
      rn_commit_offset_policy = policy, rn_commit_on_failed = False, rn_refuses = (\<lambda>_. None)\<rparr>"

abbreviation runner_over :: "('db, inbox_event) engine \<Rightarrow> 'db transaction_provider \<Rightarrow> ack_strategy \<Rightarrow>
    commit_offset_policy \<Rightarrow> ('db, inbox_event) handler \<Rightarrow> ('db, nat list) runner" where
  "runner_over \<equiv> runner_reading (ret sample_message)"

abbreviation sample_runner :: "ack_strategy \<Rightarrow> commit_offset_policy \<Rightarrow>
    (inbox_event listdb \<times> inbox_event listdb, inbox_event) handler \<Rightarrow>
    (inbox_event listdb \<times> inbox_event listdb, nat list) runner" where
  "sample_runner \<equiv> runner_over (session_engine list_engine) session_provider"

definition node_with :: "'b \<Rightarrow> 'db \<Rightarrow> ('db, 'b) node" where
  "node_with b db =
     \<lparr>n_db = db, n_broker = b, n_uuids = (\<lambda>_. UUID 7), n_times = (\<lambda>_. 0),
      n_perf = (\<lambda>_. 1), n_log = [], n_started = True, n_stops = (\<lambda>_. False), n_sleeps = []\<rparr>"

abbreviation sample_table :: "inbox_event list \<Rightarrow> inbox_event listdb" where
  "sample_table rows \<equiv> \<lparr>db_rows = rows, db_now = 5, db_held = {}\<rparr>"

abbreviation sample_node :: "inbox_event list \<Rightarrow> (inbox_event listdb \<times> inbox_event listdb, nat list) node" where
  "sample_node rows \<equiv> node_with [] (sample_table rows, sample_table [])"

lemma sample_fields [simp]:
  "rn_getone (runner_reading getone E P strategy policy h) = getone"
  "rn_provider (runner_reading getone E P strategy policy h) = P"
  "rn_calls (runner_reading getone E P strategy policy h) =
     postgres_inbox E (\<lambda>_. []) sample_libs sample_inbox_repository"
  "rn_handler (runner_reading getone E P strategy policy h) = Some h"
  "rn_worker_id (runner_reading getone E P strategy policy h) = lit ''w''"
  "rn_consumer_group (runner_reading getone E P strategy policy h) = lit ''g''"
  "rn_ack_strategy (runner_reading getone E P strategy policy h) = strategy"
  "rn_commit_offset_policy (runner_reading getone E P strategy policy h) = policy"
  "rn_commit_on_failed (runner_reading getone E P strategy policy h) = False"
  "rn_refuses (runner_reading getone E P strategy policy h) = (\<lambda>_. None)"
  "rn_libs (runner_reading getone E P strategy policy h) = sample_libs"
  "rn_service (runner_reading getone E P strategy policy h) = default_service\<lparr>svc_max_attempts := 2\<rparr>"
  by (simp_all add: runner_reading_def)

lemma node_fields [simp]:
  "n_db (node_with b db) = db" "n_broker (node_with b db) = b" "n_started (node_with b db)"
  by (simp_all add: node_with_def)

lemma sample_message_fields [simp]:
  "msg_message_id (message_with h) = lit ''m''" "msg_event_type (message_with h) = lit ''t''"
  "handle_of (message_with h) = h"
  by (simp_all add: message_with_def handle_of_def)

lemma sample_event_made:
  "create_inbox_event sample_libs (default_service\<lparr>svc_max_attempts := 2\<rparr>) (event_id sample_inbox_event) 0 0
     (lit ''m'') (lit ''g'') (lit ''s'') (lit ''t'') sample_payload None None None None None =
     Inr sample_inbox_event"
proof -
  have "strip (lit ''m'') = lit ''m''" "strip (lit ''g'') = lit ''g''" "strip (lit ''s'') = lit ''s''"
    "strip (lit ''t'') = lit ''t''"
    by (simp_all add: strip_def lit_def py_space_def)
  moreover have "validation_context (default_service\<lparr>svc_max_attempts := 2\<rparr>) = validation_context default_service"
    by (simp add: validation_context_def)
  ultimately show ?thesis
    using inbox_class.validate_valid [OF sample_libs_roundtrip sample_inbox_event_valid]
    by (simp add: create_inbox_event_def) (simp add: sample_inbox_event_def)
qed

lemma sample_inbox_entity:
  "to_entity sample_libs sample_inbox_repository sample_inbox_event = Inr sample_inbox_event"
proof -
  have "valid_event inbox_extra sample_libs (entity_context sample_inbox_repository) sample_inbox_event"
    using sample_inbox_event_valid
    by (simp add: valid_event_def fields_ok_def sample_inbox_event_def inbox_extra_def invariant_defs
        validate_scheduled_at_def entity_context_def sample_inbox_repository_def limit_defs Let_def
        us_per_s_def payload_ok_def sample_payload_def lit_def field_ok_def py_space_def)
  then show ?thesis
    using inbox_class.validate_valid [OF sample_libs_roundtrip]
    by (simp add: to_entity_def sample_inbox_repository_def)
qed

lemma sample_message_event:
  "message_event (runner_reading getone E P strategy policy h) (message_with ack) (UUID 7) 0 0 = Inr sample_inbox_event"
proof -
  have "event_id sample_inbox_event = UUID 7"
    by (simp add: sample_inbox_event_def)
  then show ?thesis
    using sample_event_made by (simp add: message_event_def message_with_def)
qed

section \<open>A run\<close>

text \<open>A new row of an empty table, as the calls of the transaction see it.\<close>

definition arrived :: "inbox_event \<Rightarrow> bool" where
  "arrived e \<longleftrightarrow> event_id e = UUID 7 \<and> status e = PENDING \<and> locked_at e = None \<and> idempotency_key e = None \<and>
     to_entity sample_libs sample_inbox_repository e = Inr e"

definition taken :: "inbox_event \<Rightarrow> inbox_event" where
  "taken e = e\<lparr>locked_at := Some 5, locked_by := Some (lit ''w'')\<rparr>"

abbreviation finished :: "inbox_event \<Rightarrow> inbox_event" where
  "finished e \<equiv> completed_row 5 (taken e)"

lemma sample_arrived: "arrived sample_inbox_event"
  using sample_inbox_entity by (simp add: arrived_def) (simp add: sample_inbox_event_def)

lemma arrived_calls:
  assumes "arrived e"
  shows "create list_engine (\<lambda>_. []) sample_libs sample_inbox_repository e (sample_table []) = (Inr e, sample_table [e])"
    and "mark_processing list_engine (UUID 7) (lit ''w'') (sample_table [e]) = (Inr True, sample_table [taken e])"
    and "mark_completed list_engine (UUID 7) (lit ''w'') (sample_table [taken e]) = (Inr (), sample_table [finished e])"
proof -
  have "repo_inbox_dedup_columns sample_inbox_repository = Some [''message_id'', ''consumer_group'']"
    by (simp add: sample_inbox_repository_def)
  then show "create list_engine (\<lambda>_. []) sample_libs sample_inbox_repository e (sample_table []) = (Inr e, sample_table [e])"
    using assms
    by (simp add: arrived_def create_def inbox_create_def base_create_def truthy_def insert_or_fetch_def execute_insert_def
        andthen_def list_engine_def unique_ids_def Let_def)
  show "mark_processing list_engine (UUID 7) (lit ''w'') (sample_table [e]) = (Inr True, sample_table [taken e])"
    using assms by (simp add: arrived_def mark_processing_def andthen_def list_engine_def list_update_def taken_def)
  show "mark_completed list_engine (UUID 7) (lit ''w'') (sample_table [taken e]) = (Inr (), sample_table [finished e])"
    using assms
    by (simp add: arrived_def mark_completed_def andthen_def list_engine_def list_update_def held_by_def taken_def)
qed

lemmas session_calls = arrived_calls(1) [THEN liftsD [OF lifts_create]] arrived_calls(2) [THEN liftsD [OF lifts_marks(1)]]
  arrived_calls(3) [THEN liftsD [OF lifts_marks(2)]]

text \<open>The transaction of such a row, when the handler returns.\<close>

lemma arrived_transaction:
  assumes "arrived e" and "tx_enter P (n_db s) = (Inr (), db0)"
    and "create E (\<lambda>_. []) sample_libs sample_inbox_repository e db0 = (Inr e, db1)"
    and "mark_processing E (UUID 7) (lit ''w'') db1 = (Inr True, db2)" and "h e db2 = (Inr None, db3)"
    and "mark_completed E (UUID 7) (lit ''w'') db3 = (Inr (), db4)" and "tx_leave P None db4 = (Inr (), db5)"
  shows "process_in_transaction (runner_reading getone E P strategy policy h) e s =
    (Inr (Some e, Some (handler_completed STATUS_COMPLETED), None, n_perf s 0),
     s\<lparr>n_db := db5, n_perf := (\<lambda>k. n_perf s (Suc (Suc k)))\<rparr>)"
  using assms
  by (cases s) (simp add: arrived_def process_in_transaction_def noting_error_def catch_def async_with_def andthen_def
      on_node_db_def transaction_body_def postgres_inbox_def assign_def handle_stored_def
      node_perf_counter_def settle_def coerce_handler_outcome_def handler_completed_def node.defs)

definition sample_outcome :: "pystr \<Rightarrow> bool \<Rightarrow> bool \<Rightarrow> consume_result" where
  "sample_outcome mid committed processed = \<lparr>cr_message_id = mid, cr_event_id = Some (UUID 7),
     cr_committed = committed, cr_processed = processed, cr_duplicate = False\<rparr>"

lemma arrived_run:
  assumes "arrived e" and "getone b = (Inr m, b0)" and "ack_commit (handle_of m) b0 = (Inr (), b1)"
    and "message_event (runner_reading getone E P EXACTLY_ONCE_INBOX policy h) m (UUID 7) 0 0 = Inr e"
    and "tx_enter P db = (Inr (), db0)" and "create E (\<lambda>_. []) sample_libs sample_inbox_repository e db0 = (Inr e, db1)"
    and "mark_processing E (UUID 7) (lit ''w'') db1 = (Inr True, db2)" and "h e db2 = (Inr None, db3)"
    and "mark_completed E (UUID 7) (lit ''w'') db3 = (Inr (), db4)" and "tx_leave P None db4 = (Inr (), db5)"
  shows "\<exists>s'. process_one (runner_reading getone E P EXACTLY_ONCE_INBOX policy h) (node_with b db) =
      (Inr (sample_outcome (msg_message_id m) True True), s') \<and> n_broker s' = b1 \<and> n_db s' = db5"
proof -
  let ?Q = "runner_reading getone E P EXACTLY_ONCE_INBOX policy h"
  have tx: "process_in_transaction ?Q e s = (Inr (Some e, Some (handler_completed STATUS_COMPLETED), None, n_perf s 0),
      s\<lparr>n_db := db5, n_perf := (\<lambda>k. n_perf s (Suc (Suc k)))\<rparr>)" if "n_db s = db" for s :: "('b, 'a) node"
    by (rule arrived_transaction [where h = h, OF assms(1) _ assms(6-10)]) (simp add: that assms(5))
  show ?thesis
    using assms(1-4)
    by (simp add: arrived_def process_one_def andthen_def on_broker_def report_def process_message_def catch_def create_event_def
      new_uuid_def node_utc_now_def node_with_def tx should_commit_offset_def update_metrics_after_handler_def
      handler_completed_def commit_if_def commit_with_metrics_def sample_outcome_def node_perf_counter_def)
qed

lemma sample_exactly_once:
  "\<exists>s'. process_one (sample_runner EXACTLY_ONCE_INBOX ON_PERSIST (\<lambda>_. ret None)) (sample_node []) =
     (Inr (sample_outcome (lit ''m'') True True), s') \<and> n_broker s' = [1] \<and>
     n_db s' = (sample_table [finished sample_inbox_event], sample_table [finished sample_inbox_event])"
  using arrived_run [OF sample_arrived _ _ sample_message_event _ session_calls(1) [OF sample_arrived]
      session_calls(2) [OF sample_arrived] _ session_calls(3) [OF sample_arrived], where getone = "ret sample_message"
      and b = "[]" and P = session_provider and h = "\<lambda>_. ret None" and policy = ON_PERSIST]
  by (simp add: session_provider_def)

lemma sample_transaction_failed:
  assumes "n_db s = (sample_table [], d)"
  shows "process_in_transaction (runner_reading getone (session_engine list_engine) session_provider strategy policy
      (\<lambda>_. throw RuntimeError)) sample_inbox_event s =
    (Inr (Some sample_inbox_event, None, Some RuntimeError, n_perf s 0),
     s\<lparr>n_db := (sample_table [], sample_table []), n_perf := (\<lambda>k. n_perf s (Suc k))\<rparr>)"
  using assms sample_arrived
  by (cases s) (simp add: session_calls [OF sample_arrived] arrived_def process_in_transaction_def noting_error_def catch_def async_with_def andthen_def
      on_node_db_def session_provider_def transaction_body_def postgres_inbox_def assign_def handle_stored_def
      node_perf_counter_def settle_def coerce_handler_outcome_def handler_completed_def node.defs)

lemma sample_lost:
  "\<exists>s'. process_one (sample_runner AT_LEAST_ONCE ON_PERSIST (\<lambda>_. throw RuntimeError)) (sample_node []) =
     (Inr (sample_outcome (lit ''m'') True False), s') \<and> n_broker s' = [1] \<and> n_db s' = (sample_table [], sample_table [])"
  using sample_arrived
  by (simp add: arrived_def process_one_def andthen_def on_broker_def report_def process_message_def catch_def
    create_event_def new_uuid_def node_utc_now_def sample_message_event node_with_def sample_transaction_failed
    handle_handler_error_def commit_if_def commit_with_metrics_def sample_outcome_def node_perf_counter_def)

end
