(* ===== verification/ConsumerProps.thy ===== *)
theory ConsumerProps
  imports ConsumerSample
begin

text \<open>
  The delivery guarantees of the inbox consumer, over the PostgreSQL inbox and any transaction
  provider that is \<open>transactional\<close>: what is committed has been handled, what has been handled is not
  handled again, and what \<open>AT_LEAST_ONCE\<close> with \<open>ON_PERSIST\<close> loses.
\<close>

section \<open>One message over the inbox\<close>

text \<open>A runner over the PostgreSQL inbox of a transactional database.\<close>

definition inbox_runner :: "('db, inbox_event) engine \<Rightarrow> 'db transaction_provider \<Rightarrow>
    ('db \<Rightarrow> inbox_event multiset) \<Rightarrow> (cell \<Rightarrow> pystr) \<Rightarrow> libs \<Rightarrow> unit inbox_event_ext repository \<Rightarrow>
    ('db, 'b) runner \<Rightarrow> bool" where
  "inbox_runner E P durable py_str L R Q \<longleftrightarrow> transactional E P durable \<and> rn_provider Q = P \<and>
     rn_calls Q = postgres_inbox E py_str L R \<and>
     (\<exists>part ii im bs em suffix skew. PostgresInboxRepository_init part ii im bs em suffix skew = Inr R)"

text \<open>The handler writes to other tables, in the transaction, and commits nothing.\<close>

definition handler_stays :: "('db, inbox_event) engine \<Rightarrow> ('db \<Rightarrow> inbox_event multiset) \<Rightarrow> ('db, 'b) runner \<Rightarrow> bool" where
  "handler_stays E durable Q \<longleftrightarrow> (\<forall>h x db. rn_handler Q = Some h \<longrightarrow>
     durable (snd (h x db)) = durable db \<and> table_rows E (snd (h x db)) = table_rows E db)"

text \<open>The row of a message.\<close>

definition row_of :: "('db, 'b) runner \<Rightarrow> 'b consumed_message \<Rightarrow> inbox_event \<Rightarrow> bool" where
  "row_of Q m r \<longleftrightarrow> message_id r = strip (msg_message_id m) \<and> consumer_group r = strip (rn_consumer_group Q)"

lemma row_of_key: "event_of Q m e \<Longrightarrow> same_key e r \<longleftrightarrow> row_of Q m r"
  by (simp add: row_of_def same_key_def event_ofD)

lemma body_view:
  assumes "statement_view E v" and "rn_calls Q = postgres_inbox E py_str L R"
    and "\<And>h x. rn_handler Q = Some h \<Longrightarrow> keeps v (h x)"
  shows "keeps (\<lambda>s. v (n_db s)) (transaction_body Q e)"
proof -
  note laws = statement_view.create_view [OF assms(1)]
    statement_view.mark_processing_view [OF assms(1)] statement_view.mark_completed_view [OF assms(1)]
  have on: "keeps (\<lambda>s. v (n_db s)) (on_node_db m)" if "keeps v m" for m
    using that by (auto simp: keeps_def on_node_db_def split: prod.split) (metis snd_conv)
  have handle: "keeps (\<lambda>s. v (n_db s)) (handle_stored Q h x)" if "rn_handler Q = Some h" for h x
    unfolding handle_stored_def noting_error_def settle_def assms(2) postgres_inbox_def inbox_calls.simps
    by (intro keeps_intros keeps_assign on laws assms(3) that) (auto simp: keeps_def node_perf_counter_def)
  show ?thesis
    unfolding transaction_body_def assms(2) postgres_inbox_def inbox_calls.simps
    by (intro keeps_intros keeps_assign on laws handle) simp_all
qed

lemma body_durable:
  assumes "transactional E P durable" and "rn_calls Q = postgres_inbox E py_str L R"
    and "handler_stays E durable Q"
  shows "keeps (\<lambda>s. durable (n_db s)) (transaction_body Q e)"
  using assms(3) by (intro body_view [OF transactional.durable_view [OF assms(1)] assms(2)])
    (simp add: keeps_def handler_stays_def)

text \<open>What a message whose transaction left a row has made of the committed table.\<close>

lemma message_transaction:
  assumes Q: "inbox_runner E P durable py_str L R Q" and u: "unique_ids (durable (n_db s))"
    and e: "event_of Q m e" and run: "process_in_transaction Q e s = (Inr (Some x, res, err, t), s')"
  obtains T db1 where "unique_ids T" and "T = table_rows E db1"
    and "\<exists>r\<in>#T. row_of Q m r \<and> same_state x r"
    and "if \<exists>r\<in>#durable (n_db s). row_of Q m r
      then T = durable (n_db s) \<and> (\<exists>r\<in>#T. row_of Q m r \<and> same_state x r)
      else T = add_mset e (durable (n_db s)) \<and> same_state x e"
    and "(\<exists>db2. durable (n_db s') \<in> {durable db2, table_rows E db2} \<and>
        (err = None \<longrightarrow> durable (n_db s') = table_rows E db2) \<and>
        (case res of None \<Rightarrow> not_handled Q x db1 db2 | Some r \<Rightarrow> handled Q x r db1 db2)) \<or>
      (err \<noteq> None \<and> status x \<noteq> COMPLETED \<and>
        (handler_stays E durable Q \<longrightarrow> durable (n_db s') = durable (n_db s)))"
    and "durable db1 = durable (n_db s)"
proof -
  obtain part ii im bs em suffix skew where trans: "transactional E P durable" and P: "rn_provider Q = P"
    and calls: "rn_calls Q = postgres_inbox E py_str L R"
    and R: "PostgresInboxRepository_init part ii im bs em suffix skew = Inr R"
    using Q by (auto simp: inbox_runner_def)
  from run obtain db0 db1 where enter: "tx_enter P (n_db s) = (Inr (), db0)"
    and c: "create E py_str L R e db0 = (Inr x, db1)"
    and out: "(\<exists>db2 u. tx_leave P None db2 = (u, n_db s') \<and> (err = None \<longleftrightarrow> u = Inr ()) \<and>
        (case res of None \<Rightarrow> not_handled Q x db1 db2 | Some r \<Rightarrow> handled Q x r db1 db2)) \<or>
      (\<exists>s1 e2 s2 u. transaction_body Q e s1 = (Inl e2, s2) \<and> n_db s1 = db0 \<and> err \<noteq> None \<and>
        status x \<noteq> COMPLETED \<and> tx_leave P (Some e2) (n_db s2) = (u, n_db s'))"
    by (rule process_in_transaction_cases) (simp add: P calls postgres_inbox_def)
  have d0: "durable db0 = durable (n_db s)" "table_rows E db0 = durable (n_db s)"
    using transactional.enter_law [OF trans enter] by simp_all
  note row = transactional.created_row [OF trans R event_ofD(3,1) [OF e] c, unfolded d0, OF u, unfolded row_of_key [OF e]]
  have fin: "(\<exists>db2. durable (n_db s') \<in> {durable db2, table_rows E db2} \<and>
        (err = None \<longrightarrow> durable (n_db s') = table_rows E db2) \<and>
        (case res of None \<Rightarrow> not_handled Q x db1 db2 | Some r \<Rightarrow> handled Q x r db1 db2)) \<or>
      (err \<noteq> None \<and> status x \<noteq> COMPLETED \<and>
        (handler_stays E durable Q \<longrightarrow> durable (n_db s') = durable (n_db s)))"
    using out
  proof (elim disjE exE conjE)
    fix db2 u
    assume "tx_leave P None db2 = (u, n_db s')" "err = None \<longleftrightarrow> u = Inr ()"
      "case res of None \<Rightarrow> not_handled Q x db1 db2 | Some r \<Rightarrow> handled Q x r db1 db2"
    then show ?thesis
      using transactional.transaction_committed [OF trans] by blast
  next
    fix s1 e2 s2 u
    assume a: "transaction_body Q e s1 = (Inl e2, s2)" "n_db s1 = db0" "err \<noteq> None" "status x \<noteq> COMPLETED"
      and l: "tx_leave P (Some e2) (n_db s2) = (u, n_db s')"
    have "durable (n_db s') = durable (n_db s)" if "handler_stays E durable Q"
      using transactional.rollback_law [OF trans l] keepsD [OF body_durable [OF trans calls that] a(1)] a(2) d0
      by simp
    with a show ?thesis by blast
  qed
  show thesis
    by (rule that [OF _ refl _ _ fin]) (use row d0 in auto)
qed

section \<open>Exactly once\<close>

text \<open>The transaction of a message that is committed to the broker has left a completed row.\<close>

lemma committed_tx:
  assumes "inbox_runner E P durable py_str L R Q" and "handler_stays E durable Q" and "unique_ids (durable (n_db s))"
    and "rn_ack_strategy Q = EXACTLY_ONCE_INBOX" and "\<not> rn_commit_on_failed Q" and "rn_handler Q \<noteq> None"
    and "event_of Q m e" and "process_in_transaction Q e s = (Inr (Some x, res, err, t), s')" and "commits Q x res err"
  shows "\<exists>r\<in>#durable (n_db s'). event_id r = event_id x \<and> status r = COMPLETED \<and> row_of Q m r"
proof -
  obtain T db1 where T: "unique_ids T" "T = table_rows E db1" "\<exists>r\<in>#T. row_of Q m r \<and> same_state x r"
    and new: "if \<exists>r\<in>#durable (n_db s). row_of Q m r
      then T = durable (n_db s) \<and> (\<exists>r\<in>#T. row_of Q m r \<and> same_state x r)
      else T = add_mset e (durable (n_db s)) \<and> same_state x e"
    and out: "(\<exists>db2. durable (n_db s') \<in> {durable db2, table_rows E db2} \<and>
        (err = None \<longrightarrow> durable (n_db s') = table_rows E db2) \<and>
        (case res of None \<Rightarrow> not_handled Q x db1 db2 | Some r \<Rightarrow> handled Q x r db1 db2)) \<or>
      (err \<noteq> None \<and> status x \<noteq> COMPLETED \<and>
        (handler_stays E durable Q \<longrightarrow> durable (n_db s') = durable (n_db s)))"
    and d1: "durable db1 = durable (n_db s)"
    by (rule message_transaction [OF assms(1,3,7,8)])
  show ?thesis
  proof (cases "status x = COMPLETED")
    case True
    then have T': "T = durable (n_db s)"
      using new event_ofD(1) [OF assms(7)] by (auto simp: same_state_def split: if_splits)
    obtain db2 where "durable (n_db s') \<in> {durable db2, table_rows E db2}"
      "case res of None \<Rightarrow> not_handled Q x db1 db2 | Some r \<Rightarrow> handled Q x r db1 db2"
      using out True by blast
    then have "durable (n_db s') = T"
      using True T(2) T' d1 by (auto simp: not_handled_def handled_def split: option.splits)
    with T(3) True show ?thesis
      by (auto simp: same_state_def)
  next
    case False
    then obtain r where "err = None" and r: "res = Some r"
      using assms(4-6,9) by (auto simp: commits_def should_commit_offset_def split: if_splits option.splits)
    then obtain db2 where db2: "durable (n_db s') = table_rows E db2" "handled Q x r db1 db2"
      using out by auto
    obtain y where y: "y \<in># T" "row_of Q m y" "event_id y = event_id x"
      using T(3) by (auto simp: same_state_def)
    obtain trans: "transactional E P durable" and calls: "rn_calls Q = postgres_inbox E py_str L R"
      using assms(1) by (auto simp: inbox_runner_def)
    have "\<exists>r\<in>#table_rows E db2. event_id r = event_id x \<and> status r = COMPLETED \<and> same_key e r"
      using y T(1,2) assms(2) row_of_key [OF assms(7)]
      by (intro transactional.handled_completes [OF trans calls db2(2), of y]) (auto simp: handler_stays_def)
    then show ?thesis
      using db2(1) row_of_key [OF assms(7)] by simp
  qed
qed

lemma committed_row:
  assumes "inbox_runner E P durable py_str L R Q" and "handler_stays E durable Q" and "unique_ids (durable (n_db s))"
    and "rn_ack_strategy Q = EXACTLY_ONCE_INBOX" and "\<not> rn_commit_on_failed Q" and "rn_handler Q \<noteq> None"
    and "rn_getone Q (n_broker s) = (Inr m, b)" and "process_one Q s = (Inr result, s')" and "cr_committed result"
  shows "\<exists>r\<in>#durable (n_db s'). cr_event_id result = Some (event_id r) \<and> status r = COMPLETED \<and> row_of Q m r"
proof -
  obtain s1 s2 where s1: "n_db s1 = n_db s" "n_db s' = n_db s2"
    and run: "process_message Q m (handle_of m) s1 = (Inr result, s2)"
    using process_one_Inr [OF assms(7,8)] by metis
  from run obtain e x res err t s3 s4 where e: "event_of Q m e" and s3: "n_db s3 = n_db s1" "n_db s2 = n_db s4"
    and tx: "process_in_transaction Q e s3 = (Inr (Some x, res, err, t), s4)"
    and x: "cr_event_id result = Some (event_id x)" and c: "cr_committed result \<longleftrightarrow> commits Q x res err"
    by (rule process_message_Inr)
  have "unique_ids (durable (n_db s3))"
    using assms(3) s1 s3 by simp
  from committed_tx [OF assms(1,2) this assms(4-6) e tx] c assms(9)
  obtain r where "r \<in># durable (n_db s')" "event_id r = event_id x" "status r = COMPLETED" "row_of Q m r"
    using s1(2) s3(2) by auto
  with x show ?thesis
    by (intro bexI [of _ r]) simp_all
qed

text \<open>\<open>EXACTLY_ONCE_INBOX\<close> without \<open>exactly_once_commit_on_failed\<close>: when the runner commits a message to
  the broker, the database has committed a completed row of this message for this consumer group, the one
  the result names; so no message is committed whose handling was rolled back, deferred or not begun,
  whatever the handler returns or raises and whatever fails in the transaction.\<close>

theorem committed_is_completed:
  assumes "inbox_runner E P durable py_str L R Q" and "handler_stays E durable Q" and "unique_ids (durable (n_db s))"
    and "rn_ack_strategy Q = EXACTLY_ONCE_INBOX" and "\<not> rn_commit_on_failed Q" and "rn_handler Q \<noteq> None"
    and "rn_getone Q (n_broker s) = (Inr m, b)" and "process_one Q s = (Inr result, s')" and "cr_committed result"
  shows "\<exists>r\<in>#durable (n_db s'). cr_event_id result = Some (event_id r) \<and> status r = COMPLETED \<and>
    message_id r = strip (msg_message_id m) \<and> consumer_group r = strip (rn_consumer_group Q)"
  using committed_row [OF assms] by (auto simp: row_of_def)

section \<open>Handled once\<close>

lemma body_same:
  assumes "\<And>x db. ic_create (rn_calls Q) e (n_db s) = (Inr x, db) \<Longrightarrow> status x = COMPLETED"
  shows "transaction_body (Q\<lparr>rn_handler := h'\<rparr>) e s = transaction_body Q e s"
  using assms
  by (auto simp: transaction_body_def andthen_def on_node_db_def assign_def split: prod.split sum.split option.split)

lemma transaction_same:
  assumes "\<And>db0 x db1. tx_enter (rn_provider Q) (n_db s) = (Inr (), db0) \<Longrightarrow>
      ic_create (rn_calls Q) e db0 = (Inr x, db1) \<Longrightarrow> status x = COMPLETED"
  shows "process_in_transaction (Q\<lparr>rn_handler := h'\<rparr>) e s = process_in_transaction Q e s"
proof -
  have "async_with (on_node_db (tx_enter (rn_provider Q))) (\<lambda>err. on_node_db (tx_leave (rn_provider Q) err))
        (transaction_body (Q\<lparr>rn_handler := h'\<rparr>) e) f =
      async_with (on_node_db (tx_enter (rn_provider Q))) (\<lambda>err. on_node_db (tx_leave (rn_provider Q) err))
        (transaction_body Q e) f" if "n_db f = n_db s" for f :: "('a, 'b) frame"
  proof -
    obtain r0 db0 where enter: "tx_enter (rn_provider Q) (n_db f) = (r0, db0)"
      by fastforce
    show ?thesis
    proof (cases r0)
      case (Inr u)
      then have "transaction_body (Q\<lparr>rn_handler := h'\<rparr>) e (f\<lparr>n_db := db0\<rparr>) = transaction_body Q e (f\<lparr>n_db := db0\<rparr>)"
        using assms enter that by (intro body_same) simp
      with enter Inr show ?thesis
        by (simp add: async_with_def andthen_def on_node_db_def)
    qed (simp add: async_with_def andthen_def on_node_db_def enter)
  qed
  then show ?thesis
    by (simp add: process_in_transaction_def noting_error_def catch_def node.defs)
qed

lemma andthen_cong:
  "(\<And>a s'. m s = (Inr a, s') \<Longrightarrow> k a s' = k' a s') \<Longrightarrow> andthen m k s = andthen m k' s"
  by (auto simp: andthen_def split: prod.split sum.split)

lemma report_free: "report (Q\<lparr>rn_handler := h'\<rparr>) = report Q"
  by (simp add: fun_eq_iff report_def)

lemma handler_free:
  "commit_if (Q\<lparr>rn_handler := h'\<rparr>) = commit_if Q" "create_event (Q\<lparr>rn_handler := h'\<rparr>) = create_event Q"
  "handle_duplicate (Q\<lparr>rn_handler := h'\<rparr>) = handle_duplicate Q"
  "rn_ack_strategy (Q\<lparr>rn_handler := h'\<rparr>) = rn_ack_strategy Q" "rn_getone (Q\<lparr>rn_handler := h'\<rparr>) = rn_getone Q"
proof -
  have metrics: "commit_with_metrics (Q\<lparr>rn_handler := h'\<rparr>) = commit_with_metrics Q"
    unfolding commit_with_metrics_def [abs_def] report_free ..
  show commit: "commit_if (Q\<lparr>rn_handler := h'\<rparr>) = commit_if Q"
    unfolding commit_if_def [abs_def] metrics ..
  show "handle_duplicate (Q\<lparr>rn_handler := h'\<rparr>) = handle_duplicate Q"
    unfolding handle_duplicate_def [abs_def] report_free commit ..
qed (simp_all add: fun_eq_iff create_event_def message_event_def)

lemma process_message_same:
  assumes "\<And>e db0 x db1. event_of Q m e \<Longrightarrow> tx_enter (rn_provider Q) (n_db s) = (Inr (), db0) \<Longrightarrow>
      ic_create (rn_calls Q) e db0 = (Inr x, db1) \<Longrightarrow> status x = COMPLETED"
  shows "process_message (Q\<lparr>rn_handler := h'\<rparr>) m h s = process_message Q m h s"
proof -
  let ?Q = "Q\<lparr>rn_handler := h'\<rparr>"
  let ?rest = "\<lambda>c Q. (\<lambda>(stored, result, error, started_at).
     case stored of
       None \<Rightarrow> throw (InboxPersistError (msg_message_id m) error)
     | Some stored \<Rightarrow>
         if status stored = COMPLETED then handle_duplicate Q m stored h c
         else if error \<noteq> None then handle_handler_error Q m stored started_at h c
         else andthen (case result of
                None \<Rightarrow> ret ()
              | Some r \<Rightarrow> update_metrics_after_handler Q (msg_event_type m) r started_at) (\<lambda>_.
           andthen (commit_if Q h (should_commit_offset Q result c) c) (\<lambda>committed.
           ret \<lparr>cr_message_id = msg_message_id m, cr_event_id = Some (event_id stored),
             cr_committed = committed,
             cr_processed = (case result of None \<Rightarrow> False | Some r \<Rightarrow> res_processed r),
             cr_duplicate = False\<rparr>)))"
  have rest: "andthen (process_in_transaction ?Q e) (?rest c ?Q) s3 = andthen (process_in_transaction Q e) (?rest c Q) s3"
    if e: "event_of Q m e" and s3: "n_db s3 = n_db s" for c e s3
  proof -
    have "andthen (process_in_transaction ?Q e) (?rest c ?Q) s3 = andthen (process_in_transaction Q e) (?rest c ?Q) s3"
      using transaction_same [of Q s3 e h'] assms [OF e] s3 by (simp add: andthen_def)
    also have "\<dots> = andthen (process_in_transaction Q e) (?rest c Q) s3"
    proof (rule andthen_cong)
      fix a s4
      assume run: "process_in_transaction Q e s3 = (Inr a, s4)"
      obtain stored res err t where a: "a = (stored, res, err, t)"
        by (cases a)
      show "?rest c ?Q a s4 = ?rest c Q a s4"
      proof (cases stored)
        case (Some x)
        have "status x = COMPLETED"
          using run [unfolded a Some] assms [OF e] s3 by (elim process_in_transaction_cases) simp
        with a Some show ?thesis
          by (simp add: handler_free)
      qed (simp add: a)
    qed
    finally show ?thesis .
  qed
  have "process_message ?Q m h s = andthen (commit_if Q h (rn_ack_strategy Q = AT_MOST_ONCE) False) (\<lambda>c.
      andthen (create_event Q m) (\<lambda>e. andthen (process_in_transaction ?Q e) (?rest c ?Q))) s"
    by (simp only: process_message_def handler_free)
  also have "\<dots> = process_message Q m h s"
    unfolding process_message_def
  proof (rule andthen_cong, rule andthen_cong)
    fix c s2 e s3
    assume first: "commit_if Q h (rn_ack_strategy Q = AT_MOST_ONCE) False s = (Inr c, s2)"
      and ev: "create_event Q m s2 = (Inr e, s3)"
    have "n_db s3 = n_db s"
      using keepsD [OF keeps_db_calls(2) first] keepsD [OF keeps_db_calls(1) ev] by simp
    with ev show "andthen (process_in_transaction ?Q e) (?rest c ?Q) s3 =
        andthen (process_in_transaction Q e) (?rest c Q) s3"
      by (intro rest) (auto dest: create_event_Inr)
  qed
  finally show ?thesis .
qed

lemma done_created:
  assumes Q: "inbox_runner E P durable py_str L R Q" and u: "unique_ids (durable db)" and e: "event_of Q m e"
    and there: "\<exists>r\<in>#durable db. row_of Q m r" and all: "\<forall>r\<in>#durable db. row_of Q m r \<longrightarrow> status r = COMPLETED"
    and enter: "tx_enter (rn_provider Q) db = (Inr (), db0)" and c: "ic_create (rn_calls Q) e db0 = (Inr x, db1)"
  shows "status x = COMPLETED"
proof -
  obtain part ii im bs em suffix skew where trans: "transactional E P durable" and P: "rn_provider Q = P"
    and calls: "rn_calls Q = postgres_inbox E py_str L R"
    and R: "PostgresInboxRepository_init part ii im bs em suffix skew = Inr R"
    using Q by (auto simp: inbox_runner_def)
  have d0: "table_rows E db0 = durable db"
    using transactional.enter_law [OF trans] enter P by simp
  have "create E py_str L R e db0 = (Inr x, db1)"
    using c calls by (simp add: postgres_inbox_def)
  then have "\<exists>r\<in>#durable db. row_of Q m r \<and> same_state x r"
    using transactional.created_row [OF trans R event_ofD(3,1) [OF e], of py_str L db0 x db1] d0 u there
      row_of_key [OF e] by auto
  with all show ?thesis
    by (auto simp: same_state_def)
qed

lemma done_committed:
  assumes Q: "inbox_runner E P durable py_str L R Q" and u: "unique_ids (durable (n_db s))"
    and e: "event_of Q m e" and there: "\<exists>r\<in>#durable (n_db s). row_of Q m r"
    and run: "process_in_transaction Q e s = (Inr (Some x, res, err, t), s')" and x: "status x = COMPLETED"
  shows "durable (n_db s') = durable (n_db s)"
proof -
  from message_transaction [OF Q u e run] obtain T db1 db2 where "T = table_rows E db1" "T = durable (n_db s)"
    "durable (n_db s') \<in> {durable db2, table_rows E db2}" "durable db1 = durable (n_db s)"
    "case res of None \<Rightarrow> not_handled Q x db1 db2 | Some r \<Rightarrow> handled Q x r db1 db2"
    using there x by metis
  with x show ?thesis
    by (auto simp: not_handled_def handled_def split: option.splits)
qed

text \<open>C13. A message whose row is completed is not handled again: the outcome of the call, its effect on the
  database and on the broker included, is the same whatever handler is configured, and when the call
  returns it has committed the message as a duplicate and left the committed table as it was. This holds
  for every strategy.\<close>

theorem done_message_not_handled:
  assumes "inbox_runner E P durable py_str L R Q" and "unique_ids (durable (n_db s))"
    and "rn_getone Q (n_broker s) = (Inr m, b)"
    and "\<exists>r\<in>#durable (n_db s). row_of Q m r" and "\<forall>r\<in>#durable (n_db s). row_of Q m r \<longrightarrow> status r = COMPLETED"
  shows "process_one (Q\<lparr>rn_handler := h'\<rparr>) s = process_one Q s \<and>
    (\<forall>result s'. process_one Q s = (Inr result, s') \<longrightarrow>
      cr_committed result \<and> cr_duplicate result \<and> durable (n_db s') = durable (n_db s))"
proof (intro conjI allI impI)
  have created: "status x = COMPLETED" if "event_of Q m e" "tx_enter (rn_provider Q) (n_db s) = (Inr (), db0)"
    "ic_create (rn_calls Q) e db0 = (Inr x, db1)" for e db0 x db1
    using done_created [OF assms(1,2) that(1) assms(4,5) that(2,3)] .
  have same: "process_message (Q\<lparr>rn_handler := h'\<rparr>) m h s1 = process_message Q m h s1" if "n_db s1 = n_db s" for h s1
    using created that by (intro process_message_same) metis
  show "process_one (Q\<lparr>rn_handler := h'\<rparr>) s = process_one Q s"
    unfolding process_one_def report_free handler_free
  proof (rule andthen_cong, rule andthen_cong)
    fix a s1 u s2
    assume get: "on_broker (rn_getone Q) s = (Inr a, s1)" and rep: "report Q IncConsumed s1 = (Inr u, s2)"
    have "a = m"
      using get assms(3) by (simp add: on_broker_def)
    moreover have "n_db s2 = n_db s"
      using keepsD [OF keeps_db(5) get] keepsD [OF keeps_db(4) rep] by simp
    ultimately have "process_message (Q\<lparr>rn_handler := h'\<rparr>) a (handle_of a) s2 = process_message Q a (handle_of a) s2"
      using same by simp
    then show "andthen (catch (process_message (Q\<lparr>rn_handler := h'\<rparr>) a (handle_of a))
          (\<lambda>err. andthen (rewind (handle_of a)) (\<lambda>_. throw err)))
        (\<lambda>result. andthen (if cr_committed result then ret () else rewind (handle_of a)) (\<lambda>_. ret result)) s2 =
      andthen (catch (process_message Q a (handle_of a))
          (\<lambda>err. andthen (rewind (handle_of a)) (\<lambda>_. throw err)))
        (\<lambda>result. andthen (if cr_committed result then ret () else rewind (handle_of a)) (\<lambda>_. ret result)) s2"
      by (simp add: andthen_def [of "catch _ _"] catch_def)
  qed
next
  fix result s'
  assume "process_one Q s = (Inr result, s')"
  then obtain s1 s2 where s1: "n_db s1 = n_db s" "n_db s' = n_db s2"
    and run: "process_message Q m (handle_of m) s1 = (Inr result, s2)"
    using process_one_Inr [OF assms(3)] by metis
  from run obtain e x res err t s3 s4 where e: "event_of Q m e" and s3: "n_db s3 = n_db s1" "n_db s2 = n_db s4"
    and tx: "process_in_transaction Q e s3 = (Inr (Some x, res, err, t), s4)"
    and dup: "cr_duplicate result \<longleftrightarrow> status x = COMPLETED" and c: "cr_committed result \<longleftrightarrow> commits Q x res err"
    by (rule process_message_Inr)
  have x: "status x = COMPLETED"
    using tx s3 s1 done_created [OF assms(1,2) e assms(4,5)] by (elim process_in_transaction_cases) simp
  with c dup show "cr_committed result" and "cr_duplicate result"
    by (simp_all add: commits_def)
  show "durable (n_db s') = durable (n_db s)"
    using done_committed [OF assms(1) _ e _ tx x] assms(2,4) s1 s3 by simp
qed

section \<open>Committed and lost\<close>

text \<open>A handler that raises or returns a failure on every event.\<close>

definition failing :: "('db, 'e) handler \<Rightarrow> bool" where
  "failing h \<longleftrightarrow> (\<forall>x db. case fst (h x db) of
     Inl err \<Rightarrow> True
   | Inr raw \<Rightarrow> res_processed (coerce_handler_outcome raw) \<and> \<not> res_success (coerce_handler_outcome raw))"

text \<open>C15. \<open>AT_LEAST_ONCE\<close> with \<open>ON_PERSIST\<close> loses messages: when the handler fails, on a message that is
  new to the inbox, the runner commits the message to the broker, and the row it had persisted has been
  rolled back with the handler's writes. Nothing of the message is left: no later delivery, no row for
  the batch processor.\<close>

theorem on_persist_loses_message:
  assumes "inbox_runner E P durable py_str L R Q" and "handler_stays E durable Q" and "unique_ids (durable (n_db s))"
    and "rn_ack_strategy Q = AT_LEAST_ONCE" and "rn_commit_offset_policy Q = ON_PERSIST"
    and "rn_handler Q = Some h" and "failing h"
    and "rn_getone Q (n_broker s) = (Inr m, b)" and "\<not> (\<exists>r\<in>#durable (n_db s). row_of Q m r)"
    and "process_one Q s = (Inr result, s')"
  shows "cr_committed result \<and> durable (n_db s') = durable (n_db s) \<and> \<not> (\<exists>r\<in>#durable (n_db s'). row_of Q m r)"
proof -
  obtain s1 s2 where s1: "n_db s1 = n_db s" "n_db s' = n_db s2"
    and run: "process_message Q m (handle_of m) s1 = (Inr result, s2)"
    using process_one_Inr [OF assms(8,10)] by metis
  from run obtain e x res err t s3 s4 where e: "event_of Q m e" and s3: "n_db s3 = n_db s1" "n_db s2 = n_db s4"
    and tx: "process_in_transaction Q e s3 = (Inr (Some x, res, err, t), s4)"
    and c: "cr_committed result \<longleftrightarrow> commits Q x res err"
    by (rule process_message_Inr)
  have u: "unique_ids (durable (n_db s3))" and new: "\<not> (\<exists>r\<in>#durable (n_db s3). row_of Q m r)"
    using assms(3,9) s1 s3 by simp_all
  obtain trans: "transactional E P durable" and calls: "rn_calls Q = postgres_inbox E py_str L R"
    using assms(1) by (auto simp: inbox_runner_def)
  obtain T db1 where T: "unique_ids T" "T = table_rows E db1" "T = add_mset e (durable (n_db s3))" "same_state x e"
    and out: "(\<exists>db2. durable (n_db s4) \<in> {durable db2, table_rows E db2} \<and>
        (err = None \<longrightarrow> durable (n_db s4) = table_rows E db2) \<and>
        (case res of None \<Rightarrow> not_handled Q x db1 db2 | Some r \<Rightarrow> handled Q x r db1 db2)) \<or>
      (err \<noteq> None \<and> status x \<noteq> COMPLETED \<and>
        (handler_stays E durable Q \<longrightarrow> durable (n_db s4) = durable (n_db s3)))"
    by (rule message_transaction [OF assms(1) u e tx]) (use new in simp)
  have x: "status x = PENDING" "locked_at e = None" "status e = PENDING" "event_id x = event_id e"
    using T(4) event_ofD [OF e] by (simp_all add: same_state_def)
  have "\<not> not_handled Q x db1 db2" for db2
  proof
    assume "not_handled Q x db1 db2"
    then have "mark_processing E (event_id x) (rn_worker_id Q) db1 = (Inr False, db2)"
      using assms(6) x calls by (simp add: not_handled_def postgres_inbox_def)
    then have "\<not> (\<exists>r\<in>#T. event_id r = event_id x \<and> status r = PENDING \<and> locked_at r = None)"
      using transactional.mark_processing_outcome [OF trans] T(1,2) by blast
    then show False
      using T(3) x by simp
  qed
  moreover have "\<not> handled Q x r db1 db2" for r db2
  proof
    assume "handled Q x r db1 db2"
    then obtain d raw d' where "res_processed r \<longrightarrow> res_success r" "r = coerce_handler_outcome raw" "h x d = (Inr raw, d')"
      using assms(6) by (auto simp: handled_def)
    moreover have "case fst (h x d) of Inl err \<Rightarrow> True
        | Inr raw \<Rightarrow> res_processed (coerce_handler_outcome raw) \<and> \<not> res_success (coerce_handler_outcome raw)"
      using assms(7) by (simp add: failing_def)
    ultimately show False by simp
  qed
  ultimately have "err \<noteq> None \<and> durable (n_db s4) = durable (n_db s3)"
    using out assms(2) by (auto split: option.splits)
  with c assms(4,5) s1 s3 new show ?thesis
    by (simp add: commits_def)
qed

section \<open>Concrete runs\<close>

lemma sample_inbox_runner:
  "inbox_runner (session_engine list_engine) session_provider (\<lambda>db. table_rows list_engine (fst db)) (\<lambda>_. [])
     sample_libs sample_inbox_repository (sample_runner strategy policy h)"
  unfolding inbox_runner_def using list_session.transactional_axioms sample_inbox_repository_init by simp blast

lemma sample_stays: "(\<And>x db. snd (h x db) = db) \<Longrightarrow>
    handler_stays (session_engine list_engine) (\<lambda>db. table_rows list_engine (fst db)) (sample_runner strategy policy h)"
  by (simp add: handler_stays_def)

lemma sample_committed_table: "table_rows list_engine (fst (sample_table rows, d)) = mset rows"
  by (simp add: list_engine_def)

theorem committed_is_completed_witness:
  "\<exists>s' r. process_one (sample_runner EXACTLY_ONCE_INBOX ON_PERSIST (\<lambda>_. ret None)) (sample_node []) =
     (Inr (sample_outcome (lit ''m'') True True), s') \<and> r \<in># table_rows list_engine (fst (n_db s')) \<and> status r = COMPLETED"
proof -
  let ?Q = "sample_runner EXACTLY_ONCE_INBOX ON_PERSIST (\<lambda>_. ret None)"
  obtain s' where run: "process_one ?Q (sample_node []) = (Inr (sample_outcome (lit ''m'') True True), s')"
    using sample_exactly_once by blast
  have "unique_ids (table_rows list_engine (fst (n_db (sample_node []))))"
    by (simp add: node_with_def list_engine_def unique_ids_def)
  then show ?thesis
    using committed_is_completed [OF sample_inbox_runner sample_stays _ _ _ _ _ run, of sample_message "[]"] run
    by (auto simp: node_with_def sample_outcome_def)
qed

theorem on_persist_loses_message_witness:
  "\<exists>s'. process_one (sample_runner AT_LEAST_ONCE ON_PERSIST (\<lambda>_. throw RuntimeError)) (sample_node []) =
     (Inr (sample_outcome (lit ''m'') True False), s') \<and> n_broker s' = [1] \<and> table_rows list_engine (fst (n_db s')) = {#}"
proof -
  let ?Q = "sample_runner AT_LEAST_ONCE ON_PERSIST (\<lambda>_. throw RuntimeError)"
  obtain s' where run: "process_one ?Q (sample_node []) = (Inr (sample_outcome (lit ''m'') True False), s')" "n_broker s' = [1]"
    using sample_lost by blast
  have e: "table_rows list_engine (fst (n_db (sample_node []))) = {#}"
    by (simp add: node_with_def list_engine_def)
  have "table_rows list_engine (fst (n_db s')) = table_rows list_engine (fst (n_db (sample_node [])))"
    using on_persist_loses_message [OF sample_inbox_runner sample_stays _ _ _ _ _ _ _ run(1),
        where h = "\<lambda>_. throw RuntimeError" and m = sample_message and b = "[]"] e
    by (simp add: node_with_def failing_def unique_ids_def)
  with run e show ?thesis by auto
qed

definition sample_done_row :: inbox_event where
  "sample_done_row = finished sample_inbox_event"

theorem done_message_not_handled_witness:
  "process_one (sample_runner EXACTLY_ONCE_INBOX ON_PERSIST (\<lambda>_. throw RuntimeError)) (sample_node [sample_done_row]) =
   process_one (sample_runner EXACTLY_ONCE_INBOX ON_PERSIST (\<lambda>_. ret None)) (sample_node [sample_done_row])"
proof -
  let ?Q = "sample_runner EXACTLY_ONCE_INBOX ON_PERSIST (\<lambda>_. ret None)"
  have e: "table_rows list_engine (fst (n_db (sample_node [sample_done_row]))) = {#sample_done_row#}"
    by (simp add: node_with_def list_engine_def)
  have k: "row_of ?Q sample_message sample_done_row" "status sample_done_row = COMPLETED"
    by (simp_all add: row_of_def sample_done_row_def completed_row_def taken_def sample_inbox_event_def
        strip_def lit_def py_space_def)
  have "sample_runner EXACTLY_ONCE_INBOX ON_PERSIST (\<lambda>_. throw RuntimeError) = ?Q\<lparr>rn_handler := Some (\<lambda>_. throw RuntimeError)\<rparr>"
    by (simp add: runner_reading_def)
  moreover have "rn_getone ?Q (n_broker (sample_node [sample_done_row])) = (Inr sample_message, [])"
    by (simp add: node_with_def)
  ultimately show ?thesis
    using done_message_not_handled [OF sample_inbox_runner _ _ _ _, of "sample_node [sample_done_row]"
        EXACTLY_ONCE_INBOX ON_PERSIST "\<lambda>_. ret None" sample_message "[]"] e k
    by (simp add: unique_ids_def)
qed

theorem message_committed_or_rewound_witness:
  "(\<exists>s'. process_one (sample_runner EXACTLY_ONCE_INBOX ON_PERSIST (\<lambda>_. ret None)) (sample_node []) =
     (Inr (sample_outcome (lit ''m'') True True), s') \<and> n_broker s' = [1]) \<and>
   (\<exists>s'. process_one ((sample_runner EXACTLY_ONCE_INBOX ON_PERSIST (\<lambda>_. ret None))\<lparr>rn_refuses := \<lambda>_. Some RuntimeError\<rparr>)
     (sample_node []) = (Inl RuntimeError, s') \<and> n_broker s' = [])"
proof (intro conjI)
  let ?Q = "sample_runner EXACTLY_ONCE_INBOX ON_PERSIST (\<lambda>_. ret None)"
  let ?Q' = "?Q\<lparr>rn_refuses := \<lambda>_. Some RuntimeError\<rparr>"
  obtain s' where run: "process_one ?Q (sample_node []) = (Inr (sample_outcome (lit ''m'') True True), s')"
    using sample_exactly_once by blast
  have read: "rn_getone ?Q (n_broker (sample_node [])) = (Inr sample_message, [])"
    by (simp add: node_with_def)
  with message_committed_or_rewound [OF _ run, of sample_message "[]"] run show "\<exists>s'. process_one ?Q (sample_node []) =
     (Inr (sample_outcome (lit ''m'') True True), s') \<and> n_broker s' = [1]"
    by (simp add: sample_outcome_def)
  obtain r s2 where run': "process_one ?Q' (sample_node []) = (r, s2)"
    by fastforce
  have "rn_getone ?Q' (n_broker (sample_node [])) = (Inr sample_message, [])"
    using read by simp
  from message_committed_or_rewound [OF this run'] run'
  show "\<exists>s'. process_one ?Q' (sample_node []) = (Inl RuntimeError, s') \<and> n_broker s' = []"
    by simp
qed

text \<open>A broker that never answers.\<close>

definition idle_runner :: "(unit, unit) runner" where
  "idle_runner = \<lparr>rn_getone = throw RuntimeError, rn_start = ret (), rn_stop = ret (),
     rn_provider = \<lparr>tx_enter = ret (), tx_leave = (\<lambda>_. ret ())\<rparr>,
     rn_calls = \<lparr>ic_create = ret, ic_mark_processing = (\<lambda>_ _. ret False), ic_mark_completed = (\<lambda>_ _. ret ())\<rparr>,
     rn_handler = None, rn_worker_id = lit ''w'', rn_consumer_group = lit ''g'', rn_libs = sample_libs,
     rn_service = default_service, rn_ack_strategy = AT_LEAST_ONCE, rn_commit_offset_policy = ON_SUCCESS,
     rn_commit_on_failed = False, rn_refuses = (\<lambda>_. None)\<rparr>"

definition idle_node :: "(unit, unit) node" where
  "idle_node = \<lparr>n_db = (), n_broker = (), n_uuids = (\<lambda>_. UUID 0), n_times = (\<lambda>_. 0), n_perf = (\<lambda>_. 0),
     n_log = [], n_started = True, n_stops = (\<lambda>k. 2 \<le> k), n_sleeps = []\<rparr>"

lemma idle_fails: "process_one idle_runner s = (Inl RuntimeError, s)"
  by (simp add: process_one_def andthen_def on_broker_def idle_runner_def)

theorem run_forever_stops_witness:
  "fst (run_forever idle_runner 3 idle_node) = Inr True"
  by (rule run_forever_stops [of _ 2]) (auto simp: idle_node_def idle_fails)

theorem run_forever_delays_witness:
  "\<exists>r s'. run_forever idle_runner 3 idle_node = (r, s') \<and> (\<forall>d\<in>set (n_sleeps s'). d \<le> 5)"
proof -
  obtain r s' where run: "run_forever idle_runner 3 idle_node = (r, s')"
    by fastforce
  from run_forever_delays [OF run] run show ?thesis
    by (auto simp: idle_node_def)
qed

end
