(* ===== verification/Dicts.thy ===== *)
theory Dicts
  imports Prelude
begin

text \<open>Assignment to a Python dictionary, an association list in the order of insertion.\<close>

text \<open>\<open>d[k] = v\<close>: a new key goes to the end, an old one keeps its place.\<close>

fun dict_set :: "'k \<Rightarrow> 'v \<Rightarrow> ('k \<times> 'v) list \<Rightarrow> ('k \<times> 'v) list" where
  "dict_set k v [] = [(k, v)]"
| "dict_set k v ((k', v') # d) = (if k' = k then (k, v) # d else (k', v') # dict_set k v d)"

lemma map_of_dict_set [simp]: "map_of (dict_set k v d) = (map_of d)(k \<mapsto> v)"
  by (induction d) auto

lemma dict_set_keys: "fst ` set (dict_set k v d) = insert k (fst ` set d)"
  by (simp add: dom_map_of_conv_image_fst [symmetric])

lemma dict_set_distinct: "distinct (map fst d) \<Longrightarrow> distinct (map fst (dict_set k v d))"
proof (induction d)
  case (Cons kv d)
  then show ?case
    using dict_set_keys [of k v d] by (cases kv) auto
qed simp

lemma dict_set_not_Nil [simp]: "dict_set k v d \<noteq> []"
  by (cases "(k, v, d)" rule: dict_set.cases) auto

text \<open>\<open>d.setdefault(k, v)\<close>, then a change of what is there.\<close>

definition dict_update :: "'v \<Rightarrow> 'k \<Rightarrow> ('v \<Rightarrow> 'v) \<Rightarrow> ('k \<times> 'v) list \<Rightarrow> ('k \<times> 'v) list" where
  "dict_update v k f d = dict_set k (f (case map_of d k of None \<Rightarrow> v | Some x \<Rightarrow> x)) d"

lemma map_of_dict_update [simp]:
  "map_of (dict_update v k f d) = (map_of d)(k \<mapsto> f (case map_of d k of None \<Rightarrow> v | Some x \<Rightarrow> x))"
  by (simp add: dict_update_def)

lemma set_dict_set: "distinct (map fst d) \<Longrightarrow> set (dict_set k v d) = insert (k, v) {kv \<in> set d. fst kv \<noteq> k}"
  by (induction k v d rule: dict_set.induct) force+

end
