(* ===== verification/Kafka.thy ===== *)
theory Kafka
  imports Consumer Dicts
begin

text \<open>
  The Kafka adapters (\<open>infra/brokers/kafka\<close>) and the event converters (\<open>core/converters/event.py\<close>):
  an outbox event becomes a record, a record becomes a consumed message. The aiokafka clients are
  arguments.
\<close>

section \<open>Texts\<close>

text \<open>Python's \<open>a or b\<close> on optional strings.\<close>

definition or_else :: "pystr option \<Rightarrow> pystr option \<Rightarrow> pystr option" where
  "or_else a b = (if truthy a then a else b)"

text \<open>\<open>str\<close> of an integer and of a UUID, decimal digits padded with zeros, \<open>isoformat\<close> of a UTC time.\<close>

fun digits :: "nat \<Rightarrow> nat \<Rightarrow> nat \<Rightarrow> nat list" where
  "digits base 0 n = []"
| "digits base (Suc k) n = digits base k (n div base) @ [n mod base]"

lemma digits_numeral [simp]:
  "digits base (numeral k) n = digits base (pred_numeral k) (n div base) @ [n mod base]"
  by (simp add: numeral_eq_Suc)

function decimal_digits :: "nat \<Rightarrow> nat list" where
  "decimal_digits n = (if n < 10 then [n] else decimal_digits (n div 10) @ [n mod 10])"
  by pat_completeness auto
termination
  by (relation "measure id") auto

declare decimal_digits.simps [simp del]

definition int_str :: "int \<Rightarrow> pystr" where
  "int_str i = (if i < 0 then [45] else []) @ map (\<lambda>d. 48 + d) (decimal_digits (nat \<bar>i\<bar>))"

definition padded :: "nat \<Rightarrow> int \<Rightarrow> pystr" where
  "padded k i = map (\<lambda>d. 48 + d) (digits 10 k (nat i))"

definition hex_digit :: "nat \<Rightarrow> nat" where
  "hex_digit d = (if d < 10 then 48 + d else 87 + d)"

definition uuid_str :: "uuid \<Rightarrow> pystr" where
  "uuid_str u = (let h = map hex_digit (digits 16 32 (unat (uuid_int u))) in
     take 8 h @ [45] @ take 4 (drop 8 h) @ [45] @ take 4 (drop 12 h) @ [45] @ take 4 (drop 16 h) @ [45] @ drop 20 h)"

text \<open>The proleptic Gregorian date of a day, counted from 1970-01-01.\<close>

definition civil_date :: "int \<Rightarrow> int \<times> int \<times> int" where
  "civil_date days =
     (let z = days + 719468; era = z div 146097; doe = z mod 146097;
          yoe = (doe - doe div 1460 + doe div 36524 - doe div 146096) div 365;
          doy = doe - (365 * yoe + yoe div 4 - yoe div 100);
          mp = (5 * doy + 2) div 153;
          month = (if mp < 10 then mp + 3 else mp - 9) in
      (yoe + era * 400 + (if month \<le> 2 then 1 else 0), month, doy - (153 * mp + 2) div 5 + 1))"

definition isoformat :: "instant \<Rightarrow> pystr" where
  "isoformat t =
     (let secs = t div us_per_s; us = t mod us_per_s; sod = secs mod 86400;
          (year, month, day) = civil_date (secs div 86400) in
      padded 4 year @ lit ''-'' @ padded 2 month @ lit ''-'' @ padded 2 day @ lit ''T'' @
      padded 2 (sod div 3600) @ lit '':'' @ padded 2 (sod div 60 mod 60) @ lit '':'' @ padded 2 (sod mod 60) @
      (if us = 0 then [] else lit ''.'' @ padded 6 us) @ lit ''+00:00'')"

section \<open>Converters\<close>

fun json_opt :: "pystr option \<Rightarrow> json" where
  "json_opt None = JNull"
| "json_opt (Some s) = JStr s"

definition raw_converter :: "outbox_event \<Rightarrow> jdict" where
  "raw_converter e = payload e"

definition schema_versioned_converter :: "outbox_event \<Rightarrow> jdict" where
  "schema_versioned_converter e =
     [(lit ''schema_version'', json_opt (schema_version e)), (lit ''payload'', JObj (payload e))]"

definition add_text :: "string \<Rightarrow> pystr option \<Rightarrow> jdict \<Rightarrow> jdict" where
  "add_text k x d = (case x of None \<Rightarrow> d | Some s \<Rightarrow> d @ [(lit k, JStr s)])"

definition envelope_converter :: "pystr \<Rightarrow> outbox_event \<Rightarrow> jdict" where
  "envelope_converter default_schema_version e =
     add_text ''causation_id'' (causation_id e) (add_text ''correlation_id'' (correlation_id e)
       (add_text ''trace_id'' (trace_id e)
         [(lit ''schema_version'', JStr (text_or (schema_version e) default_schema_version)),
          (lit ''event_type'', JStr (event_type e)), (lit ''aggregate_type'', JStr (aggregate_type e)),
          (lit ''aggregate_id'', JStr (uuid_str (aggregate_id e))), (lit ''payload'', JObj (payload e)),
          (lit ''timestamp'', JStr (isoformat (created_at e)))]))"

section \<open>Publishing\<close>

text \<open>The aiokafka producer: \<open>send_and_wait(topic, value, key, headers)\<close> and \<open>client.force_metadata_update()\<close>.\<close>

record 'p producer_client =
  send_and_wait :: "pystr \<Rightarrow> nat list \<Rightarrow> nat list option \<Rightarrow> (pystr \<times> nat list) list \<Rightarrow> ('p, unit) act"
  force_metadata_update :: "('p, bool) act"

record 'p kafka_publisher =
  kp_client :: "'p producer_client"
  kp_convert :: "outbox_event \<Rightarrow> jdict"
  kp_max_infra_retries :: int
  kp_libs :: libs
  kp_repr :: "pystr \<Rightarrow> pystr"

text \<open>The producer, the random numbers to come and the delays slept.\<close>

record 'p publisher_state =
  ps_producer :: 'p
  ps_random :: "nat \<Rightarrow> rat"
  ps_sleeps :: "rat list"

definition on_producer :: "('p, 'a) act \<Rightarrow> ('p publisher_state, 'a) act" where
  "on_producer m s = (case m (ps_producer s) of (r, p) \<Rightarrow> (r, s\<lparr>ps_producer := p\<rparr>))"

definition BROKER_UNREACHABLE :: "string list" where
  "BROKER_UNREACHABLE =
     [''KafkaConnectionError'', ''KafkaTimeoutError'', ''NodeNotReadyError'', ''RequestTimedOutError'']"

definition starts_with :: "pystr \<Rightarrow> pystr \<Rightarrow> bool" where
  "starts_with p s \<longleftrightarrow> take (length p) s = p"

definition describe :: "pyexn \<Rightarrow> pystr" where
  "describe e =
     (let name = lit (exn_name e); detail = exn_text e in
      if detail = [] \<or> detail = name then name
      else if starts_with (name @ lit '': '') detail then detail
      else name @ lit '': '' @ detail)"

text \<open>Errors of the library itself do not come from the producer; they are neither transient nor about the
  broker.\<close>

definition unreachable_reason :: "'p kafka_publisher \<Rightarrow> error \<Rightarrow> pystr \<Rightarrow> ('p publisher_state, pystr option) act" where
  "unreachable_reason K err topic_name =
     (case err of
        Raised e \<Rightarrow>
          if is_transient (classify e BROKER_UNREACHABLE [])
          then ret (Some (lit ''Kafka broker unreachable: '' @ describe e))
          else if is_instance e ''UnknownTopicOrPartitionError''
          then andthen (on_producer (force_metadata_update (kp_client K))) (\<lambda>answered. ret
            (if answered then None
             else Some (lit ''Kafka broker unreachable: no metadata for topic '' @ kp_repr K topic_name @
               lit '' and no answer to a metadata request'')))
          else ret None
      | _ \<Rightarrow> ret None)"

definition set_truthy :: "string \<Rightarrow> pystr option \<Rightarrow> (pystr \<times> pystr) list \<Rightarrow> (pystr \<times> pystr) list" where
  "set_truthy k x d = (case x of None \<Rightarrow> d | Some s \<Rightarrow> if s = [] then d else dict_set (lit k) s d)"

definition build_headers :: "outbox_event \<Rightarrow> (pystr \<times> pystr) list" where
  "build_headers e =
     set_truthy ''causation_id'' (causation_id e) (set_truthy ''correlation_id'' (correlation_id e)
       (set_truthy ''trace_id'' (trace_id e) (set_truthy ''schema_version'' (schema_version e)
         (dict_set (lit ''event_type'') (event_type e)
           (dict_set (lit ''event_id'') (uuid_str (event_id e)) (get_or (headers e) []))))))"

definition encode_header :: "pystr \<times> pystr \<Rightarrow> (pystr \<times> nat list) res" where
  "encode_header kv = bindr (encode (snd kv)) (\<lambda>b. Inr (fst kv, b))"

definition DEFAULT_BACKOFF_BASE_SECONDS :: rat where "DEFAULT_BACKOFF_BASE_SECONDS = 10"
definition DEFAULT_BACKOFF_CAP_SECONDS :: rat where "DEFAULT_BACKOFF_CAP_SECONDS = 3600"

definition draw :: "('p publisher_state, rat) act" where
  "draw s = (Inr (ps_random s 0), s\<lparr>ps_random := (\<lambda>k. ps_random s (Suc k))\<rparr>)"

definition sleep_for :: "rat \<Rightarrow> ('p publisher_state, unit) act" where
  "sleep_for d s = (Inr (), s\<lparr>ps_sleeps := ps_sleeps s @ [d]\<rparr>)"

text \<open>\<open>for attempt in range(max_infra_retries + 1)\<close>, \<open>k\<close> turns from \<open>attempt\<close> on.\<close>

fun send_attempts :: "'p kafka_publisher \<Rightarrow> pystr \<Rightarrow> ('p, unit) act \<Rightarrow> nat \<Rightarrow> int \<Rightarrow> ('p publisher_state, unit) act" where
  "send_attempts K topic_name send 0 attempt = ret ()"
| "send_attempts K topic_name send (Suc k) attempt =
     catch (on_producer send) (\<lambda>err.
       if \<not> is_exception err then throw err
       else andthen (unreachable_reason K err topic_name) (\<lambda>reason.
         case reason of
           None \<Rightarrow> throw err
         | Some why \<Rightarrow>
             if attempt < kp_max_infra_retries K
             then andthen draw (\<lambda>u.
               andthen (lift_res (calculate_backoff_with_jitter attempt DEFAULT_BACKOFF_BASE_SECONDS
                 DEFAULT_BACKOFF_CAP_SECONDS Full u)) (\<lambda>delay.
               andthen (sleep_for delay) (\<lambda>_. send_attempts K topic_name send k (attempt + 1))))
             else throw (TransientError why)))"

definition publish :: "'p kafka_publisher \<Rightarrow> (outbox_event \<Rightarrow> ('p publisher_state, handler_result option) act)" where
  "publish K e =
     andthen (lift_res (case orjson_dumps (kp_libs K) (kp_convert K e) of
       None \<Rightarrow> Inl TypeError | Some b \<Rightarrow> Inr b)) (\<lambda>value_bytes.
     andthen (lift_res (if partition_key e = [] then Inr None
       else bindr (encode (partition_key e)) (\<lambda>b. Inr (Some b)))) (\<lambda>key_bytes.
     andthen (lift_res (map_res encode_header (build_headers e))) (\<lambda>encoded_headers.
     andthen (send_attempts K (topic e)
       (send_and_wait (kp_client K) (topic e) value_bytes key_bytes encoded_headers)
       (nat (kp_max_infra_retries K + 1)) 0) (\<lambda>_. ret None))))"

section \<open>Consuming\<close>

text \<open>A record; the value is bytes, or what a deserializer of the client made of it.\<close>

datatype record_value = NoValue | ByteValue "nat list" | Deserialized json

record kafka_record =
  kr_topic :: pystr
  kr_partition :: int
  kr_offset :: int
  kr_value :: record_value
  kr_headers :: "(pystr \<times> nat list option) list"

type_synonym topic_partition = "pystr \<times> int"

definition partition_of :: "kafka_record \<Rightarrow> topic_partition" where
  "partition_of r = (kr_topic r, kr_partition r)"

record 'b consumer_client =
  cl_start :: "('b, unit) act"
  cl_stop :: "('b, unit) act"
  cl_getone :: "('b, kafka_record) act"
  cl_commit :: "topic_partition \<Rightarrow> int \<Rightarrow> ('b, unit) act"
  cl_assignment :: "'b \<Rightarrow> topic_partition set"
  cl_seek :: "topic_partition \<Rightarrow> int \<Rightarrow> ('b, unit) act"

definition kafka_handle :: "'b consumer_client \<Rightarrow> kafka_record \<Rightarrow> 'b ack_handle" where
  "kafka_handle c r = \<lparr>
     ack_commit = cl_commit c (partition_of r) (kr_offset r + 1),
     ack_rewind = (\<lambda>b. if partition_of r \<in> cl_assignment c b then cl_seek c (partition_of r) (kr_offset r) b
       else (Inr (), b))\<rparr>"

text \<open>\<open>v.decode("utf-8", errors="replace")\<close> of the headers that have a value.\<close>

fun decode_header_list :: "(pystr \<times> nat list option) list \<Rightarrow> (pystr \<times> pystr) list \<Rightarrow> (pystr \<times> pystr) list" where
  "decode_header_list [] d = d"
| "decode_header_list ((k, None) # hs) d = decode_header_list hs d"
| "decode_header_list ((k, Some v) # hs) d = decode_header_list hs (dict_set k (utf8_decode [65533] v) d)"

definition decode_headers :: "kafka_record \<Rightarrow> (pystr \<times> pystr) list option" where
  "decode_headers r =
     (if kr_headers r = [] then None
      else let d = decode_header_list (kr_headers r) [] in if d = [] then None else Some d)"

definition header :: "(pystr \<times> pystr) list option \<Rightarrow> string \<Rightarrow> pystr option" where
  "header hs k = map_of (get_or hs []) (lit k)"

definition default_payload_loader :: "(nat list \<Rightarrow> json res) \<Rightarrow> kafka_record \<Rightarrow> jdict res" where
  "default_payload_loader loads r =
     bindr (case kr_value r of NoValue \<Rightarrow> Inl ValueError | ByteValue b \<Rightarrow> loads b | Deserialized v \<Rightarrow> Inr v)
       (\<lambda>v. case v of JObj d \<Rightarrow> Inr d | _ \<Rightarrow> Inl TypeError)"

definition default_message_id_getter :: "kafka_record \<Rightarrow> (pystr \<times> pystr) list option \<Rightarrow> pystr" where
  "default_message_id_getter r hs =
     (case or_else (header hs ''message_id'') (header hs ''event_id'') of
        Some (c # cs) \<Rightarrow> c # cs
      | _ \<Rightarrow> kr_topic r @ lit '':'' @ int_str (kr_partition r) @ lit '':'' @ int_str (kr_offset r))"

definition default_event_type_getter :: "kafka_record \<Rightarrow> jdict \<Rightarrow> (pystr \<times> pystr) list option \<Rightarrow> pystr" where
  "default_event_type_getter r body hs =
     (case header hs ''event_type'' of
        Some (c # cs) \<Rightarrow> c # cs
      | _ \<Rightarrow> (case map_of body (lit ''event_type'') of
          Some (JStr s) \<Rightarrow> if strip s \<noteq> [] then s else kr_topic r
        | _ \<Rightarrow> kr_topic r))"

definition default_source_getter :: "kafka_record \<Rightarrow> (pystr \<times> pystr) list option \<Rightarrow> pystr" where
  "default_source_getter r hs =
     (case or_else (header hs ''source'') (header hs ''source_service'') of
        Some (c # cs) \<Rightarrow> c # cs
      | _ \<Rightarrow> kr_topic r)"

record envelope_data =
  env_payload :: json
  env_trace_id :: json
  env_correlation_id :: json
  env_causation_id :: json
  env_schema_version :: json

text \<open>\<open>if not x: x = raw_payload.get(k)\<close>.\<close>

definition header_or :: "pystr option \<Rightarrow> jdict \<Rightarrow> string \<Rightarrow> json" where
  "header_or x raw k = (if truthy x then json_opt x else get_or (map_of raw (lit k)) JNull)"

definition default_parse :: "jdict \<Rightarrow> (pystr \<times> pystr) list option \<Rightarrow> envelope_data" where
  "default_parse raw hs =
     (case map_of raw (lit ''payload'') of
        None \<Rightarrow> \<lparr>env_payload = JObj raw, env_trace_id = json_opt (header hs ''trace_id''),
          env_correlation_id = json_opt (header hs ''correlation_id''),
          env_causation_id = json_opt (header hs ''causation_id''),
          env_schema_version = json_opt (header hs ''schema_version'')\<rparr>
      | Some inner \<Rightarrow> \<lparr>env_payload = inner,
          env_trace_id = header_or (header hs ''trace_id'') raw ''trace_id'',
          env_correlation_id = header_or (header hs ''correlation_id'') raw ''correlation_id'',
          env_causation_id = header_or (header hs ''causation_id'') raw ''causation_id'',
          env_schema_version = header_or (header hs ''schema_version'') raw ''schema_version''\<rparr>)"

record 'b kafka_consumer =
  kc_client :: "'b consumer_client"
  kc_payload_loader :: "kafka_record \<Rightarrow> jdict res"
  kc_message_id_getter :: "kafka_record \<Rightarrow> (pystr \<times> pystr) list option \<Rightarrow> pystr res"
  kc_event_type_getter :: "kafka_record \<Rightarrow> jdict \<Rightarrow> (pystr \<times> pystr) list option \<Rightarrow> pystr res"
  kc_source_getter :: "kafka_record \<Rightarrow> (pystr \<times> pystr) list option \<Rightarrow> pystr res"
  kc_envelope_parser :: "jdict \<Rightarrow> (pystr \<times> pystr) list option \<Rightarrow> envelope_data res"

definition KafkaEventConsumer_init :: "'b consumer_client \<Rightarrow> (nat list \<Rightarrow> json res) \<Rightarrow>
    (kafka_record \<Rightarrow> jdict res) option \<Rightarrow> (kafka_record \<Rightarrow> (pystr \<times> pystr) list option \<Rightarrow> pystr res) option \<Rightarrow>
    (kafka_record \<Rightarrow> jdict \<Rightarrow> (pystr \<times> pystr) list option \<Rightarrow> pystr res) option \<Rightarrow>
    (kafka_record \<Rightarrow> (pystr \<times> pystr) list option \<Rightarrow> pystr res) option \<Rightarrow>
    (jdict \<Rightarrow> (pystr \<times> pystr) list option \<Rightarrow> envelope_data res) option \<Rightarrow> 'b kafka_consumer" where
  "KafkaEventConsumer_init c loads loader mid_getter type_getter src_getter parser = \<lparr>
     kc_client = c,
     kc_payload_loader = get_or loader (default_payload_loader loads),
     kc_message_id_getter = get_or mid_getter (\<lambda>r hs. Inr (default_message_id_getter r hs)),
     kc_event_type_getter = get_or type_getter (\<lambda>r body hs. Inr (default_event_type_getter r body hs)),
     kc_source_getter = get_or src_getter (\<lambda>r hs. Inr (default_source_getter r hs)),
     kc_envelope_parser = get_or parser (\<lambda>raw hs. Inr (default_parse raw hs))\<rparr>"

definition consumed :: "'b kafka_consumer \<Rightarrow> kafka_record \<Rightarrow> 'b consumed_message res" where
  "consumed C r =
     (let hs = decode_headers r in
      bindr (kc_payload_loader C r) (\<lambda>raw.
      bindr (kc_message_id_getter C r hs) (\<lambda>message_id.
      bindr (kc_event_type_getter C r raw hs) (\<lambda>event_type.
      bindr (kc_source_getter C r hs) (\<lambda>source.
      bindr (kc_envelope_parser C raw hs) (\<lambda>env.
      Inr \<lparr>msg_message_id = message_id, msg_source = source,
        msg_event_type = event_type, msg_payload = env_payload env, msg_headers = hs,
        msg_trace_id = env_trace_id env, msg_correlation_id = env_correlation_id env,
        msg_causation_id = env_causation_id env, msg_schema_version = env_schema_version env,
        msg_ack_handle = Some (kafka_handle (kc_client C) r)\<rparr>))))))"

definition kafka_getone :: "'b kafka_consumer \<Rightarrow> ('b, 'b consumed_message) act" where
  "kafka_getone C = andthen (cl_getone (kc_client C)) (\<lambda>r. lift_res (consumed C r))"

end
