(* ===== verification/KafkaProps.thy ===== *)
theory KafkaProps
  imports Kafka Lifecycle Acknowledgement
begin

text \<open>
  What the Kafka adapters promise together: an event arrives as it was published, the publisher reports
  a success only when the broker took the record, and the consumer's client never reads past a record
  that is not committed.
\<close>

section \<open>Headers there and back\<close>

lemma lit_inj [simp]: "lit a = lit b \<longleftrightarrow> a = b"
  by (auto simp: lit_def inj_map_eq_map inj_def)

lemma map_of_set_truthy:
  "map_of (set_truthy k x d) = (if truthy x then (map_of d)(lit k := x) else map_of d)"
  by (auto simp: set_truthy_def truthy_def split: option.split)

lemma set_truthy_distinct: "distinct (map fst d) \<Longrightarrow> distinct (map fst (set_truthy k x d))"
  by (simp add: set_truthy_def dict_set_distinct split: option.split)

lemma build_headers_distinct: "distinct (map fst (get_or (headers e) [])) \<Longrightarrow> distinct (map fst (build_headers e))"
  unfolding build_headers_def by (intro set_truthy_distinct dict_set_distinct)

lemma build_headers_Nil [simp]: "build_headers e \<noteq> []"
proof -
  have "set_truthy k x d \<noteq> []" if "d \<noteq> []" for k x d
    using that by (simp add: set_truthy_def split: option.split)
  then show ?thesis
    unfolding build_headers_def by (intro \<open>\<And>d k x. d \<noteq> [] \<Longrightarrow> set_truthy k x d \<noteq> []\<close> dict_set_not_Nil)
qed

lemma map_of_build_headers:
  "map_of (build_headers e) = (\<lambda>k.
     if k = lit ''causation_id'' \<and> truthy (causation_id e) then causation_id e
     else if k = lit ''correlation_id'' \<and> truthy (correlation_id e) then correlation_id e
     else if k = lit ''trace_id'' \<and> truthy (trace_id e) then trace_id e
     else if k = lit ''schema_version'' \<and> truthy (schema_version e) then schema_version e
     else if k = lit ''event_type'' then Some (event_type e)
     else if k = lit ''event_id'' then Some (uuid_str (event_id e))
     else map_of (get_or (headers e) []) k)"
  by (auto simp: build_headers_def map_of_set_truthy fun_eq_iff)

text \<open>The values of the headers, where the consumer finds them.\<close>

definition as_sent :: "(pystr \<times> nat list) list \<Rightarrow> (pystr \<times> nat list option) list" where
  "as_sent hs = map (\<lambda>kv. (fst kv, Some (snd kv))) hs"

lemma encode_headers_decode:
  assumes "map_res encode_header d = Inr hs" and "distinct (map fst d)"
    and "\<forall>kv\<in>set d. text_ok (snd kv)"
  shows "map_of (decode_header_list (as_sent hs) acc) = map_of acc ++ map_of d"
  using assms
proof (induction d arbitrary: hs acc)
  case Nil
  then show ?case by (simp add: as_sent_def)
next
  case (Cons kv d)
  obtain k v where kv: "kv = (k, v)"
    by (cases kv)
  from Cons.prems obtain tl where hs: "hs = (k, utf8_bytes v) # tl" and tl: "map_res encode_header d = Inr tl"
    by (auto simp: kv res_simps encode_header_def encode_text_ok list_all2_Cons1)
  have "map_of (decode_header_list (as_sent hs) acc) = map_of (dict_set k v acc) ++ map_of d"
    using Cons.IH [OF tl] Cons.prems by (simp add: hs kv as_sent_def decode_utf8_bytes)
  moreover have "k \<notin> dom (map_of d)"
    using Cons.prems(2) by (simp add: kv dom_map_of_conv_image_fst)
  ultimately show ?case
    by (simp add: kv fun_eq_iff map_add_def domIff split: option.split)
qed

lemma decoded_headers:
  assumes "map_res encode_header (build_headers e) = Inr hs" and "distinct (map fst (get_or (headers e) []))"
    and "\<forall>kv\<in>set (build_headers e). text_ok (snd kv)" and "kr_headers r = as_sent hs"
  shows "header (decode_headers r) k = map_of (build_headers e) (lit k)"
proof -
  have m: "map_of (decode_header_list (as_sent hs) []) = map_of (build_headers e)"
    using encode_headers_decode [OF assms(1) build_headers_distinct [OF assms(2)] assms(3), of "[]"] by simp
  have "as_sent hs \<noteq> []"
    using assms(1) by (cases "build_headers e") (auto simp: res_simps as_sent_def list_all2_Cons1)
  then show ?thesis
    using m assms(4) by (auto simp: decode_headers_def header_def Let_def)
qed

section \<open>The round trip\<close>

text \<open>The record the broker keeps of what the publisher sends for an event, at some partition and offset.\<close>

definition sent_record :: "outbox_event \<Rightarrow> nat list \<Rightarrow> (pystr \<times> nat list) list \<Rightarrow> int \<Rightarrow> int \<Rightarrow> kafka_record" where
  "sent_record e value_bytes hs part off = \<lparr>kr_topic = topic e, kr_partition = part, kr_offset = off,
     kr_value = ByteValue value_bytes, kr_headers = as_sent hs\<rparr>"

text \<open>Header names the adapters use themselves.\<close>

definition reserved_headers :: "string set" where
  "reserved_headers = {''message_id'', ''source'', ''source_service'', ''trace_id'', ''correlation_id'',
     ''causation_id'', ''schema_version''}"

lemma map_of_add_text: "map_of (add_text k x d) j = (case map_of d j of Some v \<Rightarrow> Some v
    | None \<Rightarrow> if j = lit k then map_option JStr x else None)"
  by (cases x) (auto simp: add_text_def map_add_def split: option.split)

lemma header_or_same: "truthy x \<or> x = None \<Longrightarrow> map_of raw (lit k) = None \<or> map_of raw (lit k) = Some (json_opt x) \<Longrightarrow>
    header_or x raw k = json_opt x"
  by (auto simp: header_or_def truthy_def split: option.splits)

lemma valid_truthy:
  assumes "valid_event outbox_extra L ctx e"
  shows "truthy (trace_id e) \<or> trace_id e = None" "truthy (correlation_id e) \<or> correlation_id e = None"
    "truthy (causation_id e) \<or> causation_id e = None" "truthy (schema_version e) \<or> schema_version e = None"
    "event_type e \<noteq> []"
  using assms by (auto simp: valid_event_def fields_ok_def field_ok_def truthy_def split: option.split)

lemma event_read_back:
  assumes "valid_event outbox_extra L ctx e" and "\<forall>k\<in>reserved_headers. lit k \<notin> fst ` set (get_or (headers e) [])"
    and "distinct (map fst (get_or (headers e) []))" and "\<forall>kv\<in>set (build_headers e). text_ok (snd kv)"
    and "convert = schema_versioned_converter \<or> convert = envelope_converter version"
    and "map_res encode_header (build_headers e) = Inr hs" and "loads value_bytes = Inr (JObj (convert e))"
  shows "\<exists>m. consumed (KafkaEventConsumer_init c loads None None None None None) (sent_record e value_bytes hs part off) = Inr m \<and>
    msg_payload m = JObj (payload e) \<and> msg_event_type m = event_type e \<and>
    msg_message_id m = uuid_str (event_id e) \<and> msg_source m = topic e \<and>
    msg_trace_id m = json_opt (trace_id e) \<and> msg_correlation_id m = json_opt (correlation_id e) \<and>
    msg_causation_id m = json_opt (causation_id e) \<and>
    msg_schema_version m = (if convert = schema_versioned_converter then json_opt (schema_version e)
      else JStr (text_or (schema_version e) version))"
proof -
  let ?r = "sent_record e value_bytes hs part off"
  have hd: "header (decode_headers ?r) k = map_of (build_headers e) (lit k)" for k
    using decoded_headers [OF assms(6,3,4)] by (simp add: sent_record_def)
  have user: "map_of (get_or (headers e) []) (lit k) = None" if "k \<in> reserved_headers" for k
    using assms(2) that by (simp add: map_of_eq_None_iff)
  have h: "header (decode_headers ?r) ''message_id'' = None" "header (decode_headers ?r) ''source'' = None"
    "header (decode_headers ?r) ''source_service'' = None"
    "header (decode_headers ?r) ''event_id'' = Some (uuid_str (event_id e))"
    "header (decode_headers ?r) ''event_type'' = Some (event_type e)"
    by (simp_all add: hd map_of_build_headers user reserved_headers_def)
  have pick: "(if truthy x then x else None) = x" if "truthy x \<or> x = None" for x
    using that by auto
  have t: "header (decode_headers ?r) ''trace_id'' = (if truthy (trace_id e) then trace_id e else None)"
    "header (decode_headers ?r) ''correlation_id'' = (if truthy (correlation_id e) then correlation_id e else None)"
    "header (decode_headers ?r) ''causation_id'' = (if truthy (causation_id e) then causation_id e else None)"
    "header (decode_headers ?r) ''schema_version'' = (if truthy (schema_version e) then schema_version e else None)"
    using user [of "''trace_id''"] user [of "''correlation_id''"] user [of "''causation_id''"]
      user [of "''schema_version''"]
    by (simp_all add: hd map_of_build_headers reserved_headers_def)
  note t = t [unfolded pick [OF valid_truthy(1) [OF assms(1)]] pick [OF valid_truthy(2) [OF assms(1)]]
      pick [OF valid_truthy(3) [OF assms(1)]] pick [OF valid_truthy(4) [OF assms(1)]]]
  have id: "uuid_str (event_id e) \<noteq> []"
    by (simp add: uuid_str_def Let_def del: digits_numeral)
  have ev: "event_type e \<noteq> []"
    using valid_truthy [OF assms(1)] by simp
  have load: "default_payload_loader loads ?r = Inr (convert e)"
    using assms(7) by (simp add: default_payload_loader_def sent_record_def)
  have mid: "default_message_id_getter ?r (decode_headers ?r) = uuid_str (event_id e)"
    using id h by (simp add: default_message_id_getter_def or_else_def truthy_def split: list.split)
  have ty: "default_event_type_getter ?r b (decode_headers ?r) = event_type e" for b
    using ev h by (simp add: default_event_type_getter_def split: list.split)
  have src: "default_source_getter ?r (decode_headers ?r) = topic e"
    using h by (simp add: default_source_getter_def or_else_def truthy_def sent_record_def)
  have body: "map_of (convert e) (lit ''payload'') = Some (JObj (payload e))"
    using assms(5) by (auto simp: schema_versioned_converter_def envelope_converter_def map_of_add_text)
  have ids: "header_or (trace_id e) (convert e) ''trace_id'' = json_opt (trace_id e)"
    "header_or (correlation_id e) (convert e) ''correlation_id'' = json_opt (correlation_id e)"
    "header_or (causation_id e) (convert e) ''causation_id'' = json_opt (causation_id e)"
  proof -
    have env: "map_of (envelope_converter version e) (lit ''trace_id'') = map_option JStr (trace_id e)"
      "map_of (envelope_converter version e) (lit ''correlation_id'') = map_option JStr (correlation_id e)"
      "map_of (envelope_converter version e) (lit ''causation_id'') = map_option JStr (causation_id e)"
      by (simp_all add: envelope_converter_def map_of_add_text split: option.split)
    have opt: "map_option JStr x = None \<or> map_option JStr x = Some (json_opt x)" for x
      by (cases x) simp_all
    have ver: "map_of (schema_versioned_converter e) (lit k) = None" if "k \<noteq> ''schema_version''" "k \<noteq> ''payload''" for k
      using that by (simp add: schema_versioned_converter_def)
    show "header_or (trace_id e) (convert e) ''trace_id'' = json_opt (trace_id e)"
      using assms(5) env(1) opt [of "trace_id e"] ver [of "''trace_id''"]
      by (intro header_or_same valid_truthy(1) [OF assms(1)]) (elim disjE; simp)
    show "header_or (correlation_id e) (convert e) ''correlation_id'' = json_opt (correlation_id e)"
      using assms(5) env(2) opt [of "correlation_id e"] ver [of "''correlation_id''"]
      by (intro header_or_same valid_truthy(2) [OF assms(1)]) (elim disjE; simp)
    show "header_or (causation_id e) (convert e) ''causation_id'' = json_opt (causation_id e)"
      using assms(5) env(3) opt [of "causation_id e"] ver [of "''causation_id''"]
      by (intro header_or_same valid_truthy(3) [OF assms(1)]) (elim disjE; simp)
  qed
  have "header_or (schema_version e) (convert e) ''schema_version'' =
      (if convert = schema_versioned_converter then json_opt (schema_version e)
       else JStr (text_or (schema_version e) version))"
  proof (cases "convert = schema_versioned_converter")
    case True
    have "map_of (schema_versioned_converter e) (lit ''schema_version'') = Some (json_opt (schema_version e))"
      by (simp add: schema_versioned_converter_def)
    with True show ?thesis
      using valid_truthy(4) [OF assms(1)] by (simp add: header_or_same)
  next
    case False
    then have "map_of (convert e) (lit ''schema_version'') = Some (JStr (text_or (schema_version e) version))"
      using assms(5) by (simp add: envelope_converter_def map_of_add_text)
    with False show ?thesis
      using valid_truthy(4) [OF assms(1)]
      by (auto simp: header_or_def truthy_def text_or_def split: option.splits)
  qed
  with load mid ty src t body ids show ?thesis
    by (simp add: consumed_def KafkaEventConsumer_init_def Let_def default_parse_def)
qed

text \<open>C16. An event arrives as it was published. The default Kafka consumer, reading the record the broker
  keeps of what the publisher sent for a valid event through either of the two enveloping converters,
  makes a message with the event's payload, type and id, its topic as the source and its tracing
  identifiers; the schema version is the event's, or the default of the full envelope. The headers the
  user may set must not be the ones the adapters read.\<close>

theorem published_event_arrives:
  assumes "valid_event outbox_extra L ctx e" and "\<forall>k\<in>reserved_headers. lit k \<notin> fst ` set (get_or (headers e) [])"
    and "distinct (map fst (get_or (headers e) []))" and "\<forall>kv\<in>set (build_headers e). text_ok (snd kv)"
    and "convert = schema_versioned_converter \<or> convert = envelope_converter version"
    and "map_res encode_header (build_headers e) = Inr hs" and "loads value_bytes = Inr (JObj (convert e))"
  shows "\<exists>m. consumed (KafkaEventConsumer_init c loads None None None None None) (sent_record e value_bytes hs part off) = Inr m \<and>
    msg_payload m = JObj (payload e) \<and> msg_event_type m = event_type e \<and>
    msg_message_id m = uuid_str (event_id e) \<and> msg_source m = topic e \<and>
    msg_trace_id m = json_opt (trace_id e) \<and> msg_correlation_id m = json_opt (correlation_id e) \<and>
    msg_causation_id m = json_opt (causation_id e) \<and>
    msg_schema_version m = (if convert = schema_versioned_converter then json_opt (schema_version e)
      else JStr (text_or (schema_version e) version))"
  using assms by (rule event_read_back)

lemma digits_less: "0 < base \<Longrightarrow> d \<in> set (digits base k n) \<Longrightarrow> d < base"
  by (induction k arbitrary: n) auto

lemma uuid_str_text: "text_ok (uuid_str u)"
proof -
  let ?h = "map hex_digit (digits 16 32 (unat (uuid_int u)))"
  have "\<forall>c\<in>set ?h. c < 128"
    using digits_less [of 16 _ 32] by (fastforce simp: hex_digit_def simp del: digits_numeral)
  then have "\<forall>c\<in>set (uuid_str u). c < 128"
    unfolding uuid_str_def Let_def by (auto simp del: digits_numeral dest!: in_set_takeD in_set_dropD)
  then show ?thesis
    by (auto simp: text_ok_def surrogate_def)
qed

lemma sample_headers:
  "map_res encode_header (build_headers sample_event) =
     Inr [(lit ''event_id'', utf8_bytes (uuid_str (UUID 7))), (lit ''event_type'', utf8_bytes (lit ''t''))]"
  "\<forall>kv\<in>set (build_headers sample_event). text_ok (snd kv)"
  using uuid_str_text [of "UUID 7"]
  by (simp_all add: build_headers_def sample_event_def set_truthy_def encode_header_def encode_text_ok)
    (simp_all add: lit_def encode_text_ok surrogate_def)

definition idle_client :: "unit consumer_client" where
  "idle_client = \<lparr>cl_start = ret (), cl_stop = ret (), cl_getone = throw CancelledError, cl_commit = (\<lambda>_ _. ret ()),
     cl_assignment = (\<lambda>_. {}), cl_seek = (\<lambda>_ _. ret ())\<rparr>"

theorem published_event_arrives_witness:
  "\<exists>m. consumed (KafkaEventConsumer_init idle_client (\<lambda>_. Inr (JObj (schema_versioned_converter sample_event)))
      None None None None None)
     (sent_record sample_event [1] [(lit ''event_id'', utf8_bytes (uuid_str (UUID 7))),
        (lit ''event_type'', utf8_bytes (lit ''t''))] 0 3) = Inr m \<and> msg_payload m = JObj sample_payload"
proof -
  have "headers sample_event = None" "payload sample_event = sample_payload"
    by (simp_all add: sample_event_def)
  then show ?thesis
    using published_event_arrives [OF sample_event_valid _ _ sample_headers(2) _ sample_headers(1),
        of schema_versioned_converter "[]" "\<lambda>_. Inr (JObj (schema_versioned_converter sample_event))" "[1]" idle_client 0 3]
    by auto
qed

section \<open>Payloads that look like an envelope\<close>

text \<open>With the passthrough converter an event whose payload has a field \<open>payload\<close> does not arrive: the
  default parser takes the field for the payload of an envelope, and the message holds its value and
  nothing of the other fields.\<close>

theorem raw_payload_unwrapped:
  assumes "map_of (raw_converter e) (lit ''payload'') = Some inner" and "loads value_bytes = Inr (JObj (raw_converter e))"
  shows "\<exists>m. consumed (KafkaEventConsumer_init c loads None None None None None) (sent_record e value_bytes hs part off) = Inr m \<and>
    msg_payload m = inner \<and> msg_payload m \<noteq> JObj (payload e)"
proof -
  have "inner \<noteq> JObj d" if "map_of d k = Some inner" for d and k :: pystr
  proof -
    from that have "(k, inner) \<in> set d"
      by (rule map_of_SomeD)
    then have "size inner < size (JObj d)"
      by (induction d) auto
    then show ?thesis by auto
  qed
  then have "inner \<noteq> JObj (payload e)"
    using assms(1) by (simp add: raw_converter_def)
  with assms show ?thesis
    by (simp add: consumed_def KafkaEventConsumer_init_def Let_def default_payload_loader_def default_parse_def
        sent_record_def)
qed

theorem raw_payload_unwrapped_witness:
  "\<exists>m. consumed (KafkaEventConsumer_init idle_client (\<lambda>_. Inr (JObj [(lit ''payload'', JInt 1), (lit ''x'', JInt 2)]))
      None None None None None)
     (sent_record (sample_event\<lparr>payload := [(lit ''payload'', JInt 1), (lit ''x'', JInt 2)]\<rparr>) [1] [] 0 3) = Inr m \<and>
   msg_payload m = JInt 1"
  using raw_payload_unwrapped [of "sample_event\<lparr>payload := [(lit ''payload'', JInt 1), (lit ''x'', JInt 2)]\<rparr>" "JInt 1"
      "\<lambda>_. Inr (JObj [(lit ''payload'', JInt 1), (lit ''x'', JInt 2)])" "[1]" idle_client "[]" 0 3]
  by (auto simp: raw_converter_def)

section \<open>Publishing\<close>

lemma on_producer_iff: "on_producer m s = (r, s') \<longleftrightarrow> (\<exists>p. m (ps_producer s) = (r, p) \<and> s' = s\<lparr>ps_producer := p\<rparr>)"
  by (auto simp: on_producer_def split: prod.splits)

lemma send_attempts_ok:
  "send_attempts K t send (Suc k) attempt s = (Inr (), s') \<Longrightarrow> int k = kp_max_infra_retries K - attempt \<Longrightarrow>
     \<exists>p. send p = (Inr (), ps_producer s')"
proof (induction k arbitrary: attempt s)
  case 0
  then show ?case
    by (auto simp: catch_Inr_iff on_producer_iff andthen_Inr_iff split: if_splits option.splits)
next
  case (Suc k)
  from Suc.prems(1) consider p where "send (ps_producer s) = (Inr (), p)" "ps_producer s' = p"
    | s1 where "send_attempts K t send (Suc k) (attempt + 1) s1 = (Inr (), s')"
    by (subst (asm) send_attempts.simps)
      (auto simp: catch_Inr_iff on_producer_iff andthen_Inr_iff simp del: send_attempts.simps split: if_splits option.splits)
  then show ?case
  proof cases
    case 1
    then show ?thesis by auto
  next
    case 2
    then show ?thesis
      using Suc.IH [of "attempt + 1" s1] Suc.prems(2) by simp
  qed
qed

lemma retry_delay:
  assumes "calculate_backoff_with_jitter attempt DEFAULT_BACKOFF_BASE_SECONDS DEFAULT_BACKOFF_CAP_SECONDS Full u = Inr d"
    and "0 \<le> u" and "u < 1"
  shows "0 \<le> d \<and> d \<le> 3600"
proof -
  define D :: rat where "D = min 3600 (10 * 2 ^ nat attempt)"
  have "0 \<le> D" "D \<le> 3600"
    by (simp_all add: D_def)
  moreover have "d = uniform 0 D u"
    using assms(1) by (auto simp: calculate_backoff_with_jitter_def exponential_def DEFAULT_BACKOFF_BASE_SECONDS_def
        DEFAULT_BACKOFF_CAP_SECONDS_def Let_def D_def res_simps split: if_splits)
  ultimately show ?thesis
    using uniform_bounds [OF assms(2,3), of 0 D] by simp
qed

definition retries_bounded :: "nat \<Rightarrow> 'p publisher_state \<Rightarrow> 'p publisher_state \<Rightarrow> bool" where
  "retries_bounded k s s' \<longleftrightarrow>
     (\<exists>ds. ps_sleeps s' = ps_sleeps s @ ds \<and> length ds \<le> k \<and> (\<forall>d\<in>set ds. 0 \<le> d \<and> d \<le> 3600))"

lemma keeps_unreachable: "keeps ps_sleeps (unreachable_reason K err t)" "keeps ps_random (unreachable_reason K err t)"
  by (auto simp: keeps_def unreachable_reason_def andthen_def on_producer_def split: error.split prod.split sum.split)

lemma send_attempts_sleeps:
  assumes "\<And>j. 0 \<le> ps_random s j \<and> ps_random s j < 1" and "send_attempts K t send k attempt s = (r, s')"
    and "int k = kp_max_infra_retries K + 1 - attempt"
  shows "retries_bounded (k - 1) s s'"
  using assms
proof (induction k arbitrary: attempt s)
  case 0
  then show ?case by (simp add: retries_bounded_def)
next
  case (Suc k)
  obtain x p where one: "send (ps_producer s) = (x, p)"
    by fastforce
  let ?s = "s\<lparr>ps_producer := p\<rparr>"
  have idle: "retries_bounded k s s''" if "ps_sleeps s'' = ps_sleeps s" for s''
    using that by (simp add: retries_bounded_def)
  show ?case
  proof (cases "\<exists>err. x = Inl err \<and> is_exception err")
    case False
    with Suc.prems(2) one have "s' = ?s"
      by (cases x) (auto simp: catch_def on_producer_def)
    then show ?thesis
      using idle by simp
  next
    case True
    then obtain err where err: "x = Inl err" "is_exception err"
      by blast
    obtain y s1 where why: "unreachable_reason K err t ?s = (y, s1)"
      by fastforce
    then have s1: "ps_sleeps s1 = ps_sleeps s" "ps_random s1 = ps_random s"
      using keepsD [OF keeps_unreachable(1)] keepsD [OF keeps_unreachable(2)] by fastforce+
    show ?thesis
    proof (cases "\<exists>reason. y = Inr (Some reason) \<and> attempt < kp_max_infra_retries K")
      case False
      with Suc.prems(2) one err why have "s' = s1"
        by (cases y) (auto simp: catch_def on_producer_def andthen_def split: option.splits)
      then show ?thesis
        using idle s1 by simp
    next
      case True
      let ?d = "calculate_backoff_with_jitter attempt DEFAULT_BACKOFF_BASE_SECONDS DEFAULT_BACKOFF_CAP_SECONDS Full (ps_random s 0)"
      let ?s1 = "s1\<lparr>ps_random := (\<lambda>k. ps_random s (Suc k))\<rparr>"
      show ?thesis
      proof (cases ?d)
        case (Inl e)
        with True Suc.prems(2) one err why s1 have "s' = ?s1"
          by (auto simp: catch_def on_producer_def andthen_def draw_def)
        then show ?thesis
          using idle s1 by simp
      next
        case (Inr d)
        let ?s2 = "?s1\<lparr>ps_sleeps := ps_sleeps s @ [d]\<rparr>"
        have go: "send_attempts K t send k (attempt + 1) ?s2 = (r, s')"
          using True Suc.prems(2) one err why s1 Inr
          by (auto simp: catch_def on_producer_def andthen_def draw_def sleep_for_def)
        have "retries_bounded (k - 1) ?s2 s'"
          using Suc.IH [OF _ go] Suc.prems(1,3) by simp
        moreover have "0 < k"
          using True Suc.prems(3) by linarith
        moreover have "0 \<le> d \<and> d \<le> 3600"
          using retry_delay [OF Inr] Suc.prems(1) by blast
        moreover obtain ds where "ps_sleeps s' = (ps_sleeps s @ [d]) @ ds" "length ds \<le> k - 1"
          "\<forall>d\<in>set ds. 0 \<le> d \<and> d \<le> 3600"
          using calculation(1) by (auto simp: retries_bounded_def)
        ultimately show ?thesis
          unfolding retries_bounded_def by (intro exI [of _ "d # ds"]) auto
      qed
    qed
  qed
qed

text \<open>What the publisher can turn into a record.\<close>

definition sendable :: "'p kafka_publisher \<Rightarrow> outbox_event \<Rightarrow> bool" where
  "sendable K e \<longleftrightarrow> orjson_dumps (kp_libs K) (kp_convert K e) \<noteq> None \<and> is_ok (encode (partition_key e)) \<and>
     is_ok (map_res encode_header (build_headers e))"

text \<open>The two ways a call of \<open>publish\<close> goes: it cannot make the record, or it tries to send it.\<close>

lemma publish_cases:
  assumes "publish K e s = (r, s')"
  obtains (unsendable) err where "r = Inl err" and "is_exception err" and "s' = s" and "\<not> sendable K e"
  | (sent) value_bytes key hs y where "orjson_dumps (kp_libs K) (kp_convert K e) = Some value_bytes"
      and "map_res encode_header (build_headers e) = Inr hs"
      and "send_attempts K (topic e) (send_and_wait (kp_client K) (topic e) value_bytes key hs)
        (nat (kp_max_infra_retries K + 1)) 0 s = (y, s')"
      and "r = (case y of Inl err \<Rightarrow> Inl err | Inr _ \<Rightarrow> Inr None)"
proof -
  define key_res where "key_res = (if partition_key e = [] then Inr None
    else bindr (encode (partition_key e)) (\<lambda>b. Inr (Some b)))"
  have exn: "encode t = Inl err \<Longrightarrow> is_exception err" for t err
    by (auto simp: encode_def split: if_splits)
  have hexn: "map_res encode_header hs = Inl err \<Longrightarrow> is_exception err" for hs err
    by (induction hs) (auto simp: encode_header_def bindr_Inl_iff dest: exn)
  consider "orjson_dumps (kp_libs K) (kp_convert K e) = None"
    | value_bytes err where "orjson_dumps (kp_libs K) (kp_convert K e) = Some value_bytes" "key_res = Inl err"
    | value_bytes key err where "orjson_dumps (kp_libs K) (kp_convert K e) = Some value_bytes"
      "key_res = Inr key" "map_res encode_header (build_headers e) = Inl err"
    | value_bytes key hs where "orjson_dumps (kp_libs K) (kp_convert K e) = Some value_bytes"
      "key_res = Inr key" "map_res encode_header (build_headers e) = Inr hs"
    by (metis option.exhaust sum.exhaust)
  then show thesis
  proof cases
    case 1
    with assms show thesis
      by (intro unsendable [of TypeError]) (auto simp: publish_def andthen_def sendable_def)
  next
    case (2 value_bytes err)
    then have "encode (partition_key e) = Inl err"
      by (auto simp: key_res_def bindr_Inl_iff split: if_splits)
    with 2 assms exn show thesis
      by (intro unsendable [of err]) (auto simp: publish_def andthen_def sendable_def key_res_def is_ok_iff split: if_splits)
  next
    case (3 value_bytes key err)
    with assms hexn show thesis
      by (intro unsendable [of err]) (auto simp: publish_def andthen_def sendable_def key_res_def is_ok_iff split: if_splits)
  next
    case (4 value_bytes key hs)
    then show thesis
      using assms
      by (cases "send_attempts K (topic e) (send_and_wait (kp_client K) (topic e) value_bytes key hs)
          (nat (kp_max_infra_retries K + 1)) 0 s")
        (auto simp: publish_def andthen_def key_res_def split: sum.splits intro: sent)
  qed
qed

text \<open>C18. \<open>publish\<close> tells the truth when the number of retries is not negative: it returns only after the
  broker has taken the record made of this event, as the last thing the producer did, and whatever happens
  it sleeps at most once per retry, between 0 and 3600 s. With a negative number, which the constructor
  does not refuse, it sends nothing and returns for every event that can be encoded, so the pipeline
  completes events that were never published.\<close>

theorem publish_tells_the_truth:
  assumes "publish K e s = (r, s')" and "\<And>j. 0 \<le> ps_random s j \<and> ps_random s j < 1"
  shows "if 0 \<le> kp_max_infra_retries K
      then (is_ok r \<longrightarrow> (\<exists>value key hs p. orjson_dumps (kp_libs K) (kp_convert K e) = Some value \<and>
          map_res encode_header (build_headers e) = Inr hs \<and>
          send_and_wait (kp_client K) (topic e) value key hs p = (Inr (), ps_producer s'))) \<and>
        retries_bounded (nat (kp_max_infra_retries K)) s s'
      else s' = s \<and> (sendable K e \<longrightarrow> r = Inr None)"
  using assms(1)
proof (cases rule: publish_cases)
  case (unsendable err)
  then show ?thesis
    by (auto simp: retries_bounded_def)
next
  case (sent value_bytes key hs y)
  let ?send = "send_and_wait (kp_client K) (topic e) value_bytes key hs"
  show ?thesis
  proof (cases "0 \<le> kp_max_infra_retries K")
    case True
    then have k: "nat (kp_max_infra_retries K + 1) = Suc (nat (kp_max_infra_retries K))"
      by simp
    have "retries_bounded (nat (kp_max_infra_retries K)) s s'"
      using send_attempts_sleeps [OF assms(2) sent(3)] True k by simp
    moreover have "\<exists>p. ?send p = (Inr (), ps_producer s')" if "is_ok r"
      using send_attempts_ok [of K "topic e" ?send "nat (kp_max_infra_retries K)" 0 s s'] sent(3,4) that k True
      by (cases y) simp_all
    ultimately show ?thesis
      using sent True by auto
  next
    case False
    with sent(3,4) show ?thesis by (cases y) auto
  qed
qed

definition sample_kafka_publisher :: "int \<Rightarrow> nat kafka_publisher" where
  "sample_kafka_publisher retries = \<lparr>
     kp_client = \<lparr>send_and_wait = (\<lambda>_ _ _ _ p. (Inr (), p + 1)), force_metadata_update = ret True\<rparr>,
     kp_convert = raw_converter, kp_max_infra_retries = retries, kp_libs = sample_libs, kp_repr = id\<rparr>"

theorem publish_tells_the_truth_witness:
  "\<exists>s'. publish (sample_kafka_publisher (- 1)) sample_event
     \<lparr>ps_producer = 0, ps_random = (\<lambda>_. 0), ps_sleeps = []\<rparr> = (Inr None, s') \<and> ps_producer s' = 0"
proof -
  let ?s = "\<lparr>ps_producer = 0, ps_random = (\<lambda>_. 0), ps_sleeps = []\<rparr>"
  obtain r s' where run: "publish (sample_kafka_publisher (- 1)) sample_event ?s = (r, s')"
    by fastforce
  have "sendable (sample_kafka_publisher (- 1)) sample_event"
    using sample_headers(1) by (simp add: sendable_def sample_kafka_publisher_def raw_converter_def)
      (simp add: sample_event_def sample_libs_def encode_def lit_def surrogate_def)
  then show ?thesis
    using publish_tells_the_truth [OF run] run by (simp add: sample_kafka_publisher_def)
qed

section \<open>The consumer's position\<close>

text \<open>
  The documented behaviour of the aiokafka consumer, on the partitions it has: \<open>position\<close> is the next
  offset it reads, \<open>committed\<close> the group's committed offset, \<open>offsets\<close> are those at which a partition has,
  or will have, a record (they need not be consecutive). Partitions do not move while one message is
  handled.
\<close>

locale aiokafka_consumer =
  fixes c :: "'b consumer_client"
    and position :: "'b \<Rightarrow> topic_partition \<Rightarrow> int"
    and committed :: "'b \<Rightarrow> topic_partition \<Rightarrow> int"
    and offsets :: "topic_partition \<Rightarrow> int set"
  assumes getone_law: "cl_getone c b = (Inr r, b') \<Longrightarrow>
      kr_offset r \<in> offsets (partition_of r) \<and> partition_of r \<in> cl_assignment c b \<and>
      (\<forall>i\<in>offsets (partition_of r). i < kr_offset r \<longrightarrow> i < position b (partition_of r)) \<and>
      position b' = (position b)(partition_of r := kr_offset r + 1) \<and>
      committed b' = committed b \<and> cl_assignment c b' = cl_assignment c b"
    and getone_error: "cl_getone c b = (Inl err, b') \<Longrightarrow> position b' = position b \<and>
      committed b' = committed b \<and> cl_assignment c b' = cl_assignment c b"
    and commit_law: "cl_commit c tp n b = (res, b') \<Longrightarrow> position b' = position b \<and>
      cl_assignment c b' = cl_assignment c b \<and>
      (committed b' = (committed b)(tp := n) \<or> res \<noteq> Inr () \<and> committed b' = committed b)"
    and seek_law: "tp \<in> cl_assignment c b \<Longrightarrow> \<exists>b'. cl_seek c tp n b = (Inr (), b') \<and>
      position b' = (position b)(tp := n) \<and> committed b' = committed b \<and>
      cl_assignment c b' = cl_assignment c b"
begin

text \<open>Every record read past is below the committed offset: what a crash, or a later commit, may lose is
  nothing.\<close>

definition nothing_skipped :: "'b \<Rightarrow> bool" where
  "nothing_skipped b \<longleftrightarrow> (\<forall>tp\<in>cl_assignment c b. \<forall>i\<in>offsets tp. i < position b tp \<longrightarrow> i < committed b tp)"

lemma read_and_committed:
  assumes "nothing_skipped b0" and "cl_getone c b0 = (Inr r, b)"
    and "cl_commit c (partition_of r) (kr_offset r + 1) b = (Inr (), b')"
  shows "nothing_skipped b'"
  using getone_law [OF assms(2)] commit_law [OF assms(3)] assms(1) by (auto simp: nothing_skipped_def)

lemma read_and_rewound:
  assumes "nothing_skipped b0" and "cl_getone c b0 = (Inr r, b)"
    and "b1 \<in> {b, snd (cl_commit c (partition_of r) (kr_offset r + 1) b)}"
  shows "nothing_skipped (snd (ack_rewind (kafka_handle c r) b1))"
proof -
  let ?tp = "partition_of r"
  note get = getone_law [OF assms(2)]
  have b1: "position b1 = position b \<and> cl_assignment c b1 = cl_assignment c b \<and>
      (committed b1 = (committed b)(?tp := kr_offset r + 1) \<or> committed b1 = committed b)"
    using assms(3) commit_law [of ?tp "kr_offset r + 1" b] by (metis empty_iff insert_iff prod.collapse)
  then obtain b2 where b2: "cl_seek c ?tp (kr_offset r) b1 = (Inr (), b2)"
    "position b2 = (position b1)(?tp := kr_offset r)" "committed b2 = committed b1" "cl_assignment c b2 = cl_assignment c b1"
    using get seek_law [of ?tp b1 "kr_offset r"] by auto
  have "snd (ack_rewind (kafka_handle c r) b1) = b2"
    using b1 b2 get by (simp add: kafka_handle_def)
  moreover have "nothing_skipped b2"
    using assms(1) get b1 b2 by (auto simp: nothing_skipped_def)
  ultimately show ?thesis by simp
qed

lemma kafka_process_one:
  assumes "rn_getone Q = kafka_getone C" and "kc_client C = c" and "rn_refuses Q IncConsumed = None"
    and "\<And>b r b'. cl_getone c b = (Inr r, b') \<Longrightarrow> is_ok (Kafka.consumed C r)" and "nothing_skipped (n_broker s)" and "process_one Q s = (r, s')"
  shows "nothing_skipped (n_broker s')"
proof -
  obtain x b where get: "cl_getone c (n_broker s) = (x, b)"
    by fastforce
  show ?thesis
  proof (cases x)
    case (Inl err)
    then have "n_broker s' = b"
      using assms(1,2,6) get by (auto simp: process_one_def andthen_def on_broker_def kafka_getone_def)
    then show ?thesis
      using getone_error [OF get [unfolded Inl]] assms(5) by (simp add: nothing_skipped_def)
  next
    case (Inr rec)
    obtain m where m: "Kafka.consumed C rec = Inr m"
      using assms(4) [OF get [unfolded Inr]] by (auto simp: is_ok_iff)
    then have h: "handle_of m = kafka_handle c rec"
      using assms(2) by (auto simp: Kafka.consumed_def Let_def res_simps handle_of_def)
    have "rn_getone Q (n_broker s) = (Inr m, b)"
      using assms(1,2) get Inr m by (simp add: kafka_getone_def andthen_def)
    note out = process_one_broker [OF this assms(6,3), unfolded h]
    note read = read_and_committed [OF assms(5) get [unfolded Inr]] read_and_rewound [OF assms(5) get [unfolded Inr]]
    have commit: "ack_commit (kafka_handle c rec) = cl_commit c (partition_of rec) (kr_offset rec + 1)"
      by (simp add: kafka_handle_def)
    show ?thesis
    proof (cases r)
      case (Inl err)
      with out read(2) show ?thesis
        by (auto simp: commit)
    next
      case (Inr result)
      with out read show ?thesis
        by (auto simp: commit split: if_splits)
    qed
  qed
qed

end

lemma run_loop_broker:
  assumes "\<And>s r s'. process_one Q s = (r, s') \<Longrightarrow> P (n_broker s) \<Longrightarrow> P (n_broker s')"
  shows "run_loop Q k d s = (r, s') \<Longrightarrow> P (n_broker s) \<Longrightarrow> P (n_broker s')"
proof (induction k arbitrary: d s)
  case (Suc k)
  show ?case
  proof (cases "n_stops s 0")
    case False
    let ?s = "s\<lparr>n_stops := (\<lambda>j. n_stops s (Suc j))\<rparr>"
    obtain x s1 where turn: "run_turn Q d ?s = (x, s1)"
      by fastforce
    obtain y s2 where one: "process_one Q ?s = (y, s2)"
      by fastforce
    then have "n_broker s1 = n_broker s2"
      using turn by (cases y) (auto simp: run_turn_def andthen_def catch_def assign_def split: if_splits)
    then have "P (n_broker s1)"
      using assms [OF one] Suc.prems(2) by simp
    then show ?thesis
      using Suc turn False by (cases x) (auto simp: andthen_def)
  qed (use Suc.prems in auto)
qed auto

text \<open>C17. Over Kafka the consumer never reads past a record it has not committed: along a whole run of the
  loop, with failing handlers, failing commits and a failing database, every record the client has read
  past is below the committed offset, so that no later commit acknowledges a message that was not done.
  Every record the client returns must be one the adapter can read, and the collector must not raise on \<open>inc_consumed\<close>.\<close>

theorem consumer_never_reads_past:
  assumes "aiokafka_consumer c position committed offsets" and "rn_getone Q = kafka_getone C" and "kc_client C = c"
    and "rn_refuses Q IncConsumed = None" and "\<And>b r b'. cl_getone c b = (Inr r, b') \<Longrightarrow> is_ok (Kafka.consumed C r)"
    and "\<forall>tp\<in>cl_assignment c (n_broker s). \<forall>i\<in>offsets tp. i < position (n_broker s) tp \<longrightarrow> i < committed (n_broker s) tp"
    and "run_forever Q k s = (r, s')"
  shows "\<forall>tp\<in>cl_assignment c (n_broker s'). \<forall>i\<in>offsets tp. i < position (n_broker s') tp \<longrightarrow> i < committed (n_broker s') tp"
proof (cases "n_started s")
  case True
  have "run_loop Q k RUN_FOREVER_MIN_BACKOFF s = (r, s')"
    using assms(7) True by (simp add: run_forever_def)
  then have "aiokafka_consumer.nothing_skipped c position committed offsets (n_broker s')"
  proof (rule run_loop_broker [rotated])
    fix s1 x s2
    assume "process_one Q s1 = (x, s2)" and "aiokafka_consumer.nothing_skipped c position committed offsets (n_broker s1)"
    with aiokafka_consumer.kafka_process_one [OF assms(1-4)] assms(5)
    show "aiokafka_consumer.nothing_skipped c position committed offsets (n_broker s2)" by metis
  qed (use assms(6) in \<open>simp add: aiokafka_consumer.nothing_skipped_def [OF assms(1)]\<close>)
  then show ?thesis
    by (simp add: aiokafka_consumer.nothing_skipped_def [OF assms(1)])
next
  case False
  with assms(6,7) show ?thesis
    by (simp add: run_forever_def)
qed

text \<open>C38. A record the adapter cannot read (no payload, no JSON, no object) is read past: \<open>getone\<close> raises after
  the client has moved on, there is no handle to rewind, and the call leaves the client behind a record
  that is not committed, for the next commit of the partition to acknowledge.\<close>

theorem unreadable_record_is_skipped:
  assumes "aiokafka_consumer c position committed offsets" and "rn_getone Q = kafka_getone C" and "kc_client C = c"
    and "cl_getone c (n_broker s) = (Inr rec, b)" and "Kafka.consumed C rec = Inl err"
    and "process_one Q s = (r, s')"
  shows "r = Inl err \<and> position (n_broker s') (partition_of rec) = kr_offset rec + 1 \<and>
    committed (n_broker s') = committed (n_broker s)"
proof -
  have "r = Inl err \<and> n_broker s' = b"
    using assms(2-6) by (auto simp: process_one_def andthen_def on_broker_def kafka_getone_def)
  then show ?thesis
    using aiokafka_consumer.getone_law [OF assms(1,4)] by simp
qed

section \<open>A client in memory\<close>

text \<open>A list of records; \<open>getone\<close> takes the next one of some partition, and at the end waits until the task is
  cancelled.\<close>

record log_client =
  lc_position :: "topic_partition \<Rightarrow> int"
  lc_committed :: "topic_partition \<Rightarrow> int"

definition next_record :: "kafka_record list \<Rightarrow> (topic_partition \<Rightarrow> int) \<Rightarrow> kafka_record option" where
  "next_record rs pos =
     List.find (\<lambda>r. pos (partition_of r) \<le> kr_offset r \<and>
       (\<forall>q\<in>set rs. partition_of q = partition_of r \<and> pos (partition_of q) \<le> kr_offset q \<longrightarrow> kr_offset r \<le> kr_offset q)) rs"

definition log_consumer :: "kafka_record list \<Rightarrow> log_client consumer_client" where
  "log_consumer rs = \<lparr>cl_start = ret (), cl_stop = ret (),
     cl_getone = (\<lambda>b. case next_record rs (lc_position b) of
         None \<Rightarrow> (Inl CancelledError, b)
       | Some r \<Rightarrow> (Inr r, b\<lparr>lc_position := (lc_position b)(partition_of r := kr_offset r + 1)\<rparr>)),
     cl_commit = (\<lambda>tp k b. (Inr (), b\<lparr>lc_committed := (lc_committed b)(tp := k)\<rparr>)),
     cl_assignment = (\<lambda>_. partition_of ` set rs),
     cl_seek = (\<lambda>tp k b. (Inr (), b\<lparr>lc_position := (lc_position b)(tp := k)\<rparr>))\<rparr>"

lemma next_record_Some:
  assumes "next_record rs pos = Some r"
  shows "r \<in> set rs" and "\<And>q. q \<in> set rs \<Longrightarrow> partition_of q = partition_of r \<Longrightarrow> kr_offset q < kr_offset r \<Longrightarrow>
    kr_offset q < pos (partition_of r)"
  using assms by (fastforce simp: next_record_def find_Some_iff)+

interpretation kafka_log: aiokafka_consumer "log_consumer rs" lc_position lc_committed
  "\<lambda>tp. {kr_offset r |r. r \<in> set rs \<and> partition_of r = tp}" for rs
proof
  fix b b' r
  assume "cl_getone (log_consumer rs) b = (Inr r, b')"
  then have n: "next_record rs (lc_position b) = Some r"
    and "b' = b\<lparr>lc_position := (lc_position b)(partition_of r := kr_offset r + 1)\<rparr>"
    by (auto simp: log_consumer_def split: option.splits)
  with next_record_Some [OF n]
  show "kr_offset r \<in> {kr_offset q |q. q \<in> set rs \<and> partition_of q = partition_of r} \<and>
      partition_of r \<in> cl_assignment (log_consumer rs) b \<and>
      (\<forall>i\<in>{kr_offset q |q. q \<in> set rs \<and> partition_of q = partition_of r}. i < kr_offset r \<longrightarrow> i < lc_position b (partition_of r)) \<and>
      lc_position b' = (lc_position b)(partition_of r := kr_offset r + 1) \<and>
      lc_committed b' = lc_committed b \<and> cl_assignment (log_consumer rs) b' = cl_assignment (log_consumer rs) b"
    by (auto simp: log_consumer_def)
qed (auto simp: log_consumer_def split: option.splits)

definition sample_record :: "record_value \<Rightarrow> kafka_record" where
  "sample_record v = \<lparr>kr_topic = lit ''t'', kr_partition = 0, kr_offset = 4, kr_value = v, kr_headers = []\<rparr>"

definition log_adapter :: "kafka_record list \<Rightarrow> log_client kafka_consumer" where
  "log_adapter rs = KafkaEventConsumer_init (log_consumer rs) (\<lambda>_. Inr (JObj [])) None None None None None"

definition log_runner :: "kafka_record list \<Rightarrow> (unit, log_client) runner" where
  "log_runner rs = \<lparr>rn_getone = kafka_getone (log_adapter rs), rn_start = ret (), rn_stop = ret (),
     rn_provider = \<lparr>tx_enter = ret (), tx_leave = (\<lambda>_. ret ())\<rparr>,
     rn_calls = \<lparr>ic_create = ret, ic_mark_processing = (\<lambda>_ _. ret True), ic_mark_completed = (\<lambda>_ _. ret ())\<rparr>,
     rn_handler = None, rn_worker_id = lit ''w'', rn_consumer_group = lit ''g'', rn_libs = sample_libs,
     rn_service = default_service, rn_ack_strategy = EXACTLY_ONCE_INBOX, rn_commit_offset_policy = ON_PERSIST,
     rn_commit_on_failed = False, rn_refuses = (\<lambda>_. None)\<rparr>"

definition log_node :: "(unit, log_client) node" where
  "log_node = \<lparr>n_db = (), n_broker = \<lparr>lc_position = (\<lambda>_. 4), lc_committed = (\<lambda>_. 4)\<rparr>, n_uuids = (\<lambda>_. UUID 0),
     n_times = (\<lambda>_. 0), n_perf = (\<lambda>_. 0), n_log = [], n_started = True, n_stops = (\<lambda>k. 2 \<le> k), n_sleeps = []\<rparr>"

theorem consumer_never_reads_past_witness:
  "\<exists>r s'. run_forever (log_runner [sample_record (ByteValue [])]) 3 log_node = (r, s') \<and>
     (4 < lc_position (n_broker s') (lit ''t'', 0) \<longrightarrow> 4 < lc_committed (n_broker s') (lit ''t'', 0))"
proof -
  let ?rs = "[sample_record (ByteValue [])]"
  obtain r s' where run: "run_forever (log_runner ?rs) 3 log_node = (r, s')"
    by fastforce
  have fields: "rn_getone (log_runner ?rs) = kafka_getone (log_adapter ?rs)" "kc_client (log_adapter ?rs) = log_consumer ?rs"
    "rn_refuses (log_runner ?rs) IncConsumed = None"
    by (simp_all add: log_runner_def log_adapter_def KafkaEventConsumer_init_def)
  have readable: "is_ok (Kafka.consumed (log_adapter ?rs) q)" if "cl_getone (log_consumer ?rs) b = (Inr q, b')" for b q b'
  proof -
    have "q = sample_record (ByteValue [])"
      using that next_record_Some(1) [of ?rs] by (auto simp: log_consumer_def split: option.splits)
    then show ?thesis
      by (simp add: Kafka.consumed_def log_adapter_def KafkaEventConsumer_init_def default_payload_loader_def
          sample_record_def res_simps Let_def is_ok_iff)
  qed
  have "\<forall>tp\<in>cl_assignment (log_consumer ?rs) (n_broker s').
      \<forall>i\<in>{kr_offset r |r. r \<in> set ?rs \<and> partition_of r = tp}.
      i < lc_position (n_broker s') tp \<longrightarrow> i < lc_committed (n_broker s') tp"
    by (rule consumer_never_reads_past [OF kafka_log.aiokafka_consumer_axioms fields readable _ run])
      (simp_all add: log_node_def)
  with run show ?thesis
    by (simp add: log_consumer_def sample_record_def partition_of_def)
qed

theorem unreadable_record_is_skipped_witness:
  "\<exists>r s'. process_one (log_runner [sample_record NoValue]) log_node = (r, s') \<and> r = Inl ValueError \<and>
     lc_position (n_broker s') (lit ''t'', 0) = 5 \<and> lc_committed (n_broker s') (lit ''t'', 0) = 4"
proof -
  let ?r = "sample_record NoValue"
  obtain r s' where run: "process_one (log_runner [?r]) log_node = (r, s')"
    by fastforce
  have "rn_getone (log_runner [?r]) = kafka_getone (log_adapter [?r])" "kc_client (log_adapter [?r]) = log_consumer [?r]"
    by (simp_all add: log_runner_def log_adapter_def KafkaEventConsumer_init_def)
  moreover have "cl_getone (log_consumer [?r]) (n_broker log_node) =
      (Inr ?r, \<lparr>lc_position = (\<lambda>_. 4)(partition_of ?r := 5), lc_committed = (\<lambda>_. 4)\<rparr>)"
    by (simp add: log_consumer_def next_record_def log_node_def sample_record_def partition_of_def)
  moreover have "Kafka.consumed (log_adapter [?r]) ?r = Inl ValueError"
    by (simp add: Kafka.consumed_def log_adapter_def KafkaEventConsumer_init_def default_payload_loader_def
        sample_record_def res_simps Let_def)
  ultimately have "r = Inl ValueError \<and> lc_position (n_broker s') (partition_of ?r) = kr_offset ?r + 1 \<and>
    lc_committed (n_broker s') = lc_committed (n_broker log_node)"
    using unreadable_record_is_skipped [OF kafka_log.aiokafka_consumer_axioms _ _ _ _ run] by blast
  with run show ?thesis
    by (simp add: sample_record_def partition_of_def log_node_def)
qed

end
