(* ===== verification/Dispatch.thy ===== *)
theory Dispatch
  imports Schemas Processor
begin

text \<open>
  The event router (\<open>core/dispatch\<close>) and the preset that runs it (\<open>create_dispatching_processor\<close>): handlers
  registered by topic, event type and schema version, an event's payload migrated to a version a handler
  is registered for. The router's two dictionaries are its state; the schema migrations are an argument.
\<close>

section \<open>Equality of JSON values\<close>

text \<open>Python's \<open>==\<close>: numbers by their value whatever their type, dictionaries whatever their order. NaN equals
  nothing here; the payload of a valid event has none.\<close>

fun py_number :: "json \<Rightarrow> jfloat option" where
  "py_number (JBool b) = Some (Finite (if b then 1 else 0))"
| "py_number (JInt i) = Some (Finite (of_int i))"
| "py_number (JFloat f) = (if f = NaN then None else Some f)"
| "py_number _ = None"

primrec json_eq :: "json \<Rightarrow> json \<Rightarrow> bool" where
  "json_eq JNull y = (y = JNull)"
| "json_eq (JBool b) y = (py_number y = py_number (JBool b))"
| "json_eq (JInt i) y = (py_number y = py_number (JInt i))"
| "json_eq (JFloat f) y = (f \<noteq> NaN \<and> py_number y = py_number (JFloat f))"
| "json_eq (JStr s) y = (y = JStr s)"
| "json_eq (JArr xs) y = (case y of JArr ys \<Rightarrow> list_all2 (\<lambda>f y. f y) (map json_eq xs) ys | _ \<Rightarrow> False)"
| "json_eq (JObj d) y =
     (case y of JObj d' \<Rightarrow> length d = length d' \<and>
        list_all (\<lambda>(k, f). case map_of d' k of None \<Rightarrow> False | Some w \<Rightarrow> f w) (map (map_prod id json_eq) d)
      | _ \<Rightarrow> False)"

section \<open>Registration\<close>

text \<open>Topic, event type and schema version.\<close>

type_synonym route = "pystr \<times> pystr \<times> pystr option"

record 'h router =
  rt_handlers :: "(route \<times> 'h) list"
  rt_topic_handlers :: "(pystr \<times> pystr list) list"
  rt_normalize_topic :: "(pystr \<Rightarrow> pystr) option"

definition EventRouter_init :: "(pystr \<Rightarrow> pystr) option \<Rightarrow> 'h router" where
  "EventRouter_init normalize_topic =
     \<lparr>rt_handlers = [], rt_topic_handlers = [], rt_normalize_topic = normalize_topic\<rparr>"

definition normalized :: "'h router \<Rightarrow> pystr \<Rightarrow> pystr" where
  "normalized rt t = (case rt_normalize_topic rt of None \<Rightarrow> t | Some f \<Rightarrow> f t)"

definition register_handler :: "pystr \<Rightarrow> pystr \<Rightarrow> 'h \<Rightarrow> pystr option \<Rightarrow> ('h router, unit) act" where
  "register_handler et topic_name handler version rt =
     (let top = normalized rt topic_name; key = (top, et, version) in
      if map_of (rt_handlers rt) key \<noteq> None then (Inl HandlerAlreadyRegisteredError, rt)
      else (Inr (), rt\<lparr>
        rt_handlers := dict_set key handler (rt_handlers rt),
        rt_topic_handlers := dict_update [] top (List.insert et) (rt_topic_handlers rt)\<rparr>))"

text \<open>The methods \<open>@event_handler\<close> has marked, sorted by name as \<open>inspect.getmembers\<close> returns them.\<close>

record 'h event_method =
  em_event_type :: pystr
  em_event_topic :: "pystr option"
  em_schema_version :: "pystr option"
  em_handler :: 'h

definition event_handler :: "pystr \<Rightarrow> pystr option \<Rightarrow> pystr option \<Rightarrow> 'h \<Rightarrow> 'h event_method" where
  "event_handler et topic_name version method =
     \<lparr>em_event_type = et, em_event_topic = topic_name, em_schema_version = version, em_handler = method\<rparr>"

text \<open>An instance of a handler class: its \<open>topic\<close> attribute, if it has one, and its marked methods.\<close>

record 'h event_handlers =
  eh_topic :: "pystr option"
  eh_methods :: "'h event_method list"

fun register_methods :: "pystr \<Rightarrow> 'h event_method list \<Rightarrow> ('h router, unit) act" where
  "register_methods class_topic [] = ret ()"
| "register_methods class_topic (m # ms) =
     andthen (register_handler (em_event_type m) (get_or (em_event_topic m) class_topic) (em_handler m)
       (em_schema_version m)) (\<lambda>_. register_methods class_topic ms)"

definition register_instance :: "'h event_handlers \<Rightarrow> pystr option \<Rightarrow> ('h router, unit) act" where
  "register_instance i topic_name =
     (case (case eh_topic i of None \<Rightarrow> topic_name | Some t \<Rightarrow> Some t) of
        Some (c # cs) \<Rightarrow> register_methods (c # cs) (eh_methods i)
      | _ \<Rightarrow> throw ValueError)"

definition register_class :: "'h event_handlers res \<Rightarrow> pystr option \<Rightarrow> ('h router, unit) act" where
  "register_class new_instance topic_name = andthen (lift_res new_instance) (\<lambda>i. register_instance i topic_name)"

definition get_topics :: "'h router \<Rightarrow> pystr set" where
  "get_topics rt = fst ` set (rt_topic_handlers rt)"

definition get_event_types_for_topic :: "'h router \<Rightarrow> pystr \<Rightarrow> pystr set" where
  "get_event_types_for_topic rt topic_name = set (get_or (map_of (rt_topic_handlers rt) topic_name) [])"

section \<open>Dispatch\<close>

text \<open>The loop over the handlers for another version of the event: the first one whose migration changes the
  payload. An exception of a migration is logged and the loop goes on.\<close>

fun migrate_for :: "(pystr \<times> type_migrations) list \<Rightarrow> pystr \<Rightarrow> inbox_event \<Rightarrow> (route \<times> 'h) list \<Rightarrow>
    (inbox_event \<times> 'h) option res" where
  "migrate_for migrations topic_str e [] = Inr None"
| "migrate_for migrations topic_str e (((t, et, v), h) # hs) =
     (if t = topic_str \<and> et = event_type e \<and> v \<noteq> schema_version e
      then case migrate_payload migrations (event_type e) (payload e) (schema_version e) (get_or v []) of
          Inl err \<Rightarrow> if is_exception err then migrate_for migrations topic_str e hs else Inl err
        | Inr migrated_payload \<Rightarrow>
            if json_eq (JObj migrated_payload) (JObj (payload e)) then migrate_for migrations topic_str e hs
            else Inr (Some (e\<lparr>payload := migrated_payload, schema_version := v\<rparr>, h))
      else migrate_for migrations topic_str e hs)"

definition select_handler :: "'h router \<Rightarrow> (pystr \<times> type_migrations) list \<Rightarrow> inbox_event \<Rightarrow> pystr \<Rightarrow>
    (inbox_event \<times> 'h) option res" where
  "select_handler rt migrations e topic_name =
     (let topic_str = normalized rt topic_name in
      case map_of (rt_handlers rt) (topic_str, event_type e, schema_version e) of
        Some h \<Rightarrow> Inr (Some (e, h))
      | None \<Rightarrow>
          bindr (migrate_for migrations topic_str e (rt_handlers rt)) (\<lambda>m.
          case m of
            Some eh \<Rightarrow> Inr (Some eh)
          | None \<Rightarrow> Inr (map_option (Pair e) (map_of (rt_handlers rt) (topic_str, event_type e, None)))))"

text \<open>The result of an event nobody handles, with the text of the message made of the topic, the type and the
  version by \<open>repr\<close>.\<close>

definition no_handler :: "(pystr \<Rightarrow> pystr \<Rightarrow> pystr option \<Rightarrow> pystr) \<Rightarrow> pystr \<Rightarrow> inbox_event \<Rightarrow> handler_result" where
  "no_handler message topic_str e =
     \<lparr>res_success = False, res_processed = True, res_status = None,
      res_error_message = Some (message topic_str (event_type e) (schema_version e)),
      res_count_as_attempt = True, res_next_retry_at = None\<rparr>"

definition dispatch :: "('db, inbox_event) handler router \<Rightarrow> (pystr \<times> type_migrations) list \<Rightarrow>
    (pystr \<Rightarrow> pystr \<Rightarrow> pystr option \<Rightarrow> pystr) \<Rightarrow> inbox_event \<Rightarrow> pystr \<Rightarrow> ('db, handler_result) act" where
  "dispatch rt migrations message e topic_name =
     andthen (lift_res (select_handler rt migrations e topic_name)) (\<lambda>chosen.
     case chosen of
       None \<Rightarrow> ret (no_handler message (normalized rt topic_name) e)
     | Some (e', handler) \<Rightarrow> andthen (handler e') (\<lambda>raw. ret (coerce_handler_outcome raw)))"

definition create_dispatching_handler :: "('db, inbox_event) handler router \<Rightarrow> (pystr \<times> type_migrations) list \<Rightarrow>
    (pystr \<Rightarrow> pystr \<Rightarrow> pystr option \<Rightarrow> pystr) \<Rightarrow> ('db, inbox_event) handler" where
  "create_dispatching_handler rt migrations message e =
     andthen (dispatch rt migrations message e (source e)) (\<lambda>r. ret (Some r))"

definition create_dispatching_processor :: "('db, unit inbox_event_ext) event_repository \<Rightarrow>
    (pystr \<Rightarrow> pystr \<Rightarrow> uuid \<Rightarrow> ('db, bool) act) option \<Rightarrow> ('db, inbox_event) handler router \<Rightarrow>
    (pystr \<times> type_migrations) list \<Rightarrow> (pystr \<Rightarrow> pystr \<Rightarrow> pystr option \<Rightarrow> pystr) \<Rightarrow> bool \<Rightarrow>
    pystr list option \<Rightarrow> pystr \<Rightarrow> rat \<Rightarrow> rat \<Rightarrow> (error \<Rightarrow> pystr) \<Rightarrow> (error \<Rightarrow> pystr) \<Rightarrow>
    ('db, unit inbox_event_ext) factory_options \<Rightarrow> ('db, unit inbox_event_ext) processor res" where
  "create_dispatching_processor repo sibling_check rt migrations message skip_duplicate_siblings filter_sources
       timeout_text base cap err_text err_name opts =
     create_inbox_processor repo sibling_check (create_dispatching_handler rt migrations message)
       skip_duplicate_siblings filter_sources timeout_text base cap err_text err_name opts"

end
