(* ===== verification/DispatchProps.thy ===== *)
theory DispatchProps
  imports Dispatch Lifecycle
begin

text \<open>
  What the schema registry and the router promise: \<open>resolve\<close> takes the longest registered prefix of a
  version, \<open>migrate_payload\<close> the result of a shortest chain of migrations, and a handler is called only with
  an event of the version it is registered for, unless it is registered for any.
\<close>

section \<open>Prefixes of versions\<close>

lemma split_dots_not_Nil [simp]: "split_dots s \<noteq> []"
  by (induction s) (auto split: list.split)

lemma join_dots_Cons: "ps \<noteq> [] \<Longrightarrow> join_dots (p # ps) = p @ 46 # join_dots ps"
  by (cases ps) simp_all

lemma join_split_dots [simp]: "join_dots (split_dots s) = s"
proof (induction s)
  case (Cons c s)
  then show ?case
  proof (cases "split_dots s")
    case (Cons p ps)
    then show ?thesis
      using Cons.IH by (cases ps) (auto simp: join_dots_Cons)
  qed simp
qed simp

lemma split_dots_append: "split_dots (s @ 46 # r) = split_dots s @ split_dots r"
  by (induction s) (auto split: list.split)

lemma join_dots_append: "ps \<noteq> [] \<Longrightarrow> qs \<noteq> [] \<Longrightarrow> join_dots (ps @ qs) = join_dots ps @ 46 # join_dots qs"
  by (induction ps rule: join_dots.induct) (simp_all add: join_dots_Cons)

text \<open>A version is a prefix of another when it is it, or a dot follows.\<close>

definition version_prefix :: "pystr \<Rightarrow> pystr \<Rightarrow> bool" where
  "version_prefix p v \<longleftrightarrow> p = v \<or> (\<exists>r. v = p @ 46 # r)"

lemma set_version_prefixes: "set (version_prefixes v) = {p. version_prefix p v}"
proof -
  let ?parts = "split_dots v"
  have "version_prefix (join_dots (take i ?parts)) v" if "0 < i" for i
  proof (cases "i < length ?parts")
    case True
    then show ?thesis
      using that join_dots_append [of "take i ?parts" "drop i ?parts"] by (auto simp: version_prefix_def)
  qed (simp add: version_prefix_def)
  moreover have "\<exists>i. 0 < i \<and> i \<le> length ?parts \<and> p = join_dots (take i ?parts)" if "version_prefix p v" for p
    using that unfolding version_prefix_def
  proof
    assume "\<exists>r. v = p @ 46 # r"
    then obtain r where "?parts = split_dots p @ split_dots r"
      by (auto simp: split_dots_append)
    then show ?thesis
      by (intro exI [of _ "length (split_dots p)"]) simp
  qed (auto intro!: exI [of _ "length ?parts"])
  moreover have "set (version_prefixes v) = (\<lambda>i. join_dots (take i ?parts)) ` {i. 0 < i \<and> i \<le> length ?parts}"
    by (auto simp: version_prefixes_def Let_def Suc_le_eq less_Suc_eq_le simp del: upt_Suc)
  ultimately show ?thesis
    by (intro set_eqI iffI) (fastforce, fastforce simp only: image_iff mem_Collect_eq)
qed

lemma version_prefixes_decreasing: "sorted_wrt (\<lambda>p q. length q < length p) (version_prefixes v)"
proof -
  let ?parts = "split_dots v"
  have grows: "length (join_dots (take i ?parts)) < length (join_dots (take j ?parts))"
    if "0 < i" "i < j" "j \<le> length ?parts" for i j
  proof -
    have "take j ?parts = take i ?parts @ take (j - i) (drop i ?parts)"
      using that by (metis le_add_diff_inverse less_imp_le_nat take_add)
    then show ?thesis
      using that join_dots_append [of "take i ?parts" "take (j - i) (drop i ?parts)"] by auto
  qed
  have "sorted_wrt (\<lambda>i j. j < i) (rev [1..<Suc (length ?parts)])"
    by (simp add: sorted_wrt_rev del: upt_Suc)
  then have "sorted_wrt (\<lambda>i j. length (join_dots (take j ?parts)) < length (join_dots (take i ?parts)))
      (rev [1..<Suc (length ?parts)])"
    by (rule sorted_wrt_mono_rel [rotated]) (simp add: grows del: upt_Suc)
  then show ?thesis
    by (simp add: version_prefixes_def Let_def sorted_wrt_map del: upt_Suc)
qed

lemma first_registered_cases:
  "first_registered tm ps = r \<Longrightarrow> sorted_wrt (\<lambda>p q. length q < length p) ps \<Longrightarrow>
   (case r of Inl err \<Rightarrow> err = SchemaResolutionError \<and> (\<forall>p\<in>set ps. map_of tm p = None)
    | Inr s \<Rightarrow> \<exists>p\<in>set ps. map_of tm p = Some s \<and> (\<forall>q\<in>set ps. map_of tm q \<noteq> None \<longrightarrow> length q \<le> length p))"
proof (induction tm ps rule: first_registered.induct)
  case (2 tm p ps)
  show ?case
  proof (cases "map_of tm p")
    case None
    with 2 show ?thesis by (cases r) auto
  next
    case (Some s)
    with 2(2) have "r = Inr s" by simp
    moreover have "length q \<le> length p" if "q \<in> set (p # ps)" for q
      using that 2(3) by auto
    ultimately show ?thesis
      using Some by (auto intro!: bexI [of _ p])
  qed
qed auto

text \<open>\<open>resolve\<close> returns the schema registered for the longest prefix of the version, cut at a dot, that is
  registered for the event type, and raises exactly when there is none.\<close>

theorem resolve_longest_prefix:
  "case resolve reg etype (Some v) of
     Inl err \<Rightarrow> err = SchemaResolutionError \<and>
       (\<forall>p. version_prefix p v \<longrightarrow> map_of (get_or (map_of reg etype) []) p = None)
   | Inr s \<Rightarrow> \<exists>p. version_prefix p v \<and> map_of (get_or (map_of reg etype) []) p = Some s \<and>
       (\<forall>q. version_prefix q v \<and> map_of (get_or (map_of reg etype) []) q \<noteq> None \<longrightarrow> length q \<le> length p)"
proof (cases "map_of reg etype")
  case None
  then show ?thesis by (simp add: resolve_def)
next
  case (Some tm)
  have "resolve reg etype (Some v) = first_registered tm (version_prefixes v)" if "tm \<noteq> []"
    using Some that by (simp add: resolve_def)
  moreover have "resolve reg etype (Some v) = Inl SchemaResolutionError" if "tm = []"
    using Some that by (simp add: resolve_def)
  ultimately show ?thesis
    using first_registered_cases [of tm "version_prefixes v", OF refl version_prefixes_decreasing] Some
    by (cases "tm = []") (auto simp: set_version_prefixes split: sum.splits)
qed

section \<open>Chains of migrations\<close>

inductive migrates :: "type_migrations \<Rightarrow> pystr \<Rightarrow> jdict \<Rightarrow> nat \<Rightarrow> pystr \<Rightarrow> jdict \<Rightarrow> bool"
  for tm v p where
  migrates_refl: "migrates tm v p 0 v p"
| migrates_step: "migrates tm v p n w q \<Longrightarrow> ((w, x), f) \<in> set tm \<Longrightarrow> f q = Inr r \<Longrightarrow> migrates tm v p (Suc n) x r"

definition links :: "type_migrations \<Rightarrow> (pystr \<times> pystr) set" where
  "links tm = fst ` set tm"

lemma linksI: "((v, w), f) \<in> set tm \<Longrightarrow> (v, w) \<in> links tm"
  by (force simp: links_def)

lemma linksE: "(v, w) \<in> links tm \<Longrightarrow> (\<And>f. ((v, w), f) \<in> set tm \<Longrightarrow> P) \<Longrightarrow> P"
  by (force simp: links_def)

lemma migrates_links: "migrates tm v p n w q \<Longrightarrow> (v, w) \<in> links tm ^^ n"
  by (induction rule: migrates.induct) (auto intro: linksI)

lemma scan_found:
  "scan_migrations target v p ms visited queue = Inr (Inl q) \<Longrightarrow> \<exists>f. ((v, target), f) \<in> set ms \<and> f p = Inr q"
proof (induction target v p ms visited queue rule: scan_migrations.induct)
  case (2 target v p a w f ms visited queue)
  then show ?case by (auto simp: res_simps split: if_splits)
qed simp

lemma scan_fails:
  "scan_migrations target v p ms visited queue = Inl err \<Longrightarrow> \<exists>w f. ((v, w), f) \<in> set ms \<and> f p = Inl err"
proof (induction target v p ms visited queue rule: scan_migrations.induct)
  case (2 target v p a w f ms visited queue)
  then show ?case by (auto simp: res_simps split: if_splits) blast+
qed simp

text \<open>The search goes level by level: the front of the queue was reached in \<open>n\<close> migrations, the rest in one more
  and not in fewer, every version within \<open>n\<close> has been seen, and what follows a version that has left the
  queue has been seen too.\<close>

definition level :: "type_migrations \<Rightarrow> pystr \<Rightarrow> jdict \<Rightarrow> pystr \<Rightarrow> pystr set \<Rightarrow> nat \<Rightarrow> (pystr \<times> jdict) list \<Rightarrow>
    (pystr \<times> jdict) list \<Rightarrow> bool" where
  "level tm v0 p0 target visited n front rear \<longleftrightarrow> target \<notin> visited \<and>
     (\<forall>(v, p)\<in>set front. migrates tm v0 p0 n v p) \<and>
     (\<forall>(v, p)\<in>set rear. migrates tm v0 p0 (Suc n) v p \<and> (\<forall>k\<le>n. (v0, v) \<notin> links tm ^^ k)) \<and>
     (\<forall>k\<le>n. \<forall>v. (v0, v) \<in> links tm ^^ k \<longrightarrow> v \<in> visited) \<and>
     (\<forall>v\<in>visited. v \<in> fst ` set (front @ rear) \<or> (\<forall>w. (v, w) \<in> links tm \<longrightarrow> w \<in> visited))"

lemma level_advance:
  assumes "level tm v0 p0 target visited n [] rest"
  shows "level tm v0 p0 target visited (Suc n) rest []"
proof -
  have "w \<in> visited" if reach: "(v0, w) \<in> links tm ^^ Suc n" for w
  proof -
    obtain v where v: "(v0, v) \<in> links tm ^^ n" "(v, w) \<in> links tm"
      using relpow_Suc_E [OF reach] by blast
    have "v \<in> visited"
      using assms v(1) unfolding level_def by blast
    moreover have "v \<notin> fst ` set rest"
      using assms v(1) by (auto simp: level_def)
    ultimately show ?thesis
      using assms v(2) unfolding level_def append_Nil by blast
  qed
  then show ?thesis
    using assms by (auto simp: level_def le_Suc_eq simp del: relpow.simps)
qed

lemma level_scan:
  assumes "level tm v0 p0 target (set visited) n ((v, p) # front) rear"
    and "scan_migrations target v p tm visited (front @ rear) = Inr (Inr (visited', queue'))"
  shows "\<exists>new. queue' = front @ rear @ new \<and> level tm v0 p0 target (set visited') n front (rear @ new)"
proof -
  obtain new where new: "visited' = visited @ map fst new" "queue' = (front @ rear) @ new"
      "\<forall>(w, q)\<in>set new. w \<notin> set visited \<and> w \<noteq> target \<and> (\<exists>f. ((v, w), f) \<in> set tm \<and> f p = Inr q)"
      "\<forall>w f. ((v, w), f) \<in> set tm \<longrightarrow> w \<in> set visited'"
    using scan_Continue [OF assms(2)] by blast
  have L: "target \<notin> set visited" "migrates tm v0 p0 n v p"
    "\<forall>(v, p)\<in>set front. migrates tm v0 p0 n v p"
    "\<forall>(v, p)\<in>set rear. migrates tm v0 p0 (Suc n) v p \<and> (\<forall>k\<le>n. (v0, v) \<notin> links tm ^^ k)"
    "\<forall>k\<le>n. \<forall>v. (v0, v) \<in> links tm ^^ k \<longrightarrow> v \<in> set visited"
    "\<forall>u\<in>set visited. u = v \<or> u \<in> fst ` set (front @ rear) \<or> (\<forall>w. (u, w) \<in> links tm \<longrightarrow> w \<in> set visited)"
    using assms(1) by (simp_all add: level_def)
  have "\<forall>(w, q)\<in>set new. migrates tm v0 p0 (Suc n) w q \<and> (\<forall>k\<le>n. (v0, w) \<notin> links tm ^^ k)"
  proof (intro ballI, clarify)
    fix w q
    assume "(w, q) \<in> set new"
    with new(3) have w: "w \<notin> set visited" and "\<exists>f. ((v, w), f) \<in> set tm \<and> f p = Inr q"
      by auto
    then have "migrates tm v0 p0 (Suc n) w q"
      by (auto intro: migrates_step [OF L(2)])
    with w L(5) show "migrates tm v0 p0 (Suc n) w q \<and> (\<forall>k\<le>n. (v0, w) \<notin> links tm ^^ k)"
      by metis
  qed
  moreover have "\<forall>w. (v, w) \<in> links tm \<longrightarrow> w \<in> set visited'"
    using new(4) by (metis linksE)
  moreover have "target \<notin> set visited'"
    using new(1,3) L(1) by auto
  moreover have "\<forall>u\<in>set visited'. u \<in> fst ` set (front @ rear @ new) \<or> (\<forall>w. (u, w) \<in> links tm \<longrightarrow> w \<in> set visited')"
    using L(6) calculation(2) new(1) by auto
  ultimately have "level tm v0 p0 target (set visited') n front (rear @ new)"
    using L(3-5) new(1) by (auto simp: level_def)
  with new(2) show ?thesis by auto
qed

definition migrated :: "type_migrations \<Rightarrow> pystr \<Rightarrow> jdict \<Rightarrow> pystr \<Rightarrow> jdict res \<Rightarrow> bool" where
  "migrated tm v p target r \<longleftrightarrow>
     (case r of
        Inl err \<Rightarrow> \<exists>n w q x f. migrates tm v p n w q \<and> ((w, x), f) \<in> set tm \<and> f q = Inl err
      | Inr q \<Rightarrow> (\<exists>n. migrates tm v p n target q \<and> (\<forall>k. (v, target) \<in> links tm ^^ k \<longrightarrow> n \<le> k)) \<or>
          q = p \<and> (v, target) \<notin> (links tm)\<^sup>*)"

lemma migrated_Inl:
  "migrates tm v p n w q \<Longrightarrow> ((w, x), f) \<in> set tm \<Longrightarrow> f q = Inl err \<Longrightarrow> migrated tm v p target (Inl err)"
  unfolding migrated_def sum.case by blast

lemma search_migrated:
  "level tm v0 p0 target (set visited) n front rear \<Longrightarrow> queue = front @ rear \<Longrightarrow>
   migrated tm v0 p0 target (search_migrations tm target p0 visited queue)"
proof (induction tm target p0 visited queue arbitrary: n front rear rule: search_migrations.induct)
  case (1 tm target p0 visited)
  have closed: "u \<in> set visited" if "(v0, u) \<in> (links tm)\<^sup>*" for u
    using that
  proof induction
    case base
    show ?case
      using 1 by (auto simp: level_def dest: spec [of _ 0])
  next
    case (step y z)
    with 1 show ?case by (auto simp: level_def)
  qed
  with 1 show ?case
    by (auto simp: migrated_def level_def)
next
  case (2 tm target p0 visited v p queue)
  obtain m front' rear' where lev: "level tm v0 p0 target (set visited) m ((v, p) # front') rear'" and q: "queue = front' @ rear'"
  proof (cases front)
    case Nil
    then show ?thesis
      using that [of "Suc n" queue "[]"] level_advance [of tm v0 p0 target "set visited" n rear] 2(2,3) by simp
  next
    case (Cons x xs)
    then show ?thesis
      using that [of n xs rear] 2(2,3) by simp
  qed
  have head: "migrates tm v0 p0 m v p"
    using lev by (simp add: level_def)
  show ?case
  proof (cases "scan_migrations target v p tm visited queue")
    case (Inl err)
    with scan_fails [OF Inl] head show ?thesis
      by (auto intro: migrated_Inl)
  next
    case (Inr y)
    show ?thesis
    proof (cases y)
      case found: (Inl r)
      obtain f where f: "((v, target), f) \<in> set tm" "f p = Inr r"
        using scan_found [of target v p tm visited queue r] Inr found by auto
      have "Suc m \<le> k" if "(v0, target) \<in> links tm ^^ k" for k
        using that lev by (auto simp: level_def not_less_eq_eq [symmetric])
      with migrates_step [OF head f] show ?thesis
        using Inr found by (auto simp: migrated_def)
    next
      case more: (Inr vq)
      obtain visited' queue' where vq: "vq = (visited', queue')" by fastforce
      obtain new where "queue' = front' @ rear' @ new" "level tm v0 p0 target (set visited') m front' (rear' @ new)"
        using level_scan [OF lev] Inr more vq q by auto
      with 2(1) [OF Inr more vq [symmetric]] show ?thesis
        using Inr more vq by simp
    qed
  qed
qed

lemma migrate_chain:
  assumes "map_of migrations etype = Some tm" and "v \<noteq> []" and "v \<noteq> target"
  shows "migrated tm v p target (migrate_payload migrations etype p (Some v) target)"
proof (cases "map_of tm (v, target)")
  case None
  have "level tm v p target (set [v]) 0 [(v, p)] []"
    using assms(3) by (auto simp: level_def intro: migrates_refl)
  then have s: "migrated tm v p target (search_migrations tm target p [v] [(v, p)])"
    by (rule search_migrated) simp
  show ?thesis
  proof (cases "tm = []")
    case True
    then have "(v, target) \<notin> (links tm)\<^sup>*"
      using assms(3) by (simp add: links_def)
    then show ?thesis
      using assms True by (simp add: migrate_payload_def migrated_def)
  next
    case False
    with assms None s show ?thesis by (simp add: migrate_payload_def)
  qed
next
  case (Some f)
  then have f: "((v, target), f) \<in> set tm" by (rule map_of_SomeD)
  have "1 \<le> k" if "(v, target) \<in> links tm ^^ k" for k
    using that assms(3) by (cases k) auto
  then have "migrated tm v p target (f p)"
  proof (cases "f p")
    case (Inl err)
    with migrates_refl [of tm v p] f show ?thesis
      by (auto intro: migrated_Inl)
  next
    case (Inr r)
    with migrates_step [OF migrates_refl f Inr] \<open>\<And>k. (v, target) \<in> links tm ^^ k \<Longrightarrow> 1 \<le> k\<close> show ?thesis
      by (auto simp: migrated_def)
  qed
  with assms Some f show ?thesis
    by (auto simp: migrate_payload_def)
qed

text \<open>C21. Between two versions \<open>migrate_payload\<close> returns the payload migrated along a shortest chain of
  registered migrations, or the payload as it is exactly when no chain leads to the target; when it raises,
  a migration that can be reached raised.\<close>

theorem migrate_payload_shortest:
  assumes "map_of migrations etype = Some tm" and "v \<noteq> []" and "v \<noteq> target"
  shows "migrated tm v p target (migrate_payload migrations etype p (Some v) target)"
  using assms by (rule migrate_chain)

section \<open>Routing\<close>

lemma register_handler_distinct:
  "register_handler et t h v rt = (r, rt') \<Longrightarrow> distinct (map fst (rt_handlers rt)) \<Longrightarrow> distinct (map fst (rt_handlers rt'))"
  by (auto simp: register_handler_def Let_def dict_set_distinct split: if_splits)

lemma migrate_payload_chain:
  assumes "migrate_payload migrations etype p v target = Inr q" and "q \<noteq> p"
  obtains tm v' n where "map_of migrations etype = Some tm" and "v = Some v'" and "v' \<noteq> []"
    and "migrates tm v' p n target q"
proof -
  obtain v' tm where "v = Some v'" "v' \<noteq> []" "v' \<noteq> target" "map_of migrations etype = Some tm"
    using assms by (auto simp: migrate_payload_def split: if_splits option.splits)
  moreover from this have "migrated tm v' p target (Inr q)"
    using migrate_chain [of migrations etype tm v' target p] assms(1) by simp
  ultimately show ?thesis
    using that assms(2) by (auto simp: migrated_def)
qed

definition called_with :: "(pystr \<times> type_migrations) list \<Rightarrow> inbox_event \<Rightarrow> pystr option \<Rightarrow> inbox_event \<Rightarrow> bool" where
  "called_with migrations e version e' \<longleftrightarrow>
     e' = e \<and> (version = schema_version e \<or> version = None) \<or>
     (\<exists>tm v n q. map_of migrations (event_type e) = Some tm \<and> schema_version e = Some v \<and>
       migrates tm v (payload e) n (get_or version []) q \<and> e' = e\<lparr>payload := q, schema_version := version\<rparr>)"

lemma migrate_for_cases:
  "migrate_for migrations topic_str e hs = r \<Longrightarrow> json_eq (JObj (payload e)) (JObj (payload e)) \<Longrightarrow>
   (case r of
      Inl err \<Rightarrow> \<not> is_exception err
    | Inr None \<Rightarrow> True
    | Inr (Some (e', h)) \<Rightarrow> \<exists>v. ((topic_str, event_type e, v), h) \<in> set hs \<and> called_with migrations e v e')"
proof (induction migrations topic_str e hs rule: migrate_for.induct)
  case (2 migrations topic_str e t et v h hs)
  let ?m = "migrate_payload migrations (event_type e) (payload e) (schema_version e) (get_or v [])"
  show ?case
  proof (cases "t = topic_str \<and> et = event_type e \<and> v \<noteq> schema_version e")
    case False
    with 2(3-5) show ?thesis by (auto split: sum.splits option.splits)
  next
    case True
    show ?thesis
    proof (cases ?m)
      case (Inl err)
      with 2(1) [OF True Inl] 2(4,5) True show ?thesis
        by (auto split: sum.splits option.splits if_splits)
    next
      case (Inr q)
      show ?thesis
      proof (cases "json_eq (JObj q) (JObj (payload e))")
        case eq: True
        with 2(2) [OF True Inr eq] 2(4,5) True Inr show ?thesis
          by (auto split: sum.splits option.splits)
      next
        case False
        with 2(5) have "q \<noteq> payload e" by auto
        then obtain tm v' n where "map_of migrations (event_type e) = Some tm" "schema_version e = Some v'"
          "migrates tm v' (payload e) n (get_or v []) q"
          using migrate_payload_chain [OF Inr] by blast
        then have "called_with migrations e v (e\<lparr>payload := q, schema_version := v\<rparr>)"
          by (auto simp: called_with_def)
        with True Inr False 2(4) show ?thesis by auto
      qed
    qed
  qed
qed auto

text \<open>C22. \<open>dispatch\<close> calls at most one handler, one registered for the normalised topic and the type of the event,
  with the event as it is when it is registered for the event's version or for any, and otherwise with the
  event moved to the handler's version, its payload the result of a chain of registered migrations from the
  event's version. The handler of the exact version comes first. It calls none exactly when it reports so,
  and then there is no handler for the exact version and none for any; or when something that is not an
  \<open>Exception\<close> left a migration.\<close>

theorem dispatch_runs_matching_handler:
  assumes "distinct (map fst (rt_handlers rt))" and "json_eq (JObj (payload e)) (JObj (payload e))"
    and "dispatch rt migrations message e topic_name db = (r, db')"
  shows "(\<exists>h version e' x. map_of (rt_handlers rt) (normalized rt topic_name, event_type e, version) = Some h \<and>
      called_with migrations e version e' \<and> h e' db = (x, db') \<and>
      r = bindr x (\<lambda>raw. Inr (coerce_handler_outcome raw)) \<and>
      (map_of (rt_handlers rt) (normalized rt topic_name, event_type e, schema_version e) \<noteq> None \<longrightarrow>
        version = schema_version e \<and> e' = e)) \<or>
    db' = db \<and> map_of (rt_handlers rt) (normalized rt topic_name, event_type e, schema_version e) = None \<and>
      (r = Inr (no_handler message (normalized rt topic_name) e) \<and>
        map_of (rt_handlers rt) (normalized rt topic_name, event_type e, None) = None \<or>
       (\<exists>err. r = Inl err \<and> \<not> is_exception err))"
    (is "?called \<or> ?none")
proof -
  let ?t = "normalized rt topic_name" and ?H = "rt_handlers rt"
  have call: "r = bindr x (\<lambda>raw. Inr (coerce_handler_outcome raw)) \<and> db' = d"
    if "select_handler rt migrations e topic_name = Inr (Some (e', h))" "h e' db = (x, d)" for e' h x d
    using assms(3) that by (cases x) (auto simp: dispatch_def andthen_def)
  show ?thesis
  proof (cases "map_of ?H (?t, event_type e, schema_version e)")
    case (Some h)
    then have "select_handler rt migrations e topic_name = Inr (Some (e, h))"
      by (simp add: select_handler_def Let_def)
    moreover obtain x d where "h e db = (x, d)"
      by fastforce
    ultimately show ?thesis
      using call Some by (auto simp: called_with_def)
  next
    case exact: None
    note sel = select_handler_def [of rt migrations e topic_name, unfolded Let_def exact option.case]
    note cases = migrate_for_cases [where migrations = migrations and topic_str = ?t and hs = ?H, OF refl assms(2)]
    show ?thesis
    proof (cases "migrate_for migrations ?t e ?H")
      case (Inl err)
      with sel cases assms(3) exact show ?thesis
        by (auto simp: dispatch_def andthen_def)
    next
      case (Inr m)
      show ?thesis
      proof (cases m)
        case (Some eh)
        obtain e' h where eh: "eh = (e', h)" by fastforce
        then obtain v where v: "((?t, event_type e, v), h) \<in> set ?H" "called_with migrations e v e'"
          using cases Inr Some by auto
        moreover have "map_of ?H (?t, event_type e, v) = Some h"
          using v(1) assms(1) by simp
        moreover obtain x d where "h e' db = (x, d)"
          by fastforce
        ultimately show ?thesis
          using call [of e' h x d] sel Inr Some eh exact by auto
      next
        case None
        show ?thesis
        proof (cases "map_of ?H (?t, event_type e, None)")
          case None
          with \<open>m = None\<close> Inr sel assms(3) exact show ?thesis
            by (auto simp: dispatch_def andthen_def)
        next
          case (Some h)
          obtain x d where "h e db = (x, d)"
            by fastforce
          with call [of e h x d] \<open>m = None\<close> Some Inr sel exact
          have "h e db = (x, db')" "r = bindr x (\<lambda>raw. Inr (coerce_handler_outcome raw))"
            by auto
          moreover have "called_with migrations e None e"
            by (simp add: called_with_def)
          ultimately have ?called
            using Some exact by blast
          then show ?thesis ..
        qed
      qed
    qed
  qed
qed

section \<open>Concrete runs\<close>

theorem resolve_longest_prefix_witness:
  "resolve [(lit ''t'', [(lit ''1'', 1), (lit ''1.2'', 2)])] (lit ''t'') (Some (lit ''1.2.3'')) = Inr (2::nat) \<and>
   version_prefix (lit ''1.2'') (lit ''1.2.3'')"
proof -
  let ?reg = "[(lit ''t'', [(lit ''1'', 1), (lit ''1.2'', 2::nat)])]"
  have p: "version_prefix (lit ''1.2'') (lit ''1.2.3'')"
    by (auto simp: version_prefix_def lit_def)
  have m: "map_of (get_or (map_of ?reg (lit ''t'')) []) (lit ''1.2'') = Some 2"
    by (simp add: lit_def)
  show ?thesis
  proof (cases "resolve ?reg (lit ''t'') (Some (lit ''1.2.3''))")
    case (Inl err)
    with resolve_longest_prefix [where reg = ?reg and etype = "lit ''t''" and v = "lit ''1.2.3''"] p m show ?thesis by auto
  next
    case (Inr s)
    then obtain q where q: "map_of (get_or (map_of ?reg (lit ''t'')) []) q = Some s" "length (lit ''1.2'') \<le> length q"
      using resolve_longest_prefix [where reg = ?reg and etype = "lit ''t''" and v = "lit ''1.2.3''"] p m by auto
    then have "s = 2"
      by (auto simp: lit_def split: if_splits)
    with Inr p show ?thesis by simp
  qed
qed

text \<open>Versions a, b, c, d with a detour that fails.\<close>

definition sample_migrations :: "(pystr \<times> type_migrations) list" where
  "sample_migrations = register_migration (lit ''t'') (lit ''a'') (lit ''c'') (\<lambda>p. Inr [(lit ''v'', JInt 3)])
     (register_migration (lit ''t'') (lit ''c'') (lit ''d'') (\<lambda>p. Inr (p @ [(lit ''w'', JInt 4)])) [])"

lemma sample_migrations_map: "map_of sample_migrations (lit ''t'') =
   Some [((lit ''c'', lit ''d''), \<lambda>p. Inr (p @ [(lit ''w'', JInt 4)])), ((lit ''a'', lit ''c''), \<lambda>p. Inr [(lit ''v'', JInt 3)])]"
  by (simp add: sample_migrations_def register_migration_def dict_update_def lit_def)

theorem migrate_payload_shortest_witness:
  "\<exists>tm n q. migrate_payload sample_migrations (lit ''t'') [] (Some (lit ''a'')) (lit ''d'') = Inr q \<and> q \<noteq> [] \<and>
     migrates tm (lit ''a'') [] n (lit ''d'') q"
proof -
  have "migrate_payload sample_migrations (lit ''t'') [] (Some (lit ''a'')) (lit ''d'') =
      Inr [(lit ''v'', JInt 3), (lit ''w'', JInt 4)]"
    by (simp add: migrate_payload_def sample_migrations_map) (simp add: lit_def)
  moreover have "lit ''a'' \<noteq> []" "lit ''a'' \<noteq> lit ''d''"
    by (simp_all add: lit_def)
  ultimately show ?thesis
    using migrate_payload_shortest [OF sample_migrations_map, of "lit ''a''" "lit ''d''" "[]"]
    by (auto simp: migrated_def)
qed

definition versioned_event :: inbox_event where
  "versioned_event = sample_inbox_event\<lparr>payload := [], schema_version := Some (lit ''a'')\<rparr>"

definition sample_router :: "(jdict list, inbox_event) handler router" where
  "sample_router = snd (register_handler (lit ''t'') (lit ''s'') (\<lambda>e d. (Inr None, d @ [payload e])) (Some (lit ''d''))
     (EventRouter_init None))"

lemma sample_router_handlers: "rt_handlers sample_router = [((lit ''s'', lit ''t'', Some (lit ''d'')), \<lambda>e d. (Inr None, d @ [payload e]))]"
  "normalized sample_router t = t"
  by (simp_all add: sample_router_def register_handler_def EventRouter_init_def normalized_def Let_def)

theorem dispatch_runs_matching_handler_witness:
  "\<exists>r e'. dispatch sample_router sample_migrations (\<lambda>_ _ _. []) versioned_event (lit ''s'') [] = (Inr r, [payload e']) \<and>
     called_with sample_migrations versioned_event (Some (lit ''d'')) e'"
proof -
  have e: "event_type versioned_event = lit ''t''" "schema_version versioned_event = Some (lit ''a'')" "payload versioned_event = []"
    by (simp_all add: versioned_event_def sample_inbox_event_def)
  obtain r db where d: "dispatch sample_router sample_migrations (\<lambda>_ _ _. []) versioned_event (lit ''s'') [] = (r, db)"
    by fastforce
  have "migrate_payload sample_migrations (lit ''t'') [] (Some (lit ''a'')) (lit ''d'') =
      Inr [(lit ''v'', JInt 3), (lit ''w'', JInt 4)]"
    by (simp add: migrate_payload_def sample_migrations_map) (simp add: lit_def)
  then have "db \<noteq> []"
    using d e by (auto simp: dispatch_def andthen_def select_handler_def sample_router_handlers Let_def lit_def [of "''a''"]
        lit_def [of "''d''"])
  moreover have "lit ''a'' \<noteq> lit ''d''"
    by (simp add: lit_def)
  ultimately show ?thesis
    using dispatch_runs_matching_handler [OF _ _ d] e d
    by (auto simp: sample_router_handlers split: if_splits)
qed

section \<open>What gets in the way\<close>

text \<open>The search runs every migration it meets: one that fails off the way to the target stops it.\<close>

lemma stray_migration_blocks:
  "migrate_payload [(lit ''t'', [((lit ''a'', lit ''b''), \<lambda>_. Inl ValueError), ((lit ''a'', lit ''c''), Inr), ((lit ''c'', lit ''d''), Inr)])]
     (lit ''t'') p (Some (lit ''a'')) (lit ''d'') = Inl ValueError"
  by (simp add: migrate_payload_def lit_def)

text \<open>A migration that changes nothing is taken for none: the event has no handler.\<close>

lemma unchanged_payload_not_dispatched:
  "select_handler sample_router [(lit ''t'', [((lit ''a'', lit ''d''), Inr)])] versioned_event (lit ''s'') = Inr None"
  by (simp add: select_handler_def sample_router_handlers Let_def versioned_event_def sample_inbox_event_def
      migrate_payload_def) (simp add: lit_def)

text \<open>The topics of the handlers are normalised, the one asked for is not.\<close>

lemma asked_topic_not_normalised:
  assumes "f t \<noteq> t" and "register_handler et t h v (EventRouter_init (Some f)) = (r, rt)"
  shows "get_event_types_for_topic rt t = {} \<and> get_event_types_for_topic rt (f t) = {et}"
  using assms by (auto simp: register_handler_def EventRouter_init_def normalized_def get_event_types_for_topic_def
      dict_update_def Let_def List.insert_def split: if_splits)

end
