(* ===== verification/Services.thy ===== *)
theory Services
  imports Processor
begin

text \<open>
  The maintenance service (\<open>core/services/maintenance.py\<close>) over any repository, and the publisher service
  (\<open>application/services/publish.py\<close>), the outbox preset with its defaults. Logging and the semaphore, which
  only delays calls, are left out.
\<close>

section \<open>Maintenance\<close>

text \<open>What the service asks of a repository: its capability flags, and the two methods of
  \<open>SupportsRetentionPolicies\<close>, which it may not have.\<close>

record 'db maintained_repository =
  mr_capabilities :: "repository_capabilities option"
  mr_delete_old_completed :: "(int \<Rightarrow> int \<Rightarrow> ('db, int) act) option"
  mr_release_stale_locks :: "(int \<Rightarrow> ('db, int) act) option"

definition has_retention :: "'db maintained_repository \<Rightarrow> bool" where
  "has_retention M \<longleftrightarrow>
     (case mr_capabilities M of None \<Rightarrow> False | Some c \<Rightarrow> supports_retention c) \<or>
     mr_delete_old_completed M \<noteq> None \<and> mr_release_stale_locks M \<noteq> None"

definition postgres_maintenance :: "('db, 'x base_event_scheme) engine \<Rightarrow> 'x repository \<Rightarrow> 'db maintained_repository" where
  "postgres_maintenance E R = \<lparr>
     mr_capabilities = Some \<lparr>supports_bulk = True, supports_distributed_locking = True, supports_retention = True\<rparr>,
     mr_delete_old_completed = Some (delete_old_completed E),
     mr_release_stale_locks = Some (\<lambda>seconds. release_stale_locks E R seconds 1000)\<rparr>"

text \<open>\<open>int()\<close> of a number of seconds cuts the fraction off.\<close>

definition int_of_seconds :: "rat \<Rightarrow> int" where
  "int_of_seconds s = (if 0 \<le> s then \<lfloor>s\<rfloor> else \<lceil>s\<rceil>)"

definition maintenance_release_stale_locks :: "'db maintained_repository \<Rightarrow> rat \<Rightarrow> ('db, int) act" where
  "maintenance_release_stale_locks M stale_timeout_seconds =
     (if \<not> has_retention M then throw UnsupportedCapabilityError
      else required (mr_release_stale_locks M) (\<lambda>release. release (int_of_seconds stale_timeout_seconds)))"

text \<open>\<open>while iteration < max_iterations\<close>, with \<open>k\<close> iterations to go.\<close>

fun cleanup_loop :: "('db, int) act \<Rightarrow> nat \<Rightarrow> int \<Rightarrow> ('db, int) act" where
  "cleanup_loop delete_batch 0 total_deleted = ret total_deleted"
| "cleanup_loop delete_batch (Suc k) total_deleted =
     andthen delete_batch (\<lambda>deleted_count.
       if deleted_count = 0 then ret total_deleted
       else cleanup_loop delete_batch k (total_deleted + deleted_count))"

definition DEFAULT_CLEANUP_BATCH_SIZE :: int where "DEFAULT_CLEANUP_BATCH_SIZE = 1000"
definition DEFAULT_MAINTENANCE_MAX_ITERATIONS :: int where "DEFAULT_MAINTENANCE_MAX_ITERATIONS = 10000"

definition cleanup_old_events :: "'db maintained_repository \<Rightarrow> int \<Rightarrow> int \<Rightarrow> int \<Rightarrow> ('db, int) act" where
  "cleanup_old_events M retention_days batch_size max_iterations =
     (if \<not> has_retention M then throw UnsupportedCapabilityError
      else if max_iterations \<le> 0 then ret 0
      else required (mr_delete_old_completed M) (\<lambda>delete_old.
        cleanup_loop (delete_old retention_days batch_size) (nat max_iterations) 0))"

section \<open>Publishing\<close>

text \<open>\<open>NoOpOutboxMetrics\<close> and \<open>NoOpInboxMetrics\<close> accept everything.\<close>

definition no_op_metrics :: "observation \<Rightarrow> error option" where
  "no_op_metrics x = None"

definition OutboxPublisher_init :: "('db, unit outbox_event_ext) event_repository \<Rightarrow> ('db, outbox_event) handler \<Rightarrow>
    (observation \<Rightarrow> error option) option \<Rightarrow> pystr \<Rightarrow> rat \<Rightarrow> rat \<Rightarrow> (error \<Rightarrow> pystr) \<Rightarrow> (error \<Rightarrow> pystr) \<Rightarrow>
    ('db, unit outbox_event_ext) processor res" where
  "OutboxPublisher_init repo broker metrics timeout_text base cap err_text err_name =
     create_outbox_processor repo broker timeout_text base cap err_text err_name
       \<lparr>fo_metrics = Some (get_or metrics no_op_metrics), fo_dlq = None, fo_otel = None, fo_breaker = None,
        fo_before = [], fo_after = []\<rparr>"

definition publish_batch :: "('db, unit outbox_event_ext) processor \<Rightarrow> pystr \<Rightarrow> int \<Rightarrow>
    ('db world, bool) act option \<Rightarrow> filters \<Rightarrow> ('db world, batch_result) act" where
  "publish_batch P worker_id batch_size shutdown_requested_func fetch_filters =
     processor_batch P worker_id batch_size shutdown_requested_func fetch_filters"

section \<open>Test support\<close>

text \<open>\<open>assert_outbox_event_created\<close> (\<open>testing/async_utils.py\<close>), with the defaults of its arguments left to the caller.\<close>

definition AssertionError :: error where
  "AssertionError = Raised \<lparr>exn_mro = [''AssertionError'', ''Exception''], exn_text = []\<rparr>"

definition assert_outbox_event_created :: "('db, unit outbox_event_ext) event_repository \<Rightarrow> uuid \<Rightarrow> pystr \<Rightarrow> event_status \<Rightarrow>
    ('db, outbox_event) act" where
  "assert_outbox_event_created repo agg_id etype expected =
     andthen (er_fetch_pending repo 1000 []) (\<lambda>events.
     case List.find (\<lambda>e. aggregate_id e = agg_id \<and> event_type e = etype) events of
       None \<Rightarrow> throw AssertionError
     | Some e \<Rightarrow> if status e = expected then ret e else throw AssertionError)"

end
