(* ===== verification/ServiceProps.thy ===== *)
theory ServiceProps
  imports Services Refinement ConsumerSample
begin

text \<open>
  The maintenance service over PostgreSQL deletes expired completed rows and nothing else, and what the domain
  service creates is a valid, fresh event.
\<close>

section \<open>Cleaning up\<close>

definition expired :: "instant \<Rightarrow> int \<Rightarrow> 'x base_event_scheme \<Rightarrow> bool" where
  "expired now days r \<longleftrightarrow> status r = COMPLETED \<and>
     (\<exists>t. completed_at r = Some t \<and> t < now - days * 86400 * us_per_s)"

lemma selects_size: "selects q held tbl rs \<Longrightarrow> q_limit q = Some k \<Longrightarrow>
    length rs = min (nat k) (size (candidates q held tbl))"
  by (auto simp: selects_def limited_def min.commute dest: arg_cong [of "mset _" _ size])

lemma filter_not: "filter_mset (\<lambda>r. \<not> p r) M = M - filter_mset p M"
  by (induction M) auto

definition cleaned :: "('db, 'x base_event_scheme) engine \<Rightarrow> int \<Rightarrow> 'db \<Rightarrow> 'db \<Rightarrow> 'x base_event_scheme multiset \<Rightarrow> bool" where
  "cleaned E days db db' gone \<longleftrightarrow> same_session E db' db \<and> table_rows E db' = table_rows E db - gone \<and>
     gone \<subseteq># filter_mset (expired (tx_now E db) days) (table_rows E db)"

lemma cleaned_refl: "cleaned E days db db {#}"
  by (simp add: cleaned_def same_session_def)

lemma cleaned_expired:
  assumes "cleaned E days db db' gone"
  shows "filter_mset (expired (tx_now E db') days) (table_rows E db') =
    filter_mset (expired (tx_now E db) days) (table_rows E db) - gone"
proof -
  have "filter_mset (expired (tx_now E db) days) gone = gone"
    using assms mset_subset_eqD [of gone "filter_mset (expired (tx_now E db) days) (table_rows E db)"]
    by (auto simp: cleaned_def filter_mset_eq_conv)
  then show ?thesis
    using assms by (simp add: cleaned_def same_session_def)
qed

lemma cleaned_trans:
  assumes "cleaned E days db db1 gone" and "cleaned E days db1 db2 gone'"
  shows "cleaned E days db db2 (gone + gone')"
  using assms cleaned_expired [OF assms(1)]
  by (auto simp: cleaned_def same_session_def subset_mset.le_diff_conv2 union_commute)

context sql_engine
begin

lemma delete_batch:
  assumes "delete_old_completed E days bs db = (r, db')" and "unique_ids (table_rows E db)"
  shows "\<exists>gone. cleaned E days db db' gone \<and> (\<forall>n. r = Inr n \<longrightarrow> n = int (size gone) \<and>
    size gone = min (nat bs) (size (filter_mset (expired (tx_now E db) days) (table_rows E db))))"
proof -
  let ?q = "\<lparr>q_where = (\<lambda>_ r. status r = COMPLETED \<and>
      (case completed_at r of None \<Rightarrow> False | Some t \<Rightarrow> t < tx_now E db - days * 86400 * us_per_s)),
      q_order = (\<lambda>_. []), q_limit = Some bs, q_skip_locked = False\<rparr> :: 'x base_event_scheme query"
  have cand: "candidates ?q held tbl = filter_mset (expired (tx_now E db) days) tbl" for held tbl
    by (auto simp: candidates_def expired_def intro!: filter_mset_cong split: option.splits)
  obtain x db1 where del: "sql_delete_from E ?q db = (x, db1)"
    by fastforce
  show ?thesis
  proof (cases x)
    case (Inl e)
    with del delete_from_err [of ?q db e db1] assms(1) show ?thesis
      by (intro exI [of _ "{#}"])
        (auto simp: delete_old_completed_def andthen_def cleaned_def same_session_def split: if_splits sum.splits
          dest: arg_cong [of _ _ storage_error])
  next
    case (Inr rs)
    obtain chosen where sel: "selects ?q (held_elsewhere E db) (table_rows E db) chosen" and "same_session E db1 db"
      and tbl: "table_rows E db1 = filter_mset (\<lambda>r. event_id r \<notin> event_id ` set chosen) (table_rows E db)"
      and rs: "mset rs = filter_mset (\<lambda>r. event_id r \<in> event_id ` set chosen) (table_rows E db)"
      using delete_from_law [OF del [unfolded Inr]] by blast
    have m: "mset rs = mset chosen"
      using rs chosen_mset [OF assms(2) sel] by simp
    have "cleaned E days db db1 (mset rs)"
      using \<open>same_session E db1 db\<close> tbl rs selects_mset [OF sel] m
      by (simp add: cleaned_def cand filter_not)
    moreover have "size (mset rs) = min (nat bs) (size (filter_mset (expired (tx_now E db) days) (table_rows E db)))"
      using selects_size [OF sel] m by (simp add: cand)
    ultimately show ?thesis
      using assms(1) del Inr cleaned_refl [of E days db]
      by (auto simp: delete_old_completed_def andthen_def split: if_splits)
  qed
qed

lemma cleanup_loop_rows:
  assumes "cleanup_loop (delete_old_completed E days bs) k m db = (r, db')" and "unique_ids (table_rows E db)"
  shows "\<exists>gone. cleaned E days db db' gone \<and> (\<forall>n. r = Inr n \<longrightarrow> n = m + int (size gone) \<and>
    (size (filter_mset (expired (tx_now E db) days) (table_rows E db)) \<le> k * nat bs \<longrightarrow>
     gone = filter_mset (expired (tx_now E db) days) (table_rows E db)))"
  using assms
proof (induction k arbitrary: m db)
  case 0
  then show ?case
    using cleaned_refl [of E days db] by auto
next
  case (Suc k)
  let ?F = "filter_mset (expired (tx_now E db) days) (table_rows E db)"
  obtain x db1 where del: "delete_old_completed E days bs db = (x, db1)"
    by fastforce
  obtain gone where gone: "cleaned E days db db1 gone"
    and n: "\<forall>n. x = Inr n \<longrightarrow> n = int (size gone) \<and> size gone = min (nat bs) (size ?F)"
    using delete_batch [OF del Suc.prems(2)] by blast
  show ?case
  proof (cases x)
    case (Inl e)
    with Suc.prems(1) del gone show ?thesis
      by (auto simp: andthen_def)
  next
    case (Inr d)
    show ?thesis
    proof (cases "d = 0")
      case True
      then have "r = Inr m" "db' = db1"
        using Suc.prems(1) del Inr by (auto simp: andthen_def)
      moreover have "gone = ?F" if "size ?F \<le> Suc k * nat bs"
      proof -
        have "size gone = 0" "min (nat bs) (size ?F) = 0"
          using n Inr True by auto
        moreover from this(2) have "nat bs = 0 \<or> size ?F = 0"
          by (metis min_def)
        then have "size ?F = 0"
          using that by (metis le_zero_eq mult_0_right)
        ultimately show ?thesis by simp
      qed
      ultimately show ?thesis
        using gone n Inr True by auto
    next
      case False
      then have rest: "cleanup_loop (delete_old_completed E days bs) k (m + d) db1 = (r, db')"
        using Suc.prems(1) del Inr by (auto simp: andthen_def)
      have "unique_ids (table_rows E db1)"
        using gone Suc.prems(2) unfolding unique_ids_size cleaned_def
        by (metis diff_subset_eq_self multiset_filter_mono order_trans size_mset_mono)
      from Suc.IH [OF rest this] obtain gone' where gone': "cleaned E days db1 db' gone'"
        and m: "\<forall>n. r = Inr n \<longrightarrow> n = m + d + int (size gone') \<and>
          (size (?F - gone) \<le> k * nat bs \<longrightarrow> gone' = ?F - gone)"
        unfolding cleaned_expired [OF gone] by blast
      have sub: "gone \<subseteq># ?F"
        using gone by (simp add: cleaned_def)
      have "gone + gone' = ?F" if "r = Inr n" "size ?F \<le> Suc k * nat bs" for n
      proof -
        have "size (?F - gone) \<le> k * nat bs"
          using n Inr that(2) size_Diff_submset [OF sub] by auto
        with m that(1) sub show ?thesis by simp
      qed
      with cleaned_trans [OF gone gone'] m n Inr show ?thesis
        by (intro exI [of _ "gone + gone'"]) auto
    qed
  qed
qed

end

text \<open>C25. Cleaning up deletes completed rows that are older than the retention and nothing else, even when a
  statement fails on the way; the number returned is that of the rows deleted, and none that has expired
  is left when the batches allowed can hold them.\<close>

theorem cleanup_deletes_expired:
  assumes "sql_engine E" and "unique_ids (table_rows E db)"
    and "cleanup_old_events (postgres_maintenance E R) days batch_size iterations db = (r, db')"
  shows "\<exists>gone. gone \<subseteq># filter_mset (expired (tx_now E db) days) (table_rows E db) \<and>
    table_rows E db' = table_rows E db - gone \<and>
    (\<forall>n. r = Inr n \<longrightarrow> n = int (size gone) \<and>
      (size (filter_mset (expired (tx_now E db) days) (table_rows E db)) \<le> nat iterations * nat batch_size \<longrightarrow>
       gone = filter_mset (expired (tx_now E db) days) (table_rows E db)))"
proof (cases "iterations \<le> 0")
  case True
  then have "r = Inr 0" "db' = db"
    using assms(3) by (auto simp: cleanup_old_events_def has_retention_def postgres_maintenance_def)
  with True show ?thesis
    by (intro exI [of _ "{#}"]) auto
next
  case False
  then have "cleanup_loop (delete_old_completed E days batch_size) (nat iterations) 0 db = (r, db')"
    using assms(3) by (simp add: cleanup_old_events_def has_retention_def postgres_maintenance_def required_def)
  from sql_engine.cleanup_loop_rows [OF assms(1) this assms(2)] show ?thesis
    by (auto simp: cleaned_def)
qed

section \<open>Creation\<close>

context event_class
begin

lemma fresh:
  assumes "orjson_roundtrip L" and "validate L ctx e0 = Inr e" and "status e0 = PENDING" and "attempts_made e0 = 0"
    and "locked_at e0 = None" and "completed_at e0 = None"
  shows "valid_event extra L ctx e \<and> status e = PENDING \<and> attempts_made e = 0 \<and> locked_at e = None \<and>
    locked_by e = None \<and> completed_at e = None \<and> event_id e = event_id e0 \<and> created_at e = created_at e0 \<and>
    validate L ctx e = Inr e"
proof -
  have v: "valid_event extra L ctx e"
    using assms(1,2) by (rule valid_validate)
  then have "locked_at e = None \<longrightarrow> locked_by e = None"
    by (auto simp: valid_event_def invariant_defs split: if_splits)
  with v validate_valid [OF assms(1) v] class_same [OF assms(2)] assms(3-6) show ?thesis
    by (simp add: same_state_def)
qed

end

text \<open>C20. What the domain service creates has the type of an event: every field and invariant of its class
  holds, it is pending, due, with no attempt made and no lock, under the id and the time of its creation;
  validating it again, as reading its row does, returns it unchanged.\<close>

theorem created_events_valid:
  assumes "orjson_roundtrip L"
  shows "(create_outbox_event L svc new_id now_a now_b agg_type agg_id ev_type topic_name part_key body opts = Inr e \<longrightarrow>
      valid_event outbox_extra L (validation_context svc) e \<and> status e = PENDING \<and> attempts_made e = 0 \<and>
      locked_at e = None \<and> locked_by e = None \<and> completed_at e = None \<and> event_id e = new_id \<and> created_at e = now_a \<and>
      OutboxEvent_validate L (validation_context svc) e = Inr e) \<and>
    (create_inbox_event L svc new_id now_a now_b msg_id grp src ev_type body hdrs trace corr caus schema = Inr i \<longrightarrow>
      valid_event inbox_extra L (validation_context svc) i \<and> status i = PENDING \<and> attempts_made i = 0 \<and>
      locked_at i = None \<and> locked_by i = None \<and> completed_at i = None \<and> event_id i = new_id \<and> created_at i = now_a \<and>
      InboxEvent_validate L (validation_context svc) i = Inr i)"
proof (intro conjI [of "_ \<longrightarrow> _" "_ \<longrightarrow> _"] impI)
  assume "create_outbox_event L svc new_id now_a now_b agg_type agg_id ev_type topic_name part_key body opts = Inr e"
  then obtain e0 where "OutboxEvent_validate L (validation_context svc) e0 = Inr e" "status e0 = PENDING"
    "attempts_made e0 = 0" "locked_at e0 = None" "completed_at e0 = None" "event_id e0 = new_id" "created_at e0 = now_a"
    by (fastforce simp: create_outbox_event_def bindr_Inr_iff)
  with outbox_class.fresh [OF assms this(1-5)]
  show "valid_event outbox_extra L (validation_context svc) e \<and> status e = PENDING \<and> attempts_made e = 0 \<and>
      locked_at e = None \<and> locked_by e = None \<and> completed_at e = None \<and> event_id e = new_id \<and> created_at e = now_a \<and>
      OutboxEvent_validate L (validation_context svc) e = Inr e"
    by simp
next
  assume "create_inbox_event L svc new_id now_a now_b msg_id grp src ev_type body hdrs trace corr caus schema = Inr i"
  then obtain e0 where "InboxEvent_validate L (validation_context svc) e0 = Inr i" "status e0 = PENDING"
    "attempts_made e0 = 0" "locked_at e0 = None" "completed_at e0 = None" "event_id e0 = new_id" "created_at e0 = now_a"
    by (fastforce simp: create_inbox_event_def)
  with inbox_class.fresh [OF assms this(1-5)]
  show "valid_event inbox_extra L (validation_context svc) i \<and> status i = PENDING \<and> attempts_made i = 0 \<and>
      locked_at i = None \<and> locked_by i = None \<and> completed_at i = None \<and> event_id i = new_id \<and> created_at i = now_a \<and>
      InboxEvent_validate L (validation_context svc) i = Inr i"
    by simp
qed

section \<open>Concrete runs\<close>

definition two_rows :: "outbox_event listdb" where
  "two_rows = \<lparr>db_rows = [completed_row 0 sample_event, sample_event\<lparr>event_id := UUID 8\<rparr>],
     db_now = 2 * 86400 * us_per_s, db_held = {}\<rparr>"

theorem cleanup_deletes_expired_witness:
  "\<exists>db'. cleanup_old_events (postgres_maintenance list_engine sample_repository) 1 DEFAULT_CLEANUP_BATCH_SIZE
     DEFAULT_MAINTENANCE_MAX_ITERATIONS two_rows = (Inr 1, db') \<and>
     table_rows list_engine db' = {#sample_event\<lparr>event_id := UUID 8\<rparr>#}"
proof -
  obtain r db' where run: "cleanup_old_events (postgres_maintenance list_engine sample_repository) 1
      DEFAULT_CLEANUP_BATCH_SIZE DEFAULT_MAINTENANCE_MAX_ITERATIONS two_rows = (r, db')"
    by fastforce
  let ?rows = "{#completed_row 0 sample_event, sample_event\<lparr>event_id := UUID 8\<rparr>#}"
  have rows: "table_rows list_engine two_rows = ?rows" "tx_now list_engine two_rows = 2 * 86400 * us_per_s"
    by (simp_all add: two_rows_def list_engine_def)
  have expired: "filter_mset (expired (2 * 86400 * us_per_s) 1) ?rows = {#completed_row 0 sample_event#}"
    by (simp add: expired_def completed_row_def sample_event_def us_per_s_def)
  have "unique_ids ?rows"
    by (simp add: unique_ids_def completed_row_def sample_event_def)
  then obtain gone where gone: "table_rows list_engine db' = ?rows - gone"
    "\<forall>n. r = Inr n \<longrightarrow> n = int (size gone) \<and> gone = {#completed_row 0 sample_event#}"
    using cleanup_deletes_expired [OF list_sql.sql_engine_axioms _ run] unfolding rows expired
    by (auto simp: DEFAULT_CLEANUP_BATCH_SIZE_def DEFAULT_MAINTENANCE_MAX_ITERATIONS_def)
  have "delete_old_completed list_engine 1 1000 two_rows = (Inr 1, two_rows\<lparr>db_rows := [sample_event\<lparr>event_id := UUID 8\<rparr>]\<rparr>)"
    and "delete_old_completed list_engine 1 1000 (two_rows\<lparr>db_rows := [sample_event\<lparr>event_id := UUID 8\<rparr>]\<rparr>) =
      (Inr 0, two_rows\<lparr>db_rows := [sample_event\<lparr>event_id := UUID 8\<rparr>]\<rparr>)"
    by (simp_all add: delete_old_completed_def andthen_def list_engine_def list_delete_def list_chosen_def limited_def
        two_rows_def sample_event_def completed_row_def us_per_s_def)
  then have "cleanup_loop (delete_old_completed list_engine 1 1000) (Suc (Suc k)) 0 two_rows =
      (Inr 1, two_rows\<lparr>db_rows := [sample_event\<lparr>event_id := UUID 8\<rparr>]\<rparr>)" for k
    by (simp add: andthen_def)
  from this [of 9998] have "cleanup_loop (delete_old_completed list_engine 1 1000) 10000 0 two_rows =
      (Inr 1, two_rows\<lparr>db_rows := [sample_event\<lparr>event_id := UUID 8\<rparr>]\<rparr>)"
    by simp
  moreover have "cleanup_loop (delete_old_completed list_engine 1 1000) 10000 0 two_rows = (r, db')"
    using run unfolding cleanup_old_events_def has_retention_def postgres_maintenance_def required_def
      DEFAULT_CLEANUP_BATCH_SIZE_def DEFAULT_MAINTENANCE_MAX_ITERATIONS_def by simp
  ultimately have r: "r = Inr 1"
    by simp
  with gone have "table_rows list_engine db' = {#sample_event\<lparr>event_id := UUID 8\<rparr>#}"
    by simp
  with run r show ?thesis by blast
qed

theorem created_events_valid_witness:
  "\<exists>i. create_inbox_event sample_libs (default_service\<lparr>svc_max_attempts := 2\<rparr>) (event_id sample_inbox_event) 0 0
     (lit ''m'') (lit ''g'') (lit ''s'') (lit ''t'') sample_payload None None None None None = Inr i \<and>
     valid_event inbox_extra sample_libs (validation_context (default_service\<lparr>svc_max_attempts := 2\<rparr>)) i"
  using created_events_valid [OF sample_libs_roundtrip, where svc = "default_service\<lparr>svc_max_attempts := 2\<rparr>"
      and new_id = "event_id sample_inbox_event" and now_a = 0 and now_b = 0 and msg_id = "lit ''m''" and grp = "lit ''g''"
      and src = "lit ''s''" and ev_type = "lit ''t''" and body = sample_payload and hdrs = None and trace = None
      and corr = None and caus = None and schema = None and i = sample_inbox_event] sample_event_made
  by auto

end
