(* ===== verification/Metrics.thy ===== *)
theory Metrics
  imports Consumer
begin

text \<open>
  The Prometheus collectors (\<open>infra/metrics/prometheus.py\<close>): the series they keep, as functions of the
  labels, and what each observation of the pipeline and of the consumer adds to them. The client library
  is its documented counters, gauges and histograms.
\<close>

section \<open>Names\<close>

text \<open>\<open>^[a-zA-Z_][a-zA-Z0-9_]*$\<close>; the dollar also matches before a newline at the end.\<close>

definition name_start :: "nat \<Rightarrow> bool" where
  "name_start c \<longleftrightarrow> 65 \<le> c \<and> c \<le> 90 \<or> 97 \<le> c \<and> c \<le> 122 \<or> c = 95"

fun plain_name :: "pystr \<Rightarrow> bool" where
  "plain_name [] = False"
| "plain_name (c # cs) = (name_start c \<and> list_all (\<lambda>d. name_start d \<or> 48 \<le> d \<and> d \<le> 57) cs)"

definition prefix_matches :: "pystr \<Rightarrow> bool" where
  "prefix_matches p \<longleftrightarrow> plain_name p \<or> p \<noteq> [] \<and> last p = 10 \<and> plain_name (butlast p)"

definition metric_name :: "pystr \<Rightarrow> pystr option \<Rightarrow> pystr res" where
  "metric_name name p =
     (case p of
        Some (c # cs) \<Rightarrow> if prefix_matches (c # cs) then Inr (c # cs @ lit ''_'' @ name) else Inl ValueError
      | _ \<Rightarrow> Inr name)"

section \<open>Series\<close>

type_synonym labels = "pystr \<times> pystr"

record outbox_series =
  os_locked_batch_size :: int
  os_events_published :: "labels \<Rightarrow> int"
  os_handler_duration :: "pystr \<Rightarrow> rat list"

record inbox_series =
  is_messages_consumed :: int
  is_messages_duplicate :: int
  is_messages_processed :: int
  is_messages_failed :: int
  is_events_processed :: "labels \<Rightarrow> int"
  is_messages_committed :: int
  is_commit_failures :: int
  is_handler_duration :: "pystr \<Rightarrow> rat list"

definition inc_label :: "pystr option \<Rightarrow> pystr option \<Rightarrow> string \<Rightarrow> (labels \<Rightarrow> int) \<Rightarrow> labels \<Rightarrow> int" where
  "inc_label et st default_status f =
     (let l = (text_or et (lit ''unknown''), text_or st (lit default_status)) in f(l := f l + 1))"

definition observe_label :: "pystr option \<Rightarrow> rat \<Rightarrow> (pystr \<Rightarrow> rat list) \<Rightarrow> pystr \<Rightarrow> rat list" where
  "observe_label et seconds f = (let l = text_or et (lit ''unknown'') in f(l := f l @ [seconds]))"

text \<open>\<open>PrometheusOutboxMetrics\<close>; dead letters and spans are no metrics.\<close>

fun outbox_observe :: "observation \<Rightarrow> outbox_series \<Rightarrow> outbox_series" where
  "outbox_observe (SetLockedBatchSize n) s = s\<lparr>os_locked_batch_size := n\<rparr>"
| "outbox_observe (IncProcessed et st) s = s\<lparr>os_events_published := inc_label et st ''success'' (os_events_published s)\<rparr>"
| "outbox_observe (IncFailed et st) s = s\<lparr>os_events_published := inc_label et st ''failure'' (os_events_published s)\<rparr>"
| "outbox_observe (IncDuplicate et st) s = s\<lparr>os_events_published := inc_label et st ''skipped'' (os_events_published s)\<rparr>"
| "outbox_observe (ObserveDuration d et) s = s\<lparr>os_handler_duration := observe_label et d (os_handler_duration s)\<rparr>"
| "outbox_observe _ s = s"

text \<open>\<open>PrometheusInboxMetrics\<close>, fed by the pipeline and by the consumer.\<close>

definition inc_inbox_duplicate :: "pystr option \<Rightarrow> pystr option \<Rightarrow> inbox_series \<Rightarrow> inbox_series" where
  "inc_inbox_duplicate et st s = s\<lparr>is_messages_duplicate := is_messages_duplicate s + 1,
     is_events_processed := inc_label et st ''skipped'' (is_events_processed s)\<rparr>"

definition inc_inbox_processed :: "pystr option \<Rightarrow> pystr option \<Rightarrow> inbox_series \<Rightarrow> inbox_series" where
  "inc_inbox_processed et st s = s\<lparr>is_messages_processed := is_messages_processed s + 1,
     is_events_processed := inc_label et st ''success'' (is_events_processed s)\<rparr>"

definition inc_inbox_failed :: "pystr option \<Rightarrow> pystr option \<Rightarrow> inbox_series \<Rightarrow> inbox_series" where
  "inc_inbox_failed et st s = s\<lparr>is_messages_failed := is_messages_failed s + 1,
     is_events_processed := inc_label et st ''failure'' (is_events_processed s)\<rparr>"

definition inbox_observe_duration :: "rat \<Rightarrow> pystr option \<Rightarrow> inbox_series \<Rightarrow> inbox_series" where
  "inbox_observe_duration d et s = s\<lparr>is_handler_duration := observe_label et d (is_handler_duration s)\<rparr>"

fun inbox_observe :: "observation \<Rightarrow> inbox_series \<Rightarrow> inbox_series" where
  "inbox_observe (IncProcessed et st) s = inc_inbox_processed et st s"
| "inbox_observe (IncFailed et st) s = inc_inbox_failed et st s"
| "inbox_observe (IncDuplicate et st) s = inc_inbox_duplicate et st s"
| "inbox_observe (ObserveDuration d et) s = inbox_observe_duration d et s"
| "inbox_observe _ s = s"

fun consumer_observe :: "consumer_observation \<Rightarrow> inbox_series \<Rightarrow> inbox_series" where
  "consumer_observe IncConsumed s = s\<lparr>is_messages_consumed := is_messages_consumed s + 1\<rparr>"
| "consumer_observe IncCommitted s = s\<lparr>is_messages_committed := is_messages_committed s + 1\<rparr>"
| "consumer_observe IncCommitFailed s = s\<lparr>is_commit_failures := is_commit_failures s + 1\<rparr>"
| "consumer_observe (IncInboxDuplicate et) s = inc_inbox_duplicate (Some et) None s"
| "consumer_observe (IncInboxProcessed et) s = inc_inbox_processed (Some et) None s"
| "consumer_observe (IncInboxFailed et) s = inc_inbox_failed (Some et) None s"
| "consumer_observe (ObserveHandlerDuration d et) s = inbox_observe_duration d (Some et) s"

section \<open>One collector per prefix\<close>

text \<open>\<open>get_outbox_metrics\<close> and \<open>get_inbox_metrics\<close> over their caches; \<open>build\<close> registers the series, which the
  client refuses the second time.\<close>

definition get_metrics :: "(pystr option \<Rightarrow> 'm res) \<Rightarrow> pystr option \<Rightarrow> ((pystr option \<rightharpoonup> 'm), 'm) act" where
  "get_metrics new_metrics p cache =
     (let key = (if truthy p then p else None) in
      case cache key of
        Some m \<Rightarrow> (Inr m, cache)
      | None \<Rightarrow> (case new_metrics key of Inl err \<Rightarrow> (Inl err, cache) | Inr m \<Rightarrow> (Inr m, cache(key \<mapsto> m))))"

section \<open>Counters count\<close>

text \<open>The label an observation is counted under.\<close>

fun published_label :: "observation \<Rightarrow> labels option" where
  "published_label (IncProcessed et st) = Some (text_or et (lit ''unknown''), text_or st (lit ''success''))"
| "published_label (IncFailed et st) = Some (text_or et (lit ''unknown''), text_or st (lit ''failure''))"
| "published_label (IncDuplicate et st) = Some (text_or et (lit ''unknown''), text_or st (lit ''skipped''))"
| "published_label _ = None"

lemma inc_label_apply: "inc_label et st k f l =
    f l + (if l = (text_or et (lit ''unknown''), text_or st (lit k)) then 1 else 0)"
  by (simp add: inc_label_def Let_def)

lemma outbox_observe_count:
  "os_events_published (outbox_observe x s) l = os_events_published s l + (if published_label x = Some l then 1 else 0)"
  by (cases x) (auto simp: inc_label_apply)

text \<open>A published counter is the number of observations with its labels.\<close>

lemma published_counter:
  "os_events_published (fold outbox_observe xs s) l =
     os_events_published s l + int (length (filter (\<lambda>x. published_label x = Some l) xs))"
  by (induction xs arbitrary: s) (auto simp: outbox_observe_count)

text \<open>The three message counters of the inbox add up to the labelled one.\<close>

lemma inbox_totals:
  "is_messages_duplicate (inbox_observe x s) + is_messages_processed (inbox_observe x s) +
     is_messages_failed (inbox_observe x s) - is_messages_duplicate s - is_messages_processed s - is_messages_failed s =
   (if published_label x = None then 0 else 1) \<and>
   is_events_processed (inbox_observe x s) l = is_events_processed s l + (if published_label x = Some l then 1 else 0)"
  by (cases x) (auto simp: inc_inbox_duplicate_def inc_inbox_processed_def inc_inbox_failed_def inc_label_apply
      inbox_observe_duration_def)

text \<open>A second request for a prefix returns the collector of the first and builds nothing.\<close>

lemma get_metrics_cached:
  "get_metrics new_metrics p cache = (Inr m, cache') \<Longrightarrow> get_metrics new_metrics' p cache' = (Inr m, cache')"
  by (cases "truthy p") (auto simp: get_metrics_def Let_def split: option.splits sum.splits)

text \<open>The pattern accepts a prefix that ends in a newline.\<close>

lemma newline_prefix_accepted: "metric_name (lit ''x'') (Some (lit ''app'' @ [10])) = Inr (lit ''app'' @ [10] @ lit ''_x'')"
  by (simp add: metric_name_def prefix_matches_def lit_def name_start_def)

end
