(* ===== verification/Tables.thy ===== *)
theory Tables
  imports Repository
begin

text \<open>
  The tables (\<open>infra/storage/postgres/orm.py\<close>): columns with their types, the check constraints as SQL
  conditions with three truth values, and the indexes with their predicates. What a column accepts is
  PostgreSQL's: a text has no code point 0 and encodes as UTF-8, an \<open>integer\<close> has 32 bits. The column
  \<open>updated_at\<close>, which the server fills in and nothing reads, is left out.
\<close>

section \<open>Columns\<close>

datatype sql_value = TextV pystr | UuidV uuid | JsonV json | IntV int | TimeV instant

datatype sql_type = VARCHAR nat | UUID_TYPE | JSONB | INTEGER | TIMESTAMPTZ

definition storable_text :: "pystr \<Rightarrow> bool" where
  "storable_text s \<longleftrightarrow> text_ok s \<and> 0 \<notin> set s"

primrec storable_json :: "json \<Rightarrow> bool" where
  "storable_json JNull = True"
| "storable_json (JBool _) = True"
| "storable_json (JInt _) = True"
| "storable_json (JFloat f) = (\<not> nonfinite_float f)"
| "storable_json (JStr s) = storable_text s"
| "storable_json (JArr xs) = list_all id (map storable_json xs)"
| "storable_json (JObj kvs) = (list_all (\<lambda>kv. storable_text (fst kv)) kvs \<and> list_all snd (map (map_prod id storable_json) kvs))"

text \<open>What the server can be sent at all; the times are those of 4713 BC to 294276 AD.\<close>

fun sendable_value :: "sql_value \<Rightarrow> bool" where
  "sendable_value (TextV s) = storable_text s"
| "sendable_value (UuidV _) = True"
| "sendable_value (JsonV j) = storable_json j"
| "sendable_value (IntV i) = (- (2 ^ 31) \<le> i \<and> i < 2 ^ 31)"
| "sendable_value (TimeV t) = (- 210866803200000000 \<le> t \<and> t < 9224318016000000000)"

fun fits_type :: "sql_type \<Rightarrow> sql_value \<Rightarrow> bool" where
  "fits_type (VARCHAR n) (TextV s) = (length s \<le> n)"
| "fits_type UUID_TYPE (UuidV _) = True"
| "fits_type JSONB (JsonV _) = True"
| "fits_type INTEGER (IntV _) = True"
| "fits_type TIMESTAMPTZ (TimeV _) = True"
| "fits_type _ _ = False"

record 'r table_column =
  tc_name :: string
  tc_type :: sql_type
  tc_nullable :: bool
  tc_value :: "'r \<Rightarrow> sql_value option"

definition required_column :: "string \<Rightarrow> sql_type \<Rightarrow> ('r \<Rightarrow> sql_value) \<Rightarrow> 'r table_column" where
  "required_column n ty f = \<lparr>tc_name = n, tc_type = ty, tc_nullable = False, tc_value = (\<lambda>r. Some (f r))\<rparr>"

definition optional_column :: "string \<Rightarrow> sql_type \<Rightarrow> ('r \<Rightarrow> sql_value option) \<Rightarrow> 'r table_column" where
  "optional_column n ty f = \<lparr>tc_name = n, tc_type = ty, tc_nullable = True, tc_value = f\<rparr>"

fun status_text :: "event_status \<Rightarrow> pystr" where
  "status_text PENDING = lit ''pending''"
| "status_text COMPLETED = lit ''completed''"
| "status_text FAILED = lit ''failed''"

definition headers_json :: "(pystr \<times> pystr) list \<Rightarrow> json" where
  "headers_json hs = JObj (map (\<lambda>(k, v). (k, JStr v)) hs)"

definition EventMixin :: "'x base_event_scheme table_column list" where
  "EventMixin =
     [required_column ''id'' UUID_TYPE (\<lambda>r. UuidV (event_id r)),
      required_column ''event_type'' (VARCHAR 100) (\<lambda>r. TextV (event_type r)),
      required_column ''payload'' JSONB (\<lambda>r. JsonV (JObj (payload r))),
      optional_column ''headers'' JSONB (\<lambda>r. map_option (JsonV \<circ> headers_json) (headers r)),
      optional_column ''trace_id'' (VARCHAR 64) (\<lambda>r. map_option TextV (trace_id r)),
      optional_column ''idempotency_key'' (VARCHAR 128) (\<lambda>r. map_option TextV (idempotency_key r)),
      optional_column ''correlation_id'' (VARCHAR 64) (\<lambda>r. map_option TextV (correlation_id r)),
      optional_column ''causation_id'' (VARCHAR 64) (\<lambda>r. map_option TextV (causation_id r)),
      optional_column ''schema_version'' (VARCHAR 50) (\<lambda>r. map_option TextV (schema_version r)),
      required_column ''status'' (VARCHAR 20) (\<lambda>r. TextV (status_text (status r))),
      required_column ''attempts_made'' INTEGER (\<lambda>r. IntV (attempts_made r)),
      required_column ''max_attempts'' INTEGER (\<lambda>r. IntV (max_attempts r)),
      optional_column ''last_error'' (VARCHAR 2000) (\<lambda>r. map_option TextV (last_error r)),
      required_column ''scheduled_at'' TIMESTAMPTZ (\<lambda>r. TimeV (scheduled_at r)),
      optional_column ''completed_at'' TIMESTAMPTZ (\<lambda>r. map_option TimeV (completed_at r)),
      optional_column ''locked_at'' TIMESTAMPTZ (\<lambda>r. map_option TimeV (locked_at r)),
      optional_column ''locked_by'' (VARCHAR 255) (\<lambda>r. map_option TextV (locked_by r)),
      required_column ''created_at'' TIMESTAMPTZ (\<lambda>r. TimeV (created_at r))]"

definition OutboxColumnsMixin :: "outbox_event table_column list" where
  "OutboxColumnsMixin =
     [required_column ''aggregate_type'' (VARCHAR 50) (\<lambda>r. TextV (aggregate_type r)),
      required_column ''aggregate_id'' UUID_TYPE (\<lambda>r. UuidV (aggregate_id r)),
      required_column ''topic'' (VARCHAR 255) (\<lambda>r. TextV (topic r)),
      required_column ''partition_key'' (VARCHAR 255) (\<lambda>r. TextV (partition_key r))]"

definition InboxColumnsMixin :: "inbox_event table_column list" where
  "InboxColumnsMixin =
     [required_column ''message_id'' (VARCHAR 255) (\<lambda>r. TextV (message_id r)),
      required_column ''consumer_group'' (VARCHAR 255) (\<lambda>r. TextV (consumer_group r)),
      required_column ''source'' (VARCHAR 255) (\<lambda>r. TextV (source r))]"

text \<open>\<open>_prepare_insert_values\<close>: what an insert writes into which column.\<close>

definition prepare_insert_values :: "'x base_event_scheme \<Rightarrow> (string \<times> sql_value option) list" where
  "prepare_insert_values e =
     [(''id'', Some (UuidV (event_id e))), (''event_type'', Some (TextV (event_type e))),
      (''payload'', Some (JsonV (JObj (payload e)))), (''headers'', map_option (JsonV \<circ> headers_json) (headers e)),
      (''status'', Some (TextV (status_text (status e)))), (''attempts_made'', Some (IntV (attempts_made e))),
      (''max_attempts'', Some (IntV (max_attempts e))), (''last_error'', map_option TextV (last_error e)),
      (''trace_id'', map_option TextV (trace_id e)), (''idempotency_key'', map_option TextV (idempotency_key e)),
      (''correlation_id'', map_option TextV (correlation_id e)), (''causation_id'', map_option TextV (causation_id e)),
      (''schema_version'', map_option TextV (schema_version e)), (''created_at'', Some (TimeV (created_at e))),
      (''scheduled_at'', Some (TimeV (scheduled_at e))), (''completed_at'', map_option TimeV (completed_at e)),
      (''locked_at'', map_option TimeV (locked_at e)), (''locked_by'', map_option TextV (locked_by e))]"

definition outbox_insert_values :: "outbox_event \<Rightarrow> (string \<times> sql_value option) list" where
  "outbox_insert_values e = prepare_insert_values e @
     [(''aggregate_type'', Some (TextV (aggregate_type e))), (''aggregate_id'', Some (UuidV (aggregate_id e))),
      (''topic'', Some (TextV (topic e))), (''partition_key'', Some (TextV (partition_key e)))]"

definition inbox_insert_values :: "inbox_event \<Rightarrow> (string \<times> sql_value option) list" where
  "inbox_insert_values e = prepare_insert_values e @
     [(''message_id'', Some (TextV (message_id e))), (''consumer_group'', Some (TextV (consumer_group e))),
      (''source'', Some (TextV (source e)))]"

section \<open>Conditions\<close>

datatype sql_condition =
    IsNull string
  | IsNotNull string
  | EqText string pystr
  | NeqText string pystr
  | LeColumn string string
  | LessColumn string string
  | AndC sql_condition sql_condition
  | OrC sql_condition sql_condition

text \<open>SQL's three truth values, \<open>None\<close> for unknown.\<close>

fun and3 :: "bool option \<Rightarrow> bool option \<Rightarrow> bool option" where
  "and3 (Some False) b = Some False"
| "and3 a (Some False) = Some False"
| "and3 (Some True) (Some True) = Some True"
| "and3 _ _ = None"

fun or3 :: "bool option \<Rightarrow> bool option \<Rightarrow> bool option" where
  "or3 (Some True) b = Some True"
| "or3 a (Some True) = Some True"
| "or3 (Some False) (Some False) = Some False"
| "or3 _ _ = None"

definition compare_int :: "(int \<Rightarrow> int \<Rightarrow> bool) \<Rightarrow> sql_value option \<Rightarrow> sql_value option \<Rightarrow> bool option" where
  "compare_int rel a b = (case (a, b) of (Some (IntV i), Some (IntV j)) \<Rightarrow> Some (rel i j) | _ \<Rightarrow> None)"

definition compare_text :: "(pystr \<Rightarrow> pystr \<Rightarrow> bool) \<Rightarrow> sql_value option \<Rightarrow> pystr \<Rightarrow> bool option" where
  "compare_text rel a t = (case a of Some (TextV s) \<Rightarrow> Some (rel s t) | _ \<Rightarrow> None)"

fun sql_eval :: "(string \<Rightarrow> sql_value option) \<Rightarrow> sql_condition \<Rightarrow> bool option" where
  "sql_eval get (IsNull c) = Some (get c = None)"
| "sql_eval get (IsNotNull c) = Some (get c \<noteq> None)"
| "sql_eval get (EqText c t) = compare_text (=) (get c) t"
| "sql_eval get (NeqText c t) = compare_text (\<noteq>) (get c) t"
| "sql_eval get (LeColumn c d) = compare_int (\<le>) (get c) (get d)"
| "sql_eval get (LessColumn c d) = compare_int (<) (get c) (get d)"
| "sql_eval get (AndC a b) = and3 (sql_eval get a) (sql_eval get b)"
| "sql_eval get (OrC a b) = or3 (sql_eval get a) (sql_eval get b)"

section \<open>Constraints and indexes\<close>

datatype table_arg =
    CheckConstraint sql_condition string
  | Index string "string list" "sql_condition option" bool

fun infix_of :: "string \<Rightarrow> string \<Rightarrow> bool" where
  "infix_of p [] = (p = [])"
| "infix_of p (c # s) = (take (length p) (c # s) = p \<or> infix_of p s)"

text \<open>The name of a check constraint, by the table or, when the metadata's convention interpolates it, by the
  rule alone.\<close>

definition check_name :: "string \<Rightarrow> string option \<Rightarrow> string \<Rightarrow> string" where
  "check_name table_name ck_rule rule =
     (case ck_rule of
        Some convention \<Rightarrow> if infix_of ''constraint_name'' convention then rule else ''ck_'' @ table_name @ ''_'' @ rule
      | None \<Rightarrow> ''ck_'' @ table_name @ ''_'' @ rule)"

definition get_event_constraints :: "string \<Rightarrow> bool \<Rightarrow> string option \<Rightarrow> table_arg list" where
  "get_event_constraints table_name include_created_at_in_unique ck_rule =
     [CheckConstraint (LeColumn ''attempts_made'' ''max_attempts'') (check_name table_name ck_rule ''attempts_valid''),
      CheckConstraint (OrC (AndC (EqText ''status'' (status_text COMPLETED)) (IsNotNull ''completed_at''))
          (AndC (NeqText ''status'' (status_text COMPLETED)) (IsNull ''completed_at'')))
        (check_name table_name ck_rule ''completed_status_consistency''),
      CheckConstraint (OrC (AndC (IsNull ''locked_at'') (IsNull ''locked_by''))
          (AndC (IsNotNull ''locked_at'') (IsNotNull ''locked_by'')))
        (check_name table_name ck_rule ''lock_consistency''),
      Index (''idx_'' @ table_name @ ''_pending_fetch'') [''scheduled_at'']
        (Some (AndC (AndC (EqText ''status'' (status_text PENDING)) (IsNull ''locked_at''))
          (LessColumn ''attempts_made'' ''max_attempts''))) False,
      Index (''idx_'' @ table_name @ ''_locked_at'') [''locked_at''] (Some (IsNotNull ''locked_at'')) False,
      Index (''idx_'' @ table_name @ ''_completed_cleanup'') [''completed_at'']
        (Some (AndC (EqText ''status'' (status_text COMPLETED)) (IsNotNull ''completed_at''))) False,
      Index (''idx_'' @ table_name @ ''_idempotency_key'')
        (''idempotency_key'' # (if include_created_at_in_unique then [''created_at''] else []))
        (Some (IsNotNull ''idempotency_key'')) True,
      Index (''idx_'' @ table_name @ ''_created_at'') [''created_at''] None False,
      Index (''idx_'' @ table_name @ ''_updated_at'') [''updated_at''] None False]"

definition outbox_ordering_index :: "string \<Rightarrow> table_arg" where
  "outbox_ordering_index table_name =
     Index (''idx_'' @ table_name @ ''_pending_key_order'') [''topic'', ''partition_key'', ''created_at'']
       (Some (EqText ''status'' (status_text PENDING))) False"

section \<open>The four tables\<close>

record 'r sql_table =
  tb_name :: string
  tb_columns :: "'r table_column list"
  tb_primary_key :: "string list"
  tb_args :: "table_arg list"

definition OutboxEventDBBase :: "string option \<Rightarrow> outbox_event sql_table" where
  "OutboxEventDBBase ck_rule = \<lparr>tb_name = ''outbox_events'', tb_columns = EventMixin @ OutboxColumnsMixin,
     tb_primary_key = [''id''],
     tb_args = get_event_constraints ''outbox_events'' False ck_rule @ [outbox_ordering_index ''outbox_events'']\<rparr>"

definition InboxEventDBBase :: "string option \<Rightarrow> inbox_event sql_table" where
  "InboxEventDBBase ck_rule = \<lparr>tb_name = ''inbox_events'', tb_columns = EventMixin @ InboxColumnsMixin,
     tb_primary_key = [''id''],
     tb_args = get_event_constraints ''inbox_events'' False ck_rule @
       [Index ''idx_inbox_deduplication'' [''message_id'', ''consumer_group''] None True]\<rparr>"

definition OutboxEventPartitionedDBBase :: "string option \<Rightarrow> outbox_event sql_table" where
  "OutboxEventPartitionedDBBase ck_rule = \<lparr>tb_name = ''outbox_events_partitioned'',
     tb_columns = EventMixin @ OutboxColumnsMixin, tb_primary_key = [''id'', ''created_at''],
     tb_args = get_event_constraints ''outbox_events_p'' True ck_rule @ [outbox_ordering_index ''outbox_events_p'']\<rparr>"

definition InboxEventPartitionedDBBase :: "string option \<Rightarrow> inbox_event sql_table" where
  "InboxEventPartitionedDBBase ck_rule = \<lparr>tb_name = ''inbox_events_partitioned'',
     tb_columns = EventMixin @ InboxColumnsMixin, tb_primary_key = [''id'', ''created_at''],
     tb_args = get_event_constraints ''inbox_events_p'' True ck_rule @
       [Index ''idx_inbox_events_p_deduplication'' [''message_id'', ''consumer_group'', ''created_at''] None True,
        Index ''idx_inbox_events_p_message_consumer'' [''message_id'', ''consumer_group''] None False]\<rparr>"

definition outbox_table :: "bool \<Rightarrow> string option \<Rightarrow> outbox_event sql_table" where
  "outbox_table partitioned = (if partitioned then OutboxEventPartitionedDBBase else OutboxEventDBBase)"

definition inbox_table :: "bool \<Rightarrow> string option \<Rightarrow> inbox_event sql_table" where
  "inbox_table partitioned = (if partitioned then InboxEventPartitionedDBBase else InboxEventDBBase)"

section \<open>What the server does with them\<close>

definition cell_of :: "'r sql_table \<Rightarrow> 'r \<Rightarrow> string \<Rightarrow> sql_value option" where
  "cell_of T r c = (case List.find (\<lambda>col. tc_name col = c) (tb_columns T) of
     None \<Rightarrow> None | Some col \<Rightarrow> tc_value col r)"

text \<open>A check constraint refuses a row only when it is false.\<close>

fun arg_accepts :: "'r sql_table \<Rightarrow> 'r \<Rightarrow> table_arg \<Rightarrow> bool" where
  "arg_accepts T r (CheckConstraint c _) = (sql_eval (cell_of T r) c \<noteq> Some False)"
| "arg_accepts T r (Index _ _ _ _) = True"

definition column_accepts :: "'r \<Rightarrow> 'r table_column \<Rightarrow> bool" where
  "column_accepts r c =
     (case tc_value c r of None \<Rightarrow> tc_nullable c | Some v \<Rightarrow> sendable_value v \<and> fits_type (tc_type c) v)"

definition row_accepted :: "'r sql_table \<Rightarrow> 'r \<Rightarrow> bool" where
  "row_accepted T r \<longleftrightarrow> list_all (column_accepts r) (tb_columns T) \<and> list_all (arg_accepts T r) (tb_args T)"

definition all_sendable :: "'r sql_table \<Rightarrow> 'r \<Rightarrow> bool" where
  "all_sendable T r \<longleftrightarrow> list_all (\<lambda>c. pred_option sendable_value (tc_value c r)) (tb_columns T)"

text \<open>The unique index \<open>ON CONFLICT (target) WHERE condition\<close> infers: one over just the target's columns, whose
  predicate, if it is partial, is the condition given.\<close>

fun infers_index :: "string list \<Rightarrow> sql_condition option \<Rightarrow> table_arg \<Rightarrow> bool" where
  "infers_index target cond (CheckConstraint _ _) = False"
| "infers_index target cond (Index _ cols w uniq) =
     (uniq \<and> set cols = set target \<and> (case w of None \<Rightarrow> True | Some c \<Rightarrow> cond = Some c))"

definition conflict_inferable :: "'r sql_table \<Rightarrow> string list \<Rightarrow> sql_condition option \<Rightarrow> bool" where
  "conflict_inferable T target cond \<longleftrightarrow>
     set (tb_primary_key T) = set target \<or> list_ex (infers_index target cond) (tb_args T)"

end
