(* ===== verification/TableProps.thy ===== *)
theory TableProps
  imports Tables RepoProps
begin

text \<open>
  The tables and the validators agree: the check constraints are the invariants of the entities, and a valid
  event fits every column. The targets of \<open>ON CONFLICT\<close> are looked up among the unique indexes.
\<close>

lemma status_text_eq [simp]: "status_text s = status_text t \<longleftrightarrow> s = t"
  by (cases s; cases t) (simp_all add: lit_def)

lemma and3_True: "and3 a b = Some True \<longleftrightarrow> a = Some True \<and> b = Some True"
  by (cases "(a, b)" rule: and3.cases) auto

lemma and3_total [simp]: "and3 (Some a) (Some b) = Some (a \<and> b)" "or3 (Some a) (Some b) = Some (a \<or> b)"
  by (cases a; cases b; simp)+

text \<open>The check constraints of a table whose columns hold what the row has.\<close>

lemma checks_iff:
  assumes "cell_of T r ''attempts_made'' = Some (IntV (attempts_made r))" and "cell_of T r ''max_attempts'' = Some (IntV (max_attempts r))"
    and "cell_of T r ''status'' = Some (TextV (status_text (status r)))" and "cell_of T r ''completed_at'' = map_option TimeV (completed_at r)"
    and "cell_of T r ''locked_at'' = map_option TimeV (locked_at r)" and "cell_of T r ''locked_by'' = map_option TextV (locked_by r)"
  shows "list_all (arg_accepts T r) (get_event_constraints n p ck) \<longleftrightarrow>
    attempts_valid r \<and> completed_status_consistency r \<and> lock_consistency r"
  using assms by (simp add: get_event_constraints_def compare_int_def compare_text_def attempts_valid_def
      completed_status_consistency_def lock_consistency_def del: status_text.simps)

lemma outbox_cells:
  "tb_columns (outbox_table p ck) = EventMixin @ OutboxColumnsMixin"
  by (simp add: outbox_table_def OutboxEventDBBase_def OutboxEventPartitionedDBBase_def)

lemma inbox_cells:
  "tb_columns (inbox_table p ck) = EventMixin @ InboxColumnsMixin"
  by (simp add: inbox_table_def InboxEventDBBase_def InboxEventPartitionedDBBase_def)

lemma outbox_args: "tb_args (outbox_table p ck) =
    get_event_constraints (if p then ''outbox_events_p'' else ''outbox_events'') p ck @
    [outbox_ordering_index (if p then ''outbox_events_p'' else ''outbox_events'')]"
  by (simp add: outbox_table_def OutboxEventDBBase_def OutboxEventPartitionedDBBase_def)

lemma inbox_args: "\<exists>is. tb_args (inbox_table p ck) =
    get_event_constraints (if p then ''inbox_events_p'' else ''inbox_events'') p ck @ is \<and> list_all (arg_accepts T r) is"
  by (simp add: inbox_table_def InboxEventDBBase_def InboxEventPartitionedDBBase_def)

lemmas column_defs = EventMixin_def required_column_def optional_column_def

lemma outbox_checks:
  "list_all (arg_accepts (outbox_table p ck) r) (tb_args (outbox_table p ck)) \<longleftrightarrow>
     attempts_valid r \<and> completed_status_consistency r \<and> lock_consistency r"
proof -
  have "list_all (arg_accepts (outbox_table p ck) r) (get_event_constraints n q ck) \<longleftrightarrow>
      attempts_valid r \<and> completed_status_consistency r \<and> lock_consistency r" for n q
    by (rule checks_iff) (simp_all add: cell_of_def outbox_cells column_defs)
  then show ?thesis
    by (simp add: outbox_args outbox_ordering_index_def)
qed

lemma inbox_checks:
  "list_all (arg_accepts (inbox_table p ck) r) (tb_args (inbox_table p ck)) \<longleftrightarrow>
     attempts_valid r \<and> completed_status_consistency r \<and> lock_consistency r"
proof -
  have "list_all (arg_accepts (inbox_table p ck) r) (get_event_constraints n q ck) \<longleftrightarrow>
      attempts_valid r \<and> completed_status_consistency r \<and> lock_consistency r" for n q
    by (rule checks_iff) (simp_all add: cell_of_def inbox_cells column_defs)
  then show ?thesis
    using inbox_args [where p = p and ck = ck and T = "inbox_table p ck" and r = r] by auto
qed

lemma valid_event_checks: "valid_event extra L ctx e \<Longrightarrow>
    attempts_valid e \<and> completed_status_consistency e \<and> lock_consistency e"
  using valid_event_row_ok [of extra L ctx e] by (simp add: row_ok_def)

definition column_fits :: "'r \<Rightarrow> 'r table_column \<Rightarrow> bool" where
  "column_fits r c = (case tc_value c r of None \<Rightarrow> tc_nullable c | Some v \<Rightarrow> fits_type (tc_type c) v)"

lemma column_accepts_split: "column_accepts r = (\<lambda>c. column_fits r c \<and> pred_option sendable_value (tc_value c r))"
  by (rule ext) (auto simp: column_accepts_def column_fits_def split: option.splits)

lemma list_all_conj: "list_all (\<lambda>x. P x \<and> Q x) xs \<longleftrightarrow> list_all P xs \<and> list_all Q xs"
  by (induction xs) auto

lemma column_fits_required [simp]: "column_fits r (required_column n ty f) = fits_type ty (f r)"
  by (simp add: column_fits_def required_column_def)

lemma column_fits_optional [simp]: "column_fits r (optional_column n ty f) = pred_option (fits_type ty) (f r)"
  by (cases "f r") (simp_all add: column_fits_def optional_column_def)

lemma opt_field_fits: "opt_field_ok n x \<Longrightarrow> n \<le> m \<Longrightarrow> pred_option (fits_type (VARCHAR m)) (map_option TextV x)"
  by (cases x) (auto simp: field_ok_def)

lemma pred_map_true: "(\<And>a. P (f a)) \<Longrightarrow> pred_option P (map_option f x)"
  by (cases x) auto

lemma event_columns_fit:
  assumes "valid_event extra L ctx e"
  shows "list_all (column_fits e) EventMixin"
proof -
  have f: "fields_ok L ctx e"
    using assms by (simp add: valid_event_def)
  have "length (status_text (status e)) \<le> 20"
    by (cases "status e") (simp_all add: lit_def)
  moreover have "pred_option (fits_type (VARCHAR 2000)) (map_option TextV (last_error e))"
    using f by (cases "last_error e") (auto simp: fields_ok_def limit_defs)
  moreover have "field_ok 100 (event_type e)"
    using f by (simp add: fields_ok_def limit_defs)
  moreover have "opt_field_ok 64 (trace_id e)" "opt_field_ok 128 (idempotency_key e)" "opt_field_ok 64 (correlation_id e)"
    "opt_field_ok 64 (causation_id e)" "opt_field_ok 50 (schema_version e)" "opt_field_ok 255 (locked_by e)"
    using f by (simp_all add: fields_ok_def limit_defs)
  ultimately show ?thesis
    unfolding EventMixin_def by (simp add: opt_field_fits pred_map_true field_ok_def)
qed

text \<open>C23. The database and the validators agree on what an event is: a table accepts a valid event, plain or
  partitioned, whatever convention names its constraints, exactly when the server can be sent its values at
  all (texts without the code point 0 and without surrogates, 32-bit attempts, times in range). No length of a
  column and no check constraint refuses what the validators let through.\<close>

theorem valid_event_fits_table:
  assumes "valid_event outbox_extra L ctx e" and "valid_event inbox_extra L ctx i"
  shows "(row_accepted (outbox_table partitioned ck_rule) e \<longleftrightarrow> all_sendable (outbox_table partitioned ck_rule) e) \<and>
    (row_accepted (inbox_table partitioned ck_rule) i \<longleftrightarrow> all_sendable (inbox_table partitioned ck_rule) i)"
proof -
  have "list_all (column_fits e) OutboxColumnsMixin" "list_all (column_fits i) InboxColumnsMixin"
    using assms by (simp_all add: valid_event_def outbox_extra_def inbox_extra_def OutboxColumnsMixin_def
        InboxColumnsMixin_def field_ok_def limit_defs)
  then show ?thesis
    using valid_event_checks [OF assms(1)] valid_event_checks [OF assms(2)]
      event_columns_fit [OF assms(1)] event_columns_fit [OF assms(2)]
    by (simp add: row_accepted_def all_sendable_def outbox_checks inbox_checks outbox_cells inbox_cells
        column_accepts_split list_all_conj)
qed

section \<open>Rows are events\<close>

text \<open>An insert writes every column of the table once, with the value the row of the event has there, and what it
  writes determines the event.\<close>

lemma outbox_insert_columns:
  "distinct (map fst (outbox_insert_values e)) \<and> length (outbox_insert_values e) = length (tb_columns (outbox_table p ck)) \<and>
   list_all (\<lambda>c. map_of (outbox_insert_values e) (tc_name c) = Some (tc_value c e)) (tb_columns (outbox_table p ck))"
  by (simp add: outbox_insert_values_def prepare_insert_values_def outbox_cells column_defs OutboxColumnsMixin_def)

lemma inbox_insert_columns:
  "distinct (map fst (inbox_insert_values e)) \<and> length (inbox_insert_values e) = length (tb_columns (inbox_table p ck)) \<and>
   list_all (\<lambda>c. map_of (inbox_insert_values e) (tc_name c) = Some (tc_value c e)) (tb_columns (inbox_table p ck))"
  by (simp add: inbox_insert_values_def prepare_insert_values_def inbox_cells column_defs InboxColumnsMixin_def)

lemma headers_json_inj: "headers_json hs = headers_json hs' \<longleftrightarrow> hs = hs'"
proof -
  have "inj (\<lambda>(k :: pystr, v). (k, JStr v))"
    by (auto simp: inj_def)
  then show ?thesis
    by (simp only: headers_json_def json.inject inj_map_eq_map)
qed

lemma map_option_inj: "(\<And>a b. f a = f b \<longleftrightarrow> a = b) \<Longrightarrow> map_option f x = map_option f y \<longleftrightarrow> x = y"
  by (cases x; cases y) auto

lemma outbox_insert_determines: "outbox_insert_values e = outbox_insert_values e' \<longleftrightarrow> e = e'"
  by (cases e; cases e') (auto simp: outbox_insert_values_def prepare_insert_values_def map_option_inj headers_json_inj)

lemma inbox_insert_determines: "inbox_insert_values e = inbox_insert_values e' \<longleftrightarrow> e = e'"
  by (cases e; cases e') (auto simp: inbox_insert_values_def prepare_insert_values_def map_option_inj headers_json_inj)

section \<open>Conflict targets\<close>

lemma conflict_targets:
  "PostgresOutboxRepository_init p None None bs em suffix skew = Inr R \<Longrightarrow>
     repo_conflict_index_id R = (if p then [''id'', ''created_at''] else [''id'']) \<and>
     repo_conflict_index_idempotency R = (if p then [''idempotency_key'', ''created_at''] else [''idempotency_key''])"
  "PostgresInboxRepository_init p None None bs em suffix skew = Inr I \<Longrightarrow>
     repo_conflict_index_id I = [''id''] \<and> repo_conflict_index_idempotency I = [''idempotency_key''] \<and>
     repo_inbox_dedup_columns I = Some ([''message_id'', ''consumer_group''] @ (if p then [''created_at''] else []))"
  by (auto simp: PostgresOutboxRepository_init_def PostgresInboxRepository_init_def PostgresEventRepository_init_def
      conflict_index_def res_simps split: if_splits)

text \<open>C24. Every \<open>ON CONFLICT\<close> target of the repositories has its unique index, on the plain and on the partitioned
  table, except the two the inbox uses in \<open>bulk_create\<close>: on the partitioned inbox table there is no unique
  index over \<open>id\<close> or over \<open>idempotency_key\<close> alone, so the server refuses the statement.\<close>

theorem conflict_targets_indexed:
  assumes "PostgresOutboxRepository_init partitioned None None bs em suffix skew = Inr R"
    and "PostgresInboxRepository_init partitioned None None bs em suffix skew = Inr I"
  shows "conflict_inferable (outbox_table partitioned ck_rule) (repo_conflict_index_id R) None \<and>
    conflict_inferable (outbox_table partitioned ck_rule) (repo_conflict_index_idempotency R)
      (Some (IsNotNull ''idempotency_key'')) \<and>
    conflict_inferable (inbox_table partitioned ck_rule) (the (repo_inbox_dedup_columns I)) None \<and>
    (conflict_inferable (inbox_table partitioned ck_rule) (repo_conflict_index_id I) None \<longleftrightarrow> \<not> partitioned) \<and>
    (conflict_inferable (inbox_table partitioned ck_rule) (repo_conflict_index_idempotency I)
      (Some (IsNotNull ''idempotency_key'')) \<longleftrightarrow> \<not> partitioned)"
  using conflict_targets(1) [OF assms(1)] conflict_targets(2) [OF assms(2)]
  by (auto simp: conflict_inferable_def outbox_table_def inbox_table_def OutboxEventDBBase_def
      OutboxEventPartitionedDBBase_def InboxEventDBBase_def InboxEventPartitionedDBBase_def get_event_constraints_def
      outbox_ordering_index_def)

text \<open>Every name fits PostgreSQL's 63 bytes.\<close>

fun arg_name :: "table_arg \<Rightarrow> string" where
  "arg_name (CheckConstraint _ n) = n"
| "arg_name (Index n _ _ _) = n"

lemma names_fit: "list_all (\<lambda>a. length (arg_name a) \<le> 63) (tb_args (outbox_table p None) @ tb_args (inbox_table p None))"
  by (simp add: outbox_table_def inbox_table_def OutboxEventDBBase_def OutboxEventPartitionedDBBase_def
      InboxEventDBBase_def InboxEventPartitionedDBBase_def get_event_constraints_def outbox_ordering_index_def check_name_def)

section \<open>Concrete tables\<close>

theorem valid_event_fits_table_witness:
  "row_accepted (outbox_table True None) sample_event \<and> row_accepted (inbox_table True None) sample_inbox_event"
proof -
  have "all_sendable (outbox_table True None) sample_event" "all_sendable (inbox_table True None) sample_inbox_event"
    by (simp_all add: all_sendable_def outbox_cells inbox_cells column_defs OutboxColumnsMixin_def InboxColumnsMixin_def
        sample_event_def sample_inbox_event_def sample_payload_def storable_text_def text_ok_def lit_def surrogate_def)
  then show ?thesis
    using valid_event_fits_table [OF sample_event_valid sample_inbox_event_valid] by simp
qed

theorem conflict_targets_indexed_witness:
  "\<exists>R I. PostgresOutboxRepository_init True None None 1 2000 DEFAULT_TRUNCATION_SUFFIX 60 = Inr R \<and>
     PostgresInboxRepository_init True None None 1 2000 DEFAULT_TRUNCATION_SUFFIX 60 = Inr I \<and>
     \<not> conflict_inferable (inbox_table True None) (repo_conflict_index_id I) None"
proof -
  have "is_ok (PostgresOutboxRepository_init True None None 1 2000 DEFAULT_TRUNCATION_SUFFIX 60)"
    "is_ok (PostgresInboxRepository_init True None None 1 2000 DEFAULT_TRUNCATION_SUFFIX 60)"
    by (simp_all add: is_ok_iff PostgresOutboxRepository_init_def PostgresInboxRepository_init_def
        PostgresEventRepository_init_def MAX_BATCH_SIZE_def DEFAULT_TRUNCATION_SUFFIX_def lit_def encode_text_ok
        text_ok_def surrogate_def encode1_def)
  then obtain R I where R: "PostgresOutboxRepository_init True None None 1 2000 DEFAULT_TRUNCATION_SUFFIX 60 = Inr R"
    and I: "PostgresInboxRepository_init True None None 1 2000 DEFAULT_TRUNCATION_SUFFIX 60 = Inr I"
    by (auto simp: is_ok_iff)
  with conflict_targets_indexed [OF R I, of None] show ?thesis by auto
qed

text \<open>What the validators let through and the server refuses: a budget of attempts beyond 32 bits, and a text
  with the code point 0.\<close>

lemma huge_budget_refused:
  "valid_event outbox_extra sample_libs (validation_context default_service) (sample_event\<lparr>max_attempts := 2 ^ 31\<rparr>) \<and>
   \<not> row_accepted (outbox_table partitioned ck_rule) (sample_event\<lparr>max_attempts := 2 ^ 31\<rparr>)"
  using sample_payload_ok
  by (simp add: valid_event_def fields_ok_def sample_event_def outbox_extra_def invariant_defs
      validate_scheduled_at_def validation_context_def default_service_def limit_defs Let_def
      us_per_s_def lit_def field_ok_def py_space_def row_accepted_def outbox_cells column_defs column_accepts_def)

lemma nul_refused: "field_ok 100 (lit ''a'' @ [0, 98]) \<and> \<not> sendable_value (TextV (lit ''a'' @ [0, 98]))"
  by (simp add: storable_text_def field_ok_def lit_def strip_def py_space_def)

end
