(* ===== verification/Injection.thy ===== *)
theory Injection
  imports Dispatch
begin

text \<open>
  The router with dependency injection and the settings (\<open>contrib\<close>). A handler is a function of the event and
  of keyword arguments together with its signature; the dishka container is an argument.
\<close>

section \<open>Handlers with dependencies\<close>

record 'a parameter =
  pr_name :: string
  pr_annotation :: "'a option"

record ('db, 'a, 'd) injected_handler =
  ih_signature :: "'a parameter list"
  ih_call :: "inbox_event \<Rightarrow> (string \<times> 'd) list \<Rightarrow> ('db, handler_result option) act"

text \<open>The container: \<open>async with self._container()\<close>, and \<open>get\<close> inside.\<close>

record ('db, 'a, 'd) container =
  dc_enter :: "('db, unit) act"
  dc_leave :: "error option \<Rightarrow> ('db, unit) act"
  dc_get :: "'a \<Rightarrow> ('db, 'd) act"

record ('db, 'a, 'd) di_router =
  di_base :: "('db, 'a, 'd) injected_handler router"
  di_container :: "('db, 'a, 'd) container"
  di_signatures :: "(route \<times> 'a parameter list) list"

definition DIAwareEventRouter_init :: "('db, 'a, 'd) injected_handler router \<Rightarrow> ('db, 'a, 'd) container \<Rightarrow>
    ('db, 'a, 'd) di_router" where
  "DIAwareEventRouter_init rt c = \<lparr>di_base = rt, di_container = c, di_signatures = []\<rparr>"

text \<open>\<open>create_di_router\<close> and the providers of dishka.\<close>

definition denormalize :: "pystr \<Rightarrow> pystr" where
  "denormalize topic_name = topic_name"

definition get_router :: "(pystr \<Rightarrow> pystr) \<Rightarrow> 'h router" where
  "get_router denormalizer = EventRouter_init (Some denormalizer)"

text \<open>The key of a signature is the topic as it was given; the class is instantiated a second time for it.\<close>

fun note_signatures :: "pystr \<Rightarrow> ('db, 'a, 'd) injected_handler event_method list \<Rightarrow> (route \<times> 'a parameter list) list \<Rightarrow>
    (route \<times> 'a parameter list) list" where
  "note_signatures class_topic [] sigs = sigs"
| "note_signatures class_topic (m # ms) sigs =
     note_signatures class_topic ms (dict_set (get_or (em_event_topic m) class_topic, em_event_type m, em_schema_version m)
       (ih_signature (em_handler m)) sigs)"

definition di_register_class :: "('db, 'a, 'd) injected_handler event_handlers res \<Rightarrow> pystr option \<Rightarrow>
    (('db, 'a, 'd) di_router, unit) act" where
  "di_register_class new_instance topic_name D =
     (case register_class new_instance topic_name (di_base D) of
        (Inl err, rt) \<Rightarrow> (Inl err, D\<lparr>di_base := rt\<rparr>)
      | (Inr _, rt) \<Rightarrow>
          (case new_instance of
             Inl err \<Rightarrow> (Inl err, D\<lparr>di_base := rt\<rparr>)
           | Inr i \<Rightarrow>
               (let class_topic = (case eh_topic i of Some t \<Rightarrow> t | None \<Rightarrow> get_or topic_name []) in
                (Inr (), D\<lparr>di_base := rt,
                   di_signatures := note_signatures class_topic (eh_methods i) (di_signatures D)\<rparr>))))"

section \<open>Dispatch\<close>

text \<open>The keyword arguments: one for every annotated parameter the container can make.\<close>

fun resolve_parameters :: "('db, 'a, 'd) container \<Rightarrow> 'a parameter list \<Rightarrow> (string \<times> 'd) list \<Rightarrow>
    ('db, (string \<times> 'd) list) act" where
  "resolve_parameters c [] kwargs = ret kwargs"
| "resolve_parameters c (p # ps) kwargs =
     (if pr_name p \<in> {''self'', ''event'', ''repo''} then resolve_parameters c ps kwargs
      else case pr_annotation p of
        None \<Rightarrow> resolve_parameters c ps kwargs
      | Some a \<Rightarrow>
          andthen (catch (andthen (dc_get c a) (\<lambda>d. ret (dict_set (pr_name p) d kwargs)))
            (\<lambda>err. if is_exception err then ret kwargs else throw err))
            (\<lambda>kwargs. resolve_parameters c ps kwargs))"

definition in_container :: "('db, 'a, 'd) container \<Rightarrow> ('db, 'r) act \<Rightarrow> ('db, 'r) act" where
  "in_container c body = andthen (dc_enter c) (\<lambda>_ db.
     case body db of
       (Inr r, db1) \<Rightarrow> andthen (dc_leave c None) (\<lambda>_. ret r) db1
     | (Inl err, db1) \<Rightarrow> andthen (dc_leave c (Some err)) (\<lambda>_. throw err) db1)"

definition dispatch_with_di :: "('db, 'a, 'd) di_router \<Rightarrow> (pystr \<Rightarrow> pystr \<Rightarrow> pystr option \<Rightarrow> pystr) \<Rightarrow> inbox_event \<Rightarrow>
    pystr \<Rightarrow> ('db, handler_result) act" where
  "dispatch_with_di D message e topic_name =
     (let topic_str = normalized (di_base D) topic_name;
          key_v = (topic_str, event_type e, schema_version e); key_any = (topic_str, event_type e, None);
          handlers = map_of (rt_handlers (di_base D)) in
      case (case handlers key_v of Some h \<Rightarrow> Some (key_v, h) | None \<Rightarrow> map_option (Pair key_any) (handlers key_any)) of
        None \<Rightarrow> ret (no_handler message topic_str e)
      | Some (key, h) \<Rightarrow>
          (case map_of (di_signatures D) key of
             None \<Rightarrow> andthen (ih_call h e []) (\<lambda>raw. ret (coerce_handler_outcome raw))
           | Some [] \<Rightarrow> in_container (di_container D)
               (andthen (ih_call h e []) (\<lambda>raw. ret (coerce_handler_outcome raw)))
           | Some ps \<Rightarrow> in_container (di_container D)
               (andthen (resolve_parameters (di_container D) ps []) (\<lambda>kwargs.
                andthen (ih_call h e kwargs) (\<lambda>raw. ret (coerce_handler_outcome raw))))))"

section \<open>The two routers\<close>

text \<open>The plain router calls the same handlers without keyword arguments.\<close>

definition plain_router :: "('db, 'a, 'd) injected_handler router \<Rightarrow> ('db, inbox_event) handler router" where
  "plain_router rt = \<lparr>rt_handlers = map (\<lambda>(k, h). (k, \<lambda>e. ih_call h e [])) (rt_handlers rt),
     rt_topic_handlers = rt_topic_handlers rt, rt_normalize_topic = rt_normalize_topic rt\<rparr>"

lemma map_of_plain: "map_of (rt_handlers (plain_router rt)) k = map_option (\<lambda>h e. ih_call h e []) (map_of (rt_handlers rt) k)"
  by (simp add: plain_router_def map_of_map)

lemma no_migrations: "migrate_payload [] et p v target = Inr p"
  by (simp add: migrate_payload_def split: option.split)

lemma migrate_for_none: "json_eq (JObj (payload e)) (JObj (payload e)) \<Longrightarrow> migrate_for [] t e hs = Inr None"
  by (induction "[] :: (pystr \<times> type_migrations) list" t e hs rule: migrate_for.induct) (auto simp: no_migrations)

text \<open>Without signatures and without migrations the two routers do the same.\<close>

lemma di_dispatch_agrees:
  assumes "di_signatures D = []" and "json_eq (JObj (payload e)) (JObj (payload e))"
  shows "dispatch_with_di D message e t = dispatch (plain_router (di_base D)) [] message e t"
proof -
  let ?R = "plain_router (di_base D)"
  have norm: "normalized ?R t = normalized (di_base D) t"
    by (simp add: normalized_def plain_router_def)
  have none: "migrate_for [] (normalized (di_base D) t) e (rt_handlers ?R) = Inr None"
    by (rule migrate_for_none [OF assms(2)])
  show ?thesis
    by (cases "map_of (rt_handlers (di_base D)) (normalized (di_base D) t, event_type e, schema_version e)")
      (simp_all add: dispatch_with_di_def dispatch_def select_handler_def Let_def map_of_plain norm none assms(1)
        andthen_def fun_eq_iff split: option.split)
qed

text \<open>Without a signature under the normalised topic a handler gets no dependencies: the signatures are kept under
  the topics as they were given.\<close>

lemma normalised_handler_not_injected:
  assumes "map_of (rt_handlers (di_base D)) (normalized (di_base D) t, event_type e, schema_version e) = Some h"
    and "map_of (di_signatures D) (normalized (di_base D) t, event_type e, schema_version e) = None"
  shows "dispatch_with_di D message e t = andthen (ih_call h e []) (\<lambda>raw. ret (coerce_handler_outcome raw))"
  using assms by (simp add: dispatch_with_di_def Let_def)

section \<open>Settings\<close>

text \<open>The settings classes: every number is at least 1, or missing where it may be.\<close>

record processor_settings =
  ps_batch_size :: int
  ps_interval_seconds :: int
  ps_process_timeout_seconds :: int
  ps_max_delivery_attempts :: int

record maintenance_settings =
  ms_stale_lock_timeout_seconds :: int
  ms_stale_lock_interval_seconds :: int
  ms_retention_days :: "int option"
  ms_cleanup_interval_seconds :: "int option"

record resilience_settings =
  rs_enable_circuit_breaker :: bool
  rs_failure_threshold :: int
  rs_recovery_timeout_seconds :: int

record observability_settings =
  ob_enable_otel :: bool
  ob_enable_metrics :: bool

record box_settings =
  bs_processor :: processor_settings
  bs_maintenance :: maintenance_settings
  bs_resilience :: resilience_settings
  bs_observability :: observability_settings

record inbox_settings = box_settings +
  bs_skip_duplicate_siblings :: bool

definition default_settings :: box_settings where
  "default_settings = \<lparr>
     bs_processor = \<lparr>ps_batch_size = 50, ps_interval_seconds = 5, ps_process_timeout_seconds = 30, ps_max_delivery_attempts = 5\<rparr>,
     bs_maintenance = \<lparr>ms_stale_lock_timeout_seconds = 300, ms_stale_lock_interval_seconds = 60, ms_retention_days = None,
       ms_cleanup_interval_seconds = None\<rparr>,
     bs_resilience = \<lparr>rs_enable_circuit_breaker = True, rs_failure_threshold = 5, rs_recovery_timeout_seconds = 60\<rparr>,
     bs_observability = \<lparr>ob_enable_otel = False, ob_enable_metrics = True\<rparr>\<rparr>"

definition default_inbox_settings :: inbox_settings where
  "default_inbox_settings = box_settings.extend default_settings \<lparr>bs_skip_duplicate_siblings = True\<rparr>"

definition processor_settings_ok :: "processor_settings \<Rightarrow> bool" where
  "processor_settings_ok s \<longleftrightarrow> 1 \<le> ps_batch_size s \<and> 1 \<le> ps_interval_seconds s \<and> 1 \<le> ps_process_timeout_seconds s \<and>
     1 \<le> ps_max_delivery_attempts s"

definition maintenance_settings_ok :: "maintenance_settings \<Rightarrow> bool" where
  "maintenance_settings_ok s \<longleftrightarrow> 1 \<le> ms_stale_lock_timeout_seconds s \<and> 1 \<le> ms_stale_lock_interval_seconds s \<and>
     pred_option ((\<le>) 1) (ms_retention_days s) \<and> pred_option ((\<le>) 1) (ms_cleanup_interval_seconds s)"

definition resilience_settings_ok :: "resilience_settings \<Rightarrow> bool" where
  "resilience_settings_ok s \<longleftrightarrow> 1 \<le> rs_failure_threshold s \<and> 1 \<le> rs_recovery_timeout_seconds s"

text \<open>What pydantic makes of the values it read: the settings, or a \<open>ValidationError\<close>.\<close>

definition validate_settings :: "'z box_settings_scheme \<Rightarrow> 'z box_settings_scheme res" where
  "validate_settings s =
     (if processor_settings_ok (bs_processor s) \<and> maintenance_settings_ok (bs_maintenance s) \<and>
        resilience_settings_ok (bs_resilience s)
      then Inr s else Inl ValidationError)"

text \<open>The Prometheus provider: the collector when metrics are on.\<close>

definition provide_metrics :: "'z box_settings_scheme \<Rightarrow> 's res \<Rightarrow> 's option res" where
  "provide_metrics s collector =
     (if ob_enable_metrics (bs_observability s) then bindr collector (\<lambda>m. Inr (Some m)) else Inr None)"

lemma default_settings_valid: "validate_settings default_settings = Inr default_settings"
  "validate_settings default_inbox_settings = Inr default_inbox_settings"
  by (simp_all add: validate_settings_def default_inbox_settings_def default_settings_def box_settings.defs
      processor_settings_ok_def maintenance_settings_ok_def resilience_settings_ok_def)

text \<open>A breaker made from valid settings is made, unless its timeout is beyond what a \<open>timedelta\<close> holds: the
  settings have no upper bound.\<close>

lemma settings_breaker:
  assumes "validate_settings s = Inr s'"
  shows "is_ok (CircuitBreakerStep_init (rs_failure_threshold (bs_resilience s')) (rs_recovery_timeout_seconds (bs_resilience s')))
    \<longleftrightarrow> timedelta_ok (rs_recovery_timeout_seconds (bs_resilience s'))"
  using assms
  by (auto simp: validate_settings_def resilience_settings_ok_def CircuitBreakerStep_init_def is_ok_iff split: if_splits)

end
