(* ===== verification/Effects.thy ===== *)
theory Effects
  imports ConsumerProps
begin

text \<open>
  What the handler writes: a log in the database the consumer's transactions cover. Over every
  sequence of deliveries, redeliveries and crashes the committed log holds each completed message once.
\<close>

section \<open>The log and the table\<close>

definition completed_ids :: "inbox_event multiset \<Rightarrow> uuid set" where
  "completed_ids T = event_id ` {r. r \<in># T \<and> status r = COMPLETED}"

text \<open>The log holds the ids of the completed rows, each once, and no two rows are of one message.\<close>

definition logged_once :: "inbox_event multiset \<Rightarrow> uuid list \<Rightarrow> bool" where
  "logged_once T l \<longleftrightarrow> unique_ids T \<and> distinct l \<and>
     set l = completed_ids T \<and>
     (\<forall>r\<in>#T. \<forall>r'\<in>#T. same_key r r' \<longrightarrow> r = r')"

lemma logged_onceD:
  assumes "logged_once T l"
  shows "unique_ids T" "distinct l" "set l = completed_ids T"
    "r \<in># T \<Longrightarrow> r' \<in># T \<Longrightarrow> same_key r r' \<Longrightarrow> r = r'"
  using assms by (auto simp: logged_once_def)

lemma logged_once_empty: "logged_once {#} []"
  by (simp add: logged_once_def completed_ids_def unique_ids_def)

lemma logged_once_insert:
  assumes "logged_once T l" and "unique_ids (add_mset e T)" and "status e = PENDING"
    and "\<not> (\<exists>r\<in>#T. same_key e r)"
  shows "logged_once (add_mset e T) l"
  using assms by (auto simp: logged_once_def completed_ids_def same_key_def)

lemma completed_updated:
  assumes "\<And>r. event_id (f r) = event_id r"
  shows "completed_ids (updated_rows p f T) = event_id ` {r \<in> set_mset T. status (if p r then f r else r) = COMPLETED}"
proof -
  define g where "g r = (if p r then f r else r)" for r
  have "set_mset (updated_rows p f T) = g ` set_mset T"
    by (simp add: set_updated_rows g_def [abs_def])
  then have "{r. r \<in># updated_rows p f T \<and> status r = COMPLETED} = g ` {r \<in> set_mset T. status (g r) = COMPLETED}"
    by (simp add: image_def) blast
  moreover have "event_id (g r) = event_id r" for r
    using assms by (simp add: g_def)
  ultimately have "completed_ids (updated_rows p f T) = event_id ` {r \<in> set_mset T. status (g r) = COMPLETED}"
    by (simp add: completed_ids_def image_image)
  then show ?thesis
    by (simp only: g_def)
qed

text \<open>An update of the row \<open>i\<close> that keeps its identity: with its status kept, and completing it.\<close>

lemma logged_once_update:
  assumes "logged_once T l" and "\<And>r. event_id (f r) = event_id r"
    and "\<And>r. message_id (f r) = message_id r" "\<And>r. consumer_group (f r) = consumer_group r"
    and "distinct l'" and "set l' = completed_ids (updated_rows (\<lambda>x. event_id x = i) f T)"
  shows "logged_once (updated_rows (\<lambda>x. event_id x = i) f T) l'"
proof -
  have "r = r'" if r: "r \<in># updated_rows (\<lambda>x. event_id x = i) f T"
    "r' \<in># updated_rows (\<lambda>x. event_id x = i) f T" "same_key r r'" for r r'
  proof -
    obtain a b where ab: "a \<in># T" "b \<in># T" "r = (if event_id a = i then f a else a)"
      "r' = (if event_id b = i then f b else b)"
      using r(1,2) by (auto simp: set_updated_rows)
    then have "same_key a b"
      using r(3) assms(3,4) by (auto simp: same_key_def split: if_splits)
    with ab show ?thesis
      using logged_onceD(4) [OF assms(1) ab(1,2)] by simp
  qed
  with assms unique_updated [of T "\<lambda>x. event_id x = i" f] show ?thesis
    by (simp add: logged_once_def)
qed

lemma logged_once_kept:
  assumes "logged_once T l" and "\<And>r. event_id (f r) = event_id r"
    and "\<And>r. message_id (f r) = message_id r" "\<And>r. consumer_group (f r) = consumer_group r"
    and "\<And>r. status (f r) = status r"
  shows "logged_once (updated_rows (\<lambda>x. event_id x = i) f T) l"
proof -
  have "completed_ids (updated_rows (\<lambda>x. event_id x = i) f T) = completed_ids T"
    using assms(5) unfolding completed_updated [where f = f, OF assms(2)] by (auto simp: completed_ids_def)
  then show ?thesis
    using logged_onceD(2,3) [OF assms(1)]
    by (intro logged_once_update [OF assms(1)] assms(2-4)) simp_all
qed

lemma logged_once_completed:
  assumes "logged_once T l" and "\<And>r. event_id (f r) = event_id r"
    and "\<And>r. message_id (f r) = message_id r" "\<And>r. consumer_group (f r) = consumer_group r"
    and "\<And>r. status (f r) = COMPLETED" and "r \<in># T" "event_id r = i" "status r \<noteq> COMPLETED"
  shows "logged_once (updated_rows (\<lambda>x. event_id x = i) f T) (l @ [i])"
proof -
  have "completed_ids (updated_rows (\<lambda>x. event_id x = i) f T) = insert i (completed_ids T)"
    using assms(5-7) unfolding completed_updated [where f = f, OF assms(2)] by (auto simp: completed_ids_def)
  moreover have "i \<notin> completed_ids T"
    using assms(6-8) unique_same [OF logged_onceD(1) [OF assms(1)]] by (auto simp: completed_ids_def)
  ultimately show ?thesis
    using logged_onceD(2,3) [OF assms(1)]
    by (intro logged_once_update [OF assms(1)] assms(2-4)) simp_all
qed

text \<open>The messages with a completed row.\<close>

definition completed_keys :: "inbox_event multiset \<Rightarrow> (pystr \<times> pystr) set" where
  "completed_keys T = (\<lambda>r. (message_id r, consumer_group r)) ` {r. r \<in># T \<and> status r = COMPLETED}"

lemma completed_keys_update:
  assumes "\<And>r. message_id (f r) = message_id r" "\<And>r. consumer_group (f r) = consumer_group r"
    and "\<And>r. status r = COMPLETED \<Longrightarrow> status (f r) = COMPLETED"
  shows "completed_keys T \<subseteq> completed_keys (updated_rows p f T)"
proof
  fix k
  assume "k \<in> completed_keys T"
  then obtain r where r: "r \<in># T" "status r = COMPLETED" "k = (message_id r, consumer_group r)"
    by (auto simp: completed_keys_def)
  then have "(if p r then f r else r) \<in># updated_rows p f T"
    by (auto simp: set_updated_rows)
  moreover have "k = (message_id (if p r then f r else r), consumer_group (if p r then f r else r))"
    "status (if p r then f r else r) = COMPLETED"
    using r assms by simp_all
  ultimately show "k \<in> completed_keys (updated_rows p f T)"
    unfolding completed_keys_def by blast
qed

section \<open>A log in the consumer's database\<close>

text \<open>\<open>app\<close> is the log the session sees, \<open>kept\<close> the committed one: a transaction opens on the committed
  log, a commit keeps the log and the table together or, when it raises, may keep neither, and a
  rollback drops what was appended.\<close>

locale effects = transactional E P durable
  for E :: "('db, inbox_event) engine" and P :: "'db transaction_provider" and durable +
  fixes app kept :: "'db \<Rightarrow> uuid list"
  assumes enter_log: "tx_enter P db = (res, db') \<Longrightarrow> kept db' = kept db \<and> (res = Inr () \<longrightarrow> app db' = kept db)"
    and commit_log: "tx_leave P None db = (res, db') \<Longrightarrow>
      durable db' = table_rows E db \<and> kept db' = app db \<or>
      res \<noteq> Inr () \<and> durable db' = durable db \<and> kept db' = kept db"
    and rollback_log: "tx_leave P (Some err) db = (res, db') \<Longrightarrow> kept db' = kept db"
    and app_view: "statement_view E app" and kept_view: "statement_view E kept"

text \<open>The handler appends the id of the event to the log, when it returns; it may have appended anything
  when it raises.\<close>

definition handler_logs :: "('db, inbox_event) engine \<Rightarrow> ('db \<Rightarrow> inbox_event multiset) \<Rightarrow> ('db \<Rightarrow> uuid list) \<Rightarrow>
    ('db \<Rightarrow> uuid list) \<Rightarrow> ('db, 'b) runner \<Rightarrow> bool" where
  "handler_logs E durable app kept Q \<longleftrightarrow> handler_stays E durable Q \<and>
     (\<forall>h x db. rn_handler Q = Some h \<longrightarrow> kept (snd (h x db)) = kept db \<and>
       ((\<exists>raw. fst (h x db) = Inr raw) \<longrightarrow> app (snd (h x db)) = app db @ [event_id x]))"

lemma sample_log: "effects (session_engine (session_engine list_engine)) session_provider
    (\<lambda>db. table_rows (session_engine list_engine) (fst db)) (\<lambda>db. fst (snd db)) (\<lambda>db. fst (fst db))"
proof (intro effects.intro session_transactional sql_engine.session_sql effects_axioms.intro)
  show "sql_engine list_engine" by (rule list_sql.sql_engine_axioms)
qed (auto simp: list_engine_def session_provider_def session_engine_def statement_view_def keeps_def on_working_def split: prod.split)

section \<open>One transaction\<close>

context effects
begin

lemma not_handled_effect:
  assumes calls: "rn_calls Q = postgres_inbox E py_str L R" and run: "not_handled Q x db db'"
    and inv: "logged_once (table_rows E db) (app db)"
  shows "logged_once (table_rows E db') (app db') \<and> completed_keys (table_rows E db) \<subseteq> completed_keys (table_rows E db')"
proof (cases "rn_handler Q = None \<or> status x = COMPLETED")
  case True
  with run inv show ?thesis
    by (simp add: not_handled_def)
next
  case False
  then have mp: "mark_processing E (event_id x) (rn_worker_id Q) db = (Inr False, db')"
    using run calls by (auto simp: not_handled_def postgres_inbox_def split: if_splits)
  have "table_rows E db' = table_rows E db"
    using mark_processing_outcome [OF mp logged_onceD(1) [OF inv]] by simp
  moreover have "app db' = app db"
    using keepsD [OF statement_view.mark_processing_view [OF app_view] mp] .
  ultimately show ?thesis
    using inv by simp
qed

lemma handled_effect:
  assumes calls: "rn_calls Q = postgres_inbox E py_str L R" and logs: "handler_logs E durable app kept Q"
    and run: "handled Q x res db db'" and inv: "logged_once (table_rows E db) (app db)"
    and row: "r \<in># table_rows E db" "same_state x r"
  shows "logged_once (table_rows E db') (app db') \<and> completed_keys (table_rows E db) \<subseteq> completed_keys (table_rows E db')"
proof -
  let ?w = "rn_worker_id Q" and ?i = "event_id x"
  obtain h db1 raw db2 where new: "status x \<noteq> COMPLETED" and h: "rn_handler Q = Some h" "h x db1 = (Inr raw, db2)"
    and mp: "mark_processing E ?i ?w db = (Inr True, db1)" and mc: "mark_completed E ?i ?w db2 = (Inr (), db')"
    using run calls by (auto simp: handled_def postgres_inbox_def)
  let ?lock = "\<lambda>r. r\<lparr>locked_at := Some (tx_now E db), locked_by := Some ?w\<rparr>"
  have t1: "table_rows E db1 = updated_rows (\<lambda>y. event_id y = ?i) ?lock (table_rows E db)"
    using mark_processing_outcome [OF mp logged_onceD(1) [OF inv]] by simp
  have "app db1 = app db"
    using keepsD [OF statement_view.mark_processing_view [OF app_view] mp] .
  then have inv1: "logged_once (table_rows E db1) (app db1)"
    unfolding t1 using logged_once_kept [OF inv, of ?lock ?i] by simp
  have "table_rows E (snd (h x db1)) = table_rows E db1"
    "(\<exists>raw. fst (h x db1) = Inr raw) \<longrightarrow> app (snd (h x db1)) = app db1 @ [?i]"
    using logs h(1) by (auto simp: handler_logs_def handler_stays_def)
  then have t2: "table_rows E db2 = table_rows E db1" "app db2 = app db1 @ [?i]"
    using h(2) by simp_all
  have u2: "unique_ids (table_rows E db2)"
    using t2(1) logged_onceD(1) [OF inv1] by simp
  have t3: "table_rows E db' = updated_rows (\<lambda>y. event_id y = ?i) (completed_row (tx_now E db2)) (table_rows E db1)"
    using mark_completed_outcome [OF u2 mc] t2(1) by auto
  have a3: "app db' = app db1 @ [?i]"
    using keepsD [OF statement_view.mark_completed_view [OF app_view] mc] t2(2) by simp
  have "event_id r = ?i" "status r \<noteq> COMPLETED"
    using row(2) new by (auto simp: same_state_def)
  then have lock: "?lock r \<in># table_rows E db1" "event_id (?lock r) = ?i" "status (?lock r) \<noteq> COMPLETED"
    using row(1) t1 by (auto simp: set_updated_rows)
  have "logged_once (table_rows E db') (app db')"
    unfolding t3 a3 by (rule logged_once_completed [OF inv1 _ _ _ _ lock]) (simp_all add: completed_row_def)
  moreover have "completed_keys (table_rows E db) \<subseteq> completed_keys (table_rows E db1)"
    unfolding t1 by (rule completed_keys_update) simp_all
  moreover have "completed_keys (table_rows E db1) \<subseteq> completed_keys (table_rows E db')"
    unfolding t3 by (rule completed_keys_update) (simp_all add: completed_row_def)
  ultimately show ?thesis by blast
qed

lemma body_effect:
  assumes calls: "rn_calls Q = postgres_inbox E py_str L R"
    and R: "PostgresInboxRepository_init part ii im bs em suffix skew = Inr R"
    and logs: "handler_logs E durable app kept Q" and e: "event_of Q m e"
    and inv: "logged_once (table_rows E (n_db s)) (app (n_db s))"
    and run: "transaction_body Q e s = (Inr u, s')" "f_result s = None" "f_error s = None"
  shows "logged_once (table_rows E (n_db s')) (app (n_db s')) \<and>
    completed_keys (table_rows E (n_db s)) \<subseteq> completed_keys (table_rows E (n_db s'))"
proof -
  obtain x db1 where c: "create E py_str L R e (n_db s) = (Inr x, db1)"
    and out: "case f_result s' of None \<Rightarrow> not_handled Q x db1 (n_db s') | Some res \<Rightarrow> handled Q x res db1 (n_db s')"
    using transaction_body_Inr [OF run] calls by (auto simp: postgres_inbox_def)
  note row = created_row [OF R event_ofD(3,1) [OF e] c logged_onceD(1) [OF inv]]
  have "app db1 = app (n_db s)"
    using keepsD [OF statement_view.create_view [OF app_view] c] .
  moreover have "logged_once (table_rows E db1) (app (n_db s))"
    using row inv logged_once_insert [OF inv _ event_ofD(1) [OF e]] by (auto split: if_splits)
  ultimately have inv1: "logged_once (table_rows E db1) (app db1)"
    by simp
  obtain r where "r \<in># table_rows E db1" "same_state x r"
    using row by blast
  then have "logged_once (table_rows E (n_db s')) (app (n_db s'))"
    and "completed_keys (table_rows E db1) \<subseteq> completed_keys (table_rows E (n_db s'))"
    using out not_handled_effect [OF calls _ inv1] handled_effect [OF calls logs _ inv1]
    by (auto split: option.splits)
  moreover have "completed_keys (table_rows E (n_db s)) \<subseteq> completed_keys (table_rows E db1)"
    using row by (auto simp: completed_keys_def split: if_splits)
  ultimately show ?thesis by blast
qed

end

text \<open>The database after the transaction: it was not opened, was left after a body that returned, or was
  rolled back.\<close>

lemma process_in_transaction_db:
  assumes "process_in_transaction Q e s = (r, s')"
  shows "(\<exists>err. tx_enter (rn_provider Q) (n_db s) = (Inl err, n_db s')) \<or>
    (\<exists>f f' b u. tx_enter (rn_provider Q) (n_db s) = (Inr (), n_db f) \<and> f_result f = None \<and> f_error f = None \<and>
      transaction_body Q e f = (b, f') \<and>
      tx_leave (rn_provider Q) (case b of Inl err \<Rightarrow> Some err | Inr _ \<Rightarrow> None) (n_db f') = (u, n_db s'))"
proof -
  let ?f = "node.extend s \<lparr>f_stored = None, f_result = None, f_error = None, f_started_at = 0\<rparr> :: ('a, 'b) frame"
  let ?enter = "on_node_db (tx_enter (rn_provider Q)) :: (('a, 'b) frame, unit) act"
  let ?leave = "\<lambda>err. on_node_db (tx_leave (rn_provider Q) err) :: (('a, 'b) frame, unit) act"
  have f: "n_db ?f = n_db s" "f_result (?f\<lparr>n_db := db\<rparr>) = None" "f_error (?f\<lparr>n_db := db\<rparr>) = None" for db
    by (simp_all add: node.defs)
  obtain r1 s1 where run: "async_with ?enter ?leave (transaction_body Q e) ?f = (r1, s1)"
    by fastforce
  have s1: "n_db s' = n_db s1"
    using assms run
    by (cases r1; auto simp: process_in_transaction_def noting_error_def catch_def andthen_def assign_def node.defs
        split: if_splits)
  obtain r0 db0 where enter: "tx_enter (rn_provider Q) (n_db s) = (r0, db0)"
    by fastforce
  show ?thesis
  proof (cases r0)
    case (Inl err)
    with run enter f(1) s1 show ?thesis
      by (auto simp: async_with_def andthen_def on_node_db_def)
  next
    case (Inr u)
    obtain b s2 where body: "transaction_body Q e (?f\<lparr>n_db := db0\<rparr>) = (b, s2)"
      by fastforce
    obtain u2 db3 where leave: "tx_leave (rn_provider Q) (case b of Inl err \<Rightarrow> Some err | Inr _ \<Rightarrow> None) (n_db s2) =
        (u2, db3)"
      by fastforce
    have "n_db s1 = db3"
      using run enter Inr body leave f(1)
      by (cases b; cases u2) (auto simp: async_with_def andthen_def on_node_db_def)
    then show ?thesis
      using enter Inr body leave s1 f(2,3) by (intro disjI2 exI [of _ "?f\<lparr>n_db := db0\<rparr>"] exI conjI) auto
  qed
qed

context effects
begin

lemma transaction_effect:
  assumes Q: "inbox_runner E P durable py_str L R Q" and logs: "handler_logs E durable app kept Q"
    and e: "event_of Q m e" and inv: "logged_once (durable (n_db s)) (kept (n_db s))"
    and run: "process_in_transaction Q e s = (r, s')"
  shows "logged_once (durable (n_db s')) (kept (n_db s')) \<and>
    completed_keys (durable (n_db s)) \<subseteq> completed_keys (durable (n_db s'))"
proof -
  obtain part ii im bs em suffix skew where P: "rn_provider Q = P" and calls: "rn_calls Q = postgres_inbox E py_str L R"
    and R: "PostgresInboxRepository_init part ii im bs em suffix skew = Inr R"
    using Q by (auto simp: inbox_runner_def)
  have enter: "durable db' = durable db \<and> kept db' = kept db \<and>
      (res = Inr () \<longrightarrow> table_rows E db' = durable db \<and> app db' = kept db)"
    if "tx_enter P db = (res, db')" for db res db'
    using enter_law [OF that] enter_log [OF that] by blast
  have on_handler: "keeps durable (h x)" "keeps kept (h x)" if "rn_handler Q = Some h" for h x
    using logs that by (simp_all add: keeps_def handler_logs_def handler_stays_def)
  have body_same: "keeps (\<lambda>s. durable (n_db s)) (transaction_body Q e)" "keeps (\<lambda>s. kept (n_db s)) (transaction_body Q e)"
    by (rule body_view [OF durable_view calls], erule on_handler, rule body_view [OF kept_view calls], erule on_handler)
  from process_in_transaction_db [OF run, unfolded P] show ?thesis
  proof (elim disjE exE conjE)
    fix err
    assume "tx_enter P (n_db s) = (Inl err, n_db s')"
    from enter [OF this] inv show ?thesis
      by simp
  next
    fix f f' b u
    assume opened: "tx_enter P (n_db s) = (Inr (), n_db f)" and f: "f_result f = None" "f_error f = None"
      and body: "transaction_body Q e f = (b, f')"
      and leave: "tx_leave P (case b of Inl err \<Rightarrow> Some err | Inr _ \<Rightarrow> None) (n_db f') = (u, n_db s')"
    have inv0: "logged_once (table_rows E (n_db f)) (app (n_db f))"
      using enter [OF opened] inv by simp
    have same: "durable (n_db f') = durable (n_db s)" "kept (n_db f') = kept (n_db s)"
      using enter [OF opened] keepsD [OF body_same(1) body] keepsD [OF body_same(2) body] by simp_all
    show ?thesis
    proof (cases b)
      case (Inl err)
      then have "durable (n_db s') = durable (n_db s)" "kept (n_db s') = kept (n_db s)"
        using leave same rollback_law rollback_log by (metis sum.case(1))+
      with inv show ?thesis by simp
    next
      case (Inr v)
      have "logged_once (table_rows E (n_db f')) (app (n_db f')) \<and>
          completed_keys (durable (n_db s)) \<subseteq> completed_keys (table_rows E (n_db f'))"
        using body_effect [OF calls R logs e inv0 _ f] body Inr enter [OF opened] by simp
      then show ?thesis
        using commit_log [of "n_db f'" u "n_db s'"] leave Inr same inv by auto
    qed
  qed
qed

end

section \<open>Deliveries\<close>

text \<open>A computation that leaves the database alone or runs one transaction on an event of a message.\<close>

definition one_transaction :: "('db, 'b) runner \<Rightarrow> (('db, 'b) node, 'a) act \<Rightarrow> bool" where
  "one_transaction Q act \<longleftrightarrow> (\<forall>s r s'. act s = (r, s') \<longrightarrow> n_db s' = n_db s \<or>
     (\<exists>m e s1 t s2. event_of Q m e \<and> n_db s1 = n_db s \<and> process_in_transaction Q e s1 = (t, s2) \<and> n_db s' = n_db s2))"

lemma one_transaction_before:
  assumes "keeps n_db a" and "\<And>x s s'. a s = (Inr x, s') \<Longrightarrow> one_transaction Q (k x)"
  shows "one_transaction Q (andthen a k)"
  unfolding one_transaction_def
proof (intro allI impI)
  fix s r s'
  assume run: "andthen a k s = (r, s')"
  obtain x s1 where a: "a s = (x, s1)"
    by fastforce
  then have s1: "n_db s1 = n_db s"
    by (rule keepsD [OF assms(1)])
  show "n_db s' = n_db s \<or> (\<exists>m e s1 t s2. event_of Q m e \<and> n_db s1 = n_db s \<and>
      process_in_transaction Q e s1 = (t, s2) \<and> n_db s' = n_db s2)"
  proof (cases x)
    case (Inl err)
    with a run s1 show ?thesis
      by (simp add: andthen_def)
  next
    case (Inr y)
    then have "k y s1 = (r, s')"
      using a run by (simp add: andthen_def)
    with assms(2) a Inr s1 show ?thesis
      unfolding one_transaction_def by metis
  qed
qed

lemma one_transaction_after:
  assumes "one_transaction Q a" and "\<And>x. keeps n_db (k x)"
  shows "one_transaction Q (andthen a k)"
proof -
  have "n_db s' = n_db (snd (a s))" if "andthen a k s = (r, s')" for s r s'
    using that keepsD [OF assms(2)] by (auto simp: andthen_def split: prod.splits sum.splits)
  with assms(1) show ?thesis
    unfolding one_transaction_def by (metis prod.collapse)
qed

lemma one_transaction_catch:
  assumes "one_transaction Q a" and "\<And>err. keeps n_db (k err)"
  shows "one_transaction Q (catch a k)"
proof -
  have "n_db s' = n_db (snd (a s))" if "catch a k s = (r, s')" for s r s'
    using that keepsD [OF assms(2)] by (auto simp: catch_def split: prod.splits sum.splits)
  with assms(1) show ?thesis
    unfolding one_transaction_def by (metis prod.collapse)
qed

lemma process_one_transaction: "one_transaction Q (process_one Q)"
proof -
  have tx: "one_transaction Q (process_in_transaction Q e)" if "event_of Q m e" for m e
    using that unfolding one_transaction_def by blast
  have "one_transaction Q (process_message Q m h)" for m h
    unfolding process_message_def
    by (intro one_transaction_before one_transaction_after tx keeps_intros keeps_db_calls keeps_db)
      (auto dest: create_event_Inr)
  then show ?thesis
    unfolding process_one_def
    by (intro one_transaction_before one_transaction_after one_transaction_catch keeps_intros keeps_db_calls keeps_db)
qed

text \<open>What can happen to the inbox and the log: they start empty; a runner of \<open>W\<close> calls \<open>process_one\<close>, which
  may end in any way, on a broker and clocks in any state; or a process is gone, and what it had not
  committed with it, before or after the offset was.\<close>

inductive deliveries :: "('db, 'b) runner set \<Rightarrow> ('db \<Rightarrow> inbox_event multiset) \<Rightarrow> ('db \<Rightarrow> uuid list) \<Rightarrow>
    ('db, 'b) node \<Rightarrow> bool" for W durable kept where
  first: "durable (n_db s) = {#} \<Longrightarrow> kept (n_db s) = [] \<Longrightarrow> deliveries W durable kept s"
| deliver: "deliveries W durable kept s \<Longrightarrow> Q \<in> W \<Longrightarrow> process_one Q s = (r, s') \<Longrightarrow> deliveries W durable kept s'"
| crash: "deliveries W durable kept s \<Longrightarrow> durable (n_db s') = durable (n_db s) \<Longrightarrow>
    kept (n_db s') = kept (n_db s) \<Longrightarrow> deliveries W durable kept s'"

definition logging_runners :: "('db, inbox_event) engine \<Rightarrow> 'db transaction_provider \<Rightarrow>
    ('db \<Rightarrow> inbox_event multiset) \<Rightarrow> ('db \<Rightarrow> uuid list) \<Rightarrow> ('db \<Rightarrow> uuid list) \<Rightarrow> ('db, 'b) runner set \<Rightarrow> bool" where
  "logging_runners E P durable app kept W \<longleftrightarrow>
     (\<forall>Q\<in>W. (\<exists>py_str L R. inbox_runner E P durable py_str L R Q) \<and> handler_logs E durable app kept Q)"

lemma process_one_effect:
  assumes "effects E P durable app kept" and "inbox_runner E P durable py_str L R Q" and "handler_logs E durable app kept Q"
    and "logged_once (durable (n_db s)) (kept (n_db s))" and "process_one Q s = (r, s')"
  shows "logged_once (durable (n_db s')) (kept (n_db s')) \<and>
    completed_keys (durable (n_db s)) \<subseteq> completed_keys (durable (n_db s'))"
proof -
  from process_one_transaction [of Q] assms(5) consider "n_db s' = n_db s"
    | m e s1 t s2 where "event_of Q m e" "n_db s1 = n_db s" "process_in_transaction Q e s1 = (t, s2)" "n_db s' = n_db s2"
    unfolding one_transaction_def by blast
  then show ?thesis
  proof cases
    case 1
    with assms(4) show ?thesis by simp
  next
    case 2
    then show ?thesis
      using effects.transaction_effect [OF assms(1-3) 2(1) _ 2(3)] assms(4) by simp
  qed
qed

lemma count_distinct: "distinct l \<Longrightarrow> x \<in> set l \<Longrightarrow> count_list l x = 1"
  by (induction l) (auto simp: count_list_0_iff)

lemma logged_effect:
  assumes "logged_once T l" and "(mid, g) \<in> completed_keys T"
  shows "\<exists>r\<in>#T. message_id r = mid \<and> consumer_group r = g \<and> status r = COMPLETED \<and> count_list l (event_id r) = 1 \<and>
    (\<forall>r'\<in>#T. message_id r' = message_id r \<and> consumer_group r' = consumer_group r \<longrightarrow> r' = r)"
proof -
  obtain r where r: "r \<in># T" "status r = COMPLETED" "message_id r = mid" "consumer_group r = g"
    using assms(2) by (auto simp: completed_keys_def)
  then have "event_id r \<in> set l"
    using logged_onceD(3) [OF assms(1)] by (simp add: completed_ids_def)
  then have once: "count_list l (event_id r) = 1"
    by (rule count_distinct [OF logged_onceD(2) [OF assms(1)]])
  have "r' = r" if "r' \<in># T" "message_id r' = message_id r \<and> consumer_group r' = consumer_group r" for r'
    using logged_onceD(4) [OF assms(1) r(1) that(1)] that(2) unfolding same_key_def by blast
  with once r show ?thesis
    by blast
qed

lemma deliveries_logged:
  assumes "effects E P durable app kept" and "logging_runners E P durable app kept W"
    and "deliveries W durable kept s"
  shows "logged_once (durable (n_db s)) (kept (n_db s))"
  using assms(3)
proof (induction rule: deliveries.induct)
  case (first s)
  then show ?case
    by (simp add: logged_once_empty)
next
  case (deliver s Q r s')
  obtain py_str L R where Q: "inbox_runner E P durable py_str L R Q" "handler_logs E durable app kept Q"
    using assms(2) deliver(2) by (auto simp: logging_runners_def)
  then show ?case
    using process_one_effect [OF assms(1) Q deliver.IH deliver(3)] by blast
next
  case (crash s s')
  then show ?case
    by simp
qed

text \<open>C12. Whatever is delivered, as often and to as many runners of any strategy, whatever the handlers
  return or raise, whatever fails and wherever a process dies: the committed log of the handlers' effects
  holds each id once, the ids in it are those of the completed rows, and a message has at most one row for
  a consumer group. So the effect of a message is committed at most once, and exactly once when its row is
  completed. The inbox is a plain table.\<close>

theorem effects_match_completed:
  assumes "effects E P durable app kept" and "logging_runners E P durable app kept W"
    and "deliveries W durable kept s"
  shows "distinct (kept (n_db s)) \<and>
    set (kept (n_db s)) = event_id ` {r. r \<in># durable (n_db s) \<and> status r = COMPLETED} \<and>
    (\<forall>r\<in>#durable (n_db s). \<forall>r'\<in>#durable (n_db s).
      message_id r' = message_id r \<and> consumer_group r' = consumer_group r \<longrightarrow> r = r')"
  using deliveries_logged [OF assms] by (auto simp: logged_once_def completed_ids_def same_key_def)

text \<open>C11. \<open>EXACTLY_ONCE_INBOX\<close>, over every such history: when the runner commits a message to the broker,
  the log holds the effect of the message, once.\<close>

theorem committed_effect_once:
  assumes "effects E P durable app kept" and "logging_runners E P durable app kept W"
    and "deliveries W durable kept s" and "Q \<in> W" and "rn_ack_strategy Q = EXACTLY_ONCE_INBOX"
    and "\<not> rn_commit_on_failed Q" and "rn_handler Q \<noteq> None" and "rn_getone Q (n_broker s) = (Inr m, b)"
    and "process_one Q s = (Inr result, s')" and "cr_committed result"
  shows "\<exists>r\<in>#durable (n_db s'). message_id r = strip (msg_message_id m) \<and>
    consumer_group r = strip (rn_consumer_group Q) \<and> count_list (kept (n_db s')) (event_id r) = 1 \<and>
    (\<forall>r'\<in>#durable (n_db s'). message_id r' = message_id r \<and> consumer_group r' = consumer_group r \<longrightarrow> r' = r)"
proof -
  obtain py_str L R where Q: "inbox_runner E P durable py_str L R Q" "handler_stays E durable Q"
    using assms(2,4) by (auto simp: logging_runners_def handler_logs_def)
  note before = deliveries_logged [OF assms(1-3)] and after = deliveries_logged [OF assms(1,2) deliveries.deliver [OF assms(3,4,9)]]
  obtain r where r: "r \<in># durable (n_db s')" "status r = COMPLETED" "row_of Q m r"
    using committed_row [OF Q logged_onceD(1) [OF before] assms(5-10)] by blast
  then have "(strip (msg_message_id m), strip (rn_consumer_group Q)) \<in> completed_keys (durable (n_db s'))"
    unfolding completed_keys_def row_of_def by force
  from logged_effect [OF after this] show ?thesis
    by blast
qed

section \<open>A run\<close>

text \<open>The list engine beside a log, and a handler that appends to it.\<close>

type_synonym log_db = "uuid list \<times> inbox_event listdb"

abbreviation log_engine :: "(log_db \<times> log_db, inbox_event) engine" where
  "log_engine \<equiv> session_engine (session_engine list_engine)"

definition log_handler :: "(log_db \<times> log_db, inbox_event) handler" where
  "log_handler x db = (Inr None, (fst db, (fst (snd db) @ [event_id x], snd (snd db))))"

abbreviation log_reader :: "('b, 'b consumed_message) act \<Rightarrow> (log_db \<times> log_db, 'b) runner" where
  "log_reader getone \<equiv> runner_reading getone log_engine session_provider EXACTLY_ONCE_INBOX ON_PERSIST log_handler"

abbreviation log_runner :: "(log_db \<times> log_db, nat list) runner" where
  "log_runner \<equiv> log_reader (ret sample_message)"

lemma log_calls:
  assumes "arrived e"
  shows "create log_engine (\<lambda>_. []) sample_libs sample_inbox_repository e (d, l, sample_table []) =
      (Inr e, (d, l, sample_table [e]))"
    and "mark_processing log_engine (UUID 7) (lit ''w'') (d, l, sample_table [e]) = (Inr True, (d, l, sample_table [taken e]))"
    and "log_handler e (d, l, sample_table [taken e]) = (Inr None, (d, l @ [UUID 7], sample_table [taken e]))"
    and "mark_completed log_engine (UUID 7) (lit ''w'') (d, l', sample_table [taken e]) =
      (Inr (), (d, l', sample_table [finished e]))"
  using assms
  by (auto simp: log_handler_def arrived_def intro!: liftsD [OF lifts_create] liftsD [OF lifts_marks(1)] liftsD [OF lifts_marks(2)]
      session_calls)

abbreviation log_node :: "uuid list \<Rightarrow> inbox_event list \<Rightarrow> (log_db \<times> log_db, nat list) node" where
  "log_node l rows \<equiv> node_with [] ((l, sample_table rows), ([], sample_table []))"

lemma log_run_of:
  assumes "arrived e" and "getone b = (Inr m, b0)" and "ack_commit (handle_of m) b0 = (Inr (), b1)"
    and "message_event (log_reader getone) m (UUID 7) 0 0 = Inr e"
  shows "\<exists>s'. process_one (log_reader getone) (node_with b (([], sample_table []), d)) =
      (Inr (sample_outcome (msg_message_id m) True True), s') \<and> n_broker s' = b1 \<and>
    n_db s' = (([UUID 7], sample_table [finished e]), ([UUID 7], sample_table [finished e]))"
proof (rule arrived_run [OF assms])
  let ?l0 = "([], sample_table []) :: log_db" and ?l1 = "([UUID 7], sample_table [finished e])"
  show "tx_enter session_provider (?l0, d) = (Inr (), (?l0, ?l0))"
    "tx_leave session_provider None (?l0, ?l1) = (Inr (), (?l1, ?l1))"
    by (simp_all add: session_provider_def)
  show "log_handler e (?l0, [], sample_table [taken e]) = (Inr None, (?l0, [UUID 7], sample_table [taken e]))"
    using log_calls(3) [OF assms(1), of ?l0 "[]"] by simp
qed (rule log_calls [OF assms(1)])+

lemma log_run:
  "\<exists>s'. process_one log_runner (log_node [] []) = (Inr (sample_outcome (lit ''m'') True True), s') \<and> n_broker s' = [1] \<and>
     n_db s' = (([UUID 7], sample_table [finished sample_inbox_event]), ([UUID 7], sample_table [finished sample_inbox_event]))"
proof -
  have "ret sample_message [] = (Inr sample_message, [])" "ack_commit (handle_of sample_message) [] = (Inr (), [1])"
    by simp_all
  from log_run_of [where getone = "ret sample_message", OF sample_arrived this sample_message_event] show ?thesis
    by simp
qed

abbreviation log_durable :: "log_db \<times> log_db \<Rightarrow> inbox_event multiset" where
  "log_durable \<equiv> \<lambda>db. table_rows (session_engine list_engine) (fst db)"

interpretation logged: effects log_engine session_provider log_durable "\<lambda>db. fst (snd db)" "\<lambda>db. fst (fst db)"
  by (rule sample_log)

lemma log_reader_ok:
  "inbox_runner log_engine session_provider log_durable (\<lambda>_. []) sample_libs sample_inbox_repository (log_reader getone)"
  "handler_logs log_engine log_durable (\<lambda>db. fst (snd db)) (\<lambda>db. fst (fst db)) (log_reader getone)"
proof -
  show "inbox_runner log_engine session_provider log_durable (\<lambda>_. []) sample_libs sample_inbox_repository (log_reader getone)"
    using sample_inbox_repository_init logged.transactional_axioms unfolding inbox_runner_def by fastforce
  show "handler_logs log_engine log_durable (\<lambda>db. fst (snd db)) (\<lambda>db. fst (fst db)) (log_reader getone)"
    by (simp add: handler_logs_def handler_stays_def log_handler_def session_engine_def)
qed

lemma log_runners: "logging_runners log_engine session_provider log_durable (\<lambda>db. fst (snd db)) (\<lambda>db. fst (fst db)) {log_runner}"
  using log_reader_ok [of "ret sample_message"] unfolding logging_runners_def by blast

lemma log_start: "deliveries {log_runner} log_durable (\<lambda>db. fst (fst db)) (log_node [] [])"
  by (rule deliveries.first) (simp_all add: node_with_def session_engine_def list_engine_def)

theorem effects_match_completed_witness:
  "\<exists>s'. process_one log_runner (log_node [] []) = (Inr (sample_outcome (lit ''m'') True True), s') \<and> fst (fst (n_db s')) = [UUID 7] \<and>
     {UUID 7} = event_id ` {r. r \<in># log_durable (n_db s') \<and> status r = COMPLETED}"
proof -
  obtain s' where run: "process_one log_runner (log_node [] []) = (Inr (sample_outcome (lit ''m'') True True), s')"
    and db: "fst (fst (n_db s')) = [UUID 7]"
    using log_run by force
  have "set (fst (fst (n_db s'))) = event_id ` {r. r \<in># log_durable (n_db s') \<and> status r = COMPLETED}"
    using effects_match_completed [OF sample_log log_runners deliveries.deliver [OF log_start _ run]] by simp
  with run db show ?thesis
    by simp
qed

theorem committed_effect_once_witness:
  "\<exists>s' r. process_one log_runner (log_node [] []) = (Inr (sample_outcome (lit ''m'') True True), s') \<and>
     r \<in># log_durable (n_db s') \<and> message_id r = lit ''m'' \<and> count_list (fst (fst (n_db s'))) (event_id r) = 1"
proof -
  obtain s' where run: "process_one log_runner (log_node [] []) = (Inr (sample_outcome (lit ''m'') True True), s')"
    using log_run by blast
  have "strip (lit ''m'') = lit ''m''"
    by (simp add: strip_def lit_def py_space_def)
  then show ?thesis
    using committed_effect_once [OF sample_log log_runners log_start _ _ _ _ _ run, where m = sample_message and b = "[]"] run
    by (auto simp: node_with_def sample_outcome_def)
qed

end
