(* ===== verification/Stream.thy ===== *)
theory Stream
  imports Effects KafkaProps
begin

text \<open>
  The consumer over Kafka and PostgreSQL together: the runner, the Kafka adapter with its client, and the
  inbox with the handlers' effects. What the group's committed offset has passed is in the inbox, completed,
  with its effect, once.
\<close>

section \<open>When the offset is committed\<close>

text \<open>The transaction of a message that allows its offset to be committed.\<close>

definition settled_by :: "('db, 'b) runner \<Rightarrow> 'b consumed_message \<Rightarrow> 'db \<Rightarrow> 'db \<Rightarrow> bool" where
  "settled_by Q m db db' \<longleftrightarrow> (\<exists>e x res err t s1 s2. event_of Q m e \<and> n_db s1 = db \<and>
     process_in_transaction Q e s1 = (Inr (Some x, res, err, t), s2) \<and> db' = n_db s2 \<and> commits Q x res err)"

definition acks_settled :: "('db, 'b) runner \<Rightarrow> 'b consumed_message \<Rightarrow> 'b ack_handle \<Rightarrow> (('db, 'b) node, 'a) act \<Rightarrow> bool" where
  "acks_settled Q m h act \<longleftrightarrow> (\<forall>s r s'. act s = (r, s') \<longrightarrow> n_broker s' = n_broker s \<or>
     n_broker s' = snd (ack_commit h (n_broker s)) \<and> settled_by Q m (n_db s) (n_db s'))"

lemma acks_settled_before:
  assumes "keeps n_broker a" and "keeps n_db a" and "\<And>x s s'. a s = (Inr x, s') \<Longrightarrow> acks_settled Q m h (k x)"
  shows "acks_settled Q m h (andthen a k)"
  unfolding acks_settled_def
proof (intro allI impI)
  fix s r s'
  assume run: "andthen a k s = (r, s')"
  obtain x s1 where a: "a s = (x, s1)"
    by fastforce
  then have s1: "n_broker s1 = n_broker s" "n_db s1 = n_db s"
    using keepsD [OF assms(1)] keepsD [OF assms(2)] by blast+
  show "n_broker s' = n_broker s \<or> n_broker s' = snd (ack_commit h (n_broker s)) \<and> settled_by Q m (n_db s) (n_db s')"
  proof (cases x)
    case (Inl err)
    with a run s1 show ?thesis
      by (simp add: andthen_def)
  next
    case (Inr y)
    then have "k y s1 = (r, s')"
      using a run by (simp add: andthen_def)
    with assms(3) a Inr s1 show ?thesis
      unfolding acks_settled_def by metis
  qed
qed

text \<open>A tail that commits only when \<open>p\<close>, and changes the broker and the database in no other way.\<close>

definition commits_when :: "bool \<Rightarrow> 'b ack_handle \<Rightarrow> (('db, 'b) node, 'a) act \<Rightarrow> bool" where
  "commits_when p h act \<longleftrightarrow> keeps n_db act \<and>
     (\<forall>s r s'. act s = (r, s') \<longrightarrow> n_broker s' = n_broker s \<or> p \<and> n_broker s' = snd (ack_commit h (n_broker s)))"

lemma commits_when_keeps: "keeps n_db a \<Longrightarrow> keeps n_broker a \<Longrightarrow> commits_when p h a"
  unfolding commits_when_def by (blast dest: keepsD)

lemma commits_when_if:
  assumes "\<And>d. keeps n_db (k d)" and "\<And>d. keeps n_broker (k d)"
  shows "commits_when p h (andthen (commit_if Q h p c) k)"
proof -
  have "n_broker s' = n_broker s \<or> p \<and> n_broker s' = snd (ack_commit h (n_broker s))"
    if run: "andthen (commit_if Q h p c) k s = (r, s')" for s r s'
  proof -
    obtain x s1 where c: "commit_if Q h p c s = (x, s1)"
      by fastforce
    then have "n_broker s1 = n_broker s \<or> p \<and> n_broker s1 = snd (ack_commit h (n_broker s))"
      using commit_with_metrics_broker [of Q h s]
      by (auto simp: commit_if_def andthen_def split: if_splits prod.splits sum.splits)
    moreover have "n_broker s' = n_broker s1"
      using run c keepsD [OF assms(2)] by (auto simp: andthen_def split: sum.splits)
    ultimately show ?thesis by simp
  qed
  then show ?thesis
    unfolding commits_when_def by (blast intro: keeps_intros keeps_db_calls assms(1))
qed

lemma commits_when_before:
  assumes "keeps n_broker a" and "keeps n_db a" and "\<And>x. commits_when p h (k x)"
  shows "commits_when p h (andthen a k)"
proof -
  have "keeps n_db (andthen a k)"
    using assms(2,3) by (intro keeps_intros) (auto simp: commits_when_def)
  moreover have "n_broker s' = n_broker s \<or> p \<and> n_broker s' = snd (ack_commit h (n_broker s))"
    if run: "andthen a k s = (r, s')" for s r s'
  proof -
    obtain x s1 where a: "a s = (x, s1)"
      by fastforce
    then have "n_broker s1 = n_broker s"
      by (rule keepsD [OF assms(1)])
    with run a assms(3) show ?thesis
      unfolding commits_when_def by (cases x) (simp_all add: andthen_def, metis)
  qed
  ultimately show ?thesis
    unfolding commits_when_def by blast
qed

lemma acks_settled_transaction:
  assumes "event_of Q m e" and "\<And>err t. keeps n_db (k (None, err, t)) \<and> keeps n_broker (k (None, err, t))"
    and "\<And>x res err t. commits_when (commits Q x res err) h (k (Some x, res, err, t))"
  shows "acks_settled Q m h (andthen (process_in_transaction Q e) k)"
  unfolding acks_settled_def
proof (intro allI impI)
  fix s r s'
  assume run: "andthen (process_in_transaction Q e) k s = (r, s')"
  obtain y s1 where tx: "process_in_transaction Q e s = (y, s1)"
    by fastforce
  then have b1: "n_broker s1 = n_broker s"
    by (rule keepsD [OF keeps_process_in_transaction(1)])
  show "n_broker s' = n_broker s \<or> n_broker s' = snd (ack_commit h (n_broker s)) \<and> settled_by Q m (n_db s) (n_db s')"
  proof (cases y)
    case (Inl err)
    with run tx b1 show ?thesis
      by (simp add: andthen_def)
  next
    case (Inr out)
    obtain stored res err t where out: "out = (stored, res, err, t)"
      by (cases out)
    have k: "k (stored, res, err, t) s1 = (r, s')"
      using run tx Inr out by (simp add: andthen_def)
    show ?thesis
    proof (cases stored)
      case None
      have "n_broker s' = n_broker s1"
        using keepsD [OF assms(2) [THEN conjunct2] k [unfolded None]] .
      with b1 show ?thesis by simp
    next
      case (Some x)
      have tail: "commits_when (commits Q x res err) h (k (Some x, res, err, t))"
        by (rule assms(3))
      then have "n_db s' = n_db s1"
        using k Some by (auto simp: commits_when_def dest: keepsD)
      moreover have "n_broker s' = n_broker s1 \<or> commits Q x res err \<and> n_broker s' = snd (ack_commit h (n_broker s1))"
        using tail k Some by (auto simp: commits_when_def)
      ultimately show ?thesis
        unfolding settled_by_def using assms(1) tx Inr out Some b1 by metis
    qed
  qed
qed

lemma process_message_settled:
  assumes "rn_ack_strategy Q = EXACTLY_ONCE_INBOX" and "\<not> rn_commit_on_failed Q"
  shows "acks_settled Q m h (process_message Q m h)"
proof -
  let ?k = "\<lambda>(stored, result, error, started_at).
     case stored of
       None \<Rightarrow> throw (InboxPersistError (msg_message_id m) error)
     | Some stored \<Rightarrow>
         if status stored = COMPLETED then handle_duplicate Q m stored h False
         else if error \<noteq> None then handle_handler_error Q m stored started_at h False
         else andthen (case result of
                None \<Rightarrow> ret ()
              | Some r \<Rightarrow> update_metrics_after_handler Q (msg_event_type m) r started_at) (\<lambda>_.
           andthen (commit_if Q h (should_commit_offset Q result False) False) (\<lambda>committed.
           ret \<lparr>cr_message_id = msg_message_id m, cr_event_id = Some (event_id stored),
             cr_committed = committed,
             cr_processed = (case result of None \<Rightarrow> False | Some r \<Rightarrow> res_processed r),
             cr_duplicate = False\<rparr>))"
  have metrics: "keeps n_broker (case result of None \<Rightarrow> ret ()
      | Some r \<Rightarrow> update_metrics_after_handler Q ev r t)" for result ev t
    unfolding update_metrics_after_handler_def by (intro keeps_intros keeps_broker)
  have event: "keeps n_broker (create_event Q m)"
    unfolding create_event_def by (intro keeps_intros keeps_broker)
  have failed: "keeps n_broker (handle_handler_error Q m x t h False)" for x t
    unfolding handle_handler_error_def using assms
    by (simp only: simp_thms commit_if_False ack_strategy.distinct)
      (intro keeps_intros keeps_broker)
  have dup: "commits_when True h (handle_duplicate Q m x h False)" for x
    unfolding handle_duplicate_def not_False_eq_True
    by (intro commits_when_if keeps_intros keeps_db keeps_broker)
  have tail: "commits_when (commits Q x res err) h (?k (Some x, res, err, t))" for x res err t
  proof -
    consider "status x = COMPLETED" | "status x \<noteq> COMPLETED" "err \<noteq> None" | "status x \<noteq> COMPLETED" "err = None"
      by blast
    then show ?thesis
    proof cases
      case 1
      then show ?thesis
        using dup by (simp add: commits_def)
    next
      case 2
      then show ?thesis
        by (simp add: commits_when_keeps failed keeps_db_calls)
    next
      case 3
      then have "commits Q x res err \<longleftrightarrow> should_commit_offset Q res False"
        using assms by (simp add: commits_def)
      with 3 show ?thesis
        by simp (intro commits_when_before commits_when_if metrics keeps_intros keeps_db_calls)
    qed
  qed
  have "rn_ack_strategy Q = AT_MOST_ONCE \<longleftrightarrow> False"
    using assms by simp
  then have message: "process_message Q m h = andthen (create_event Q m) (\<lambda>e. andthen (process_in_transaction Q e) ?k)"
    unfolding process_message_def by (simp only: commit_if_False andthen_ret_left)
  show ?thesis
    unfolding message
    by (intro acks_settled_before event keeps_db_calls acks_settled_transaction tail)
      (auto simp: keeps_pure dest: create_event_Inr)
qed

text \<open>The broker after a message, and what the database holds when its offset was committed, or tried to.\<close>

lemma process_one_settled:
  assumes "rn_ack_strategy Q = EXACTLY_ONCE_INBOX" and "\<not> rn_commit_on_failed Q"
    and "rn_getone Q (n_broker s) = (Inr m, b)" and "process_one Q s = (r, s')"
  obtains b1 where "n_broker s' = b1 \<or> n_broker s' = snd (ack_rewind (handle_of m) b1)"
    and "b1 = b \<or> b1 = snd (ack_commit (handle_of m) b) \<and> settled_by Q m (n_db s) (n_db s')"
proof -
  let ?h = "handle_of m"
  obtain s0 where get: "on_broker (rn_getone Q) s = (Inr m, s0)" and s0: "n_broker s0 = b" "n_db s0 = n_db s"
    using assms(3) by (simp add: on_broker_def)
  obtain x s1 where rep: "report Q IncConsumed s0 = (x, s1)"
    by fastforce
  then have s1: "n_broker s1 = b" "n_db s1 = n_db s"
    using keepsD [OF keeps_broker(5)] keepsD [OF keeps_db(4)] s0 by (metis, metis)
  have rewound: "n_broker s3 = snd (ack_rewind ?h (n_broker s2)) \<and> n_db s3 = n_db s2"
    if "rewind ?h s2 = (u, s3)" for s2 u s3
    using that keepsD [OF keeps_db_calls(3)]
    by (auto simp: rewind_def catch_def on_broker_def split: prod.splits sum.splits if_splits)
  show thesis
  proof (cases x)
    case (Inl err)
    then have "s' = s1"
      using assms(4) get rep by (simp add: process_one_def andthen_def)
    with s1 show thesis
      by (intro that [of b]) simp_all
  next
    case (Inr u)
    obtain y s2 where run: "process_message Q m ?h s1 = (y, s2)"
      by fastforce
    have "n_broker s2 = b \<or> n_broker s2 = snd (ack_commit ?h b) \<and> settled_by Q m (n_db s) (n_db s2)"
      using process_message_settled [OF assms(1,2), of m ?h] run s1 unfolding acks_settled_def by metis
    moreover have "(n_broker s' = n_broker s2 \<or> n_broker s' = snd (ack_rewind ?h (n_broker s2))) \<and> n_db s' = n_db s2"
    proof -
      obtain z s3 where z: "rewind ?h s2 = (z, s3)"
        by fastforce
      then have "s' = s2 \<or> s' = s3"
        using assms(4) get rep Inr run
        by (cases y; cases z) (auto simp: process_one_def andthen_def catch_def split: if_splits)
      with rewound [OF z] show ?thesis by auto
    qed
    ultimately show thesis
      by (intro that [of "n_broker s2"]) auto
  qed
qed

section \<open>The log of a topic\<close>

text \<open>A client that reads a fixed log: the record of a partition and an offset is always the same.\<close>

locale kafka_stream = aiokafka_consumer c position committed offsets
  for c :: "'b consumer_client" and position committed :: "'b \<Rightarrow> topic_partition \<Rightarrow> int"
    and offsets :: "topic_partition \<Rightarrow> int set" +
  fixes record_at :: "topic_partition \<Rightarrow> int \<Rightarrow> kafka_record"
  assumes getone_record: "cl_getone c b = (Inr r, b') \<Longrightarrow> record_at (partition_of r) (kr_offset r) = r"

definition found_at :: "kafka_record list \<Rightarrow> topic_partition \<Rightarrow> int \<Rightarrow> kafka_record" where
  "found_at rs tp i = the (List.find (\<lambda>r. partition_of r = tp \<and> kr_offset r = i) rs)"

lemma next_record_found:
  assumes "next_record rs pos = Some r"
  shows "found_at rs (partition_of r) (kr_offset r) = r"
proof -
  let ?P = "\<lambda>r. pos (partition_of r) \<le> kr_offset r \<and>
      (\<forall>q\<in>set rs. partition_of q = partition_of r \<and> pos (partition_of q) \<le> kr_offset q \<longrightarrow> kr_offset r \<le> kr_offset q)"
  obtain i where i: "i < length rs" "?P (rs ! i)" "r = rs ! i" "\<forall>j<i. \<not> ?P (rs ! j)"
    using assms unfolding next_record_def find_Some_iff by blast
  have "partition_of (rs ! j) \<noteq> partition_of r \<or> kr_offset (rs ! j) \<noteq> kr_offset r" if "j < i" for j
  proof (rule ccontr)
    assume "\<not> ?thesis"
    then have "?P (rs ! j)"
      using i(2,3) by metis
    with i(4) that show False by blast
  qed
  then have "List.find (\<lambda>q. partition_of q = partition_of r \<and> kr_offset q = kr_offset r) rs = Some r"
    unfolding find_Some_iff using i(1,3) by blast
  then show ?thesis
    by (simp add: found_at_def)
qed

interpretation log_stream: kafka_stream "log_consumer rs" lc_position lc_committed
  "\<lambda>tp. {kr_offset r |r. r \<in> set rs \<and> partition_of r = tp}" "found_at rs" for rs
  by unfold_locales (auto simp: log_consumer_def next_record_found split: option.splits)

section \<open>A run of a consumer group\<close>

text \<open>The runners that serve a group: over one Kafka adapter and one database, \<open>EXACTLY_ONCE_INBOX\<close>, with handlers that
  write to the log.\<close>

definition stream_runner :: "'b kafka_consumer \<Rightarrow> ('db, inbox_event) engine \<Rightarrow> 'db transaction_provider \<Rightarrow>
    ('db \<Rightarrow> inbox_event multiset) \<Rightarrow> ('db \<Rightarrow> uuid list) \<Rightarrow> ('db \<Rightarrow> uuid list) \<Rightarrow> pystr \<Rightarrow> ('db, 'b) runner \<Rightarrow> bool" where
  "stream_runner C E P durable app kept g Q \<longleftrightarrow> rn_getone Q = kafka_getone C \<and> rn_consumer_group Q = g \<and>
     rn_ack_strategy Q = EXACTLY_ONCE_INBOX \<and> \<not> rn_commit_on_failed Q \<and> rn_handler Q \<noteq> None \<and>
     (\<exists>py_str L R. inbox_runner E P durable py_str L R Q) \<and>
     handler_logs E durable app kept Q"

text \<open>What can happen to a group that starts at the offsets \<open>base\<close> with an empty inbox: \<open>process_one\<close>, which may end in any
  way, and a restart or a rebalance, after which the client goes on at or before the committed offsets.\<close>

inductive group_run :: "('db, 'b) runner set \<Rightarrow> ('b \<Rightarrow> topic_partition \<Rightarrow> int) \<Rightarrow> ('b \<Rightarrow> topic_partition \<Rightarrow> int) \<Rightarrow>
    ('db \<Rightarrow> inbox_event multiset) \<Rightarrow> ('db \<Rightarrow> uuid list) \<Rightarrow> (topic_partition \<Rightarrow> int) \<Rightarrow> ('db, 'b) node \<Rightarrow> bool"
  for W position committed durable kept base where
  begins: "durable (n_db s) = {#} \<Longrightarrow> kept (n_db s) = [] \<Longrightarrow> committed (n_broker s) = base \<Longrightarrow>
    (\<And>tp. position (n_broker s) tp \<le> base tp) \<Longrightarrow> group_run W position committed durable kept base s"
| handles: "group_run W position committed durable kept base s \<Longrightarrow> Q \<in> W \<Longrightarrow> process_one Q s = (r, s') \<Longrightarrow>
    group_run W position committed durable kept base s'"
| restarts: "group_run W position committed durable kept base s \<Longrightarrow> durable (n_db s') = durable (n_db s) \<Longrightarrow>
    kept (n_db s') = kept (n_db s) \<Longrightarrow> committed (n_broker s') = committed (n_broker s) \<Longrightarrow>
    (\<And>tp. position (n_broker s') tp \<le> committed (n_broker s') tp) \<Longrightarrow>
    group_run W position committed durable kept base s'"

text \<open>The message at an offset has a completed row.\<close>

definition message_done :: "'b kafka_consumer \<Rightarrow> pystr \<Rightarrow> kafka_record \<Rightarrow> inbox_event multiset \<Rightarrow> bool" where
  "message_done C g q T \<longleftrightarrow> (\<exists>m. Kafka.consumed C q = Inr m \<and> (strip (msg_message_id m), strip g) \<in> completed_keys T)"

lemma message_done_mono: "message_done C g q T \<Longrightarrow> completed_keys T \<subseteq> completed_keys T' \<Longrightarrow> message_done C g q T'"
  unfolding message_done_def by blast

context kafka_stream
begin

text \<open>What is below a group's committed offset, from where it began.\<close>

definition all_done :: "'b kafka_consumer \<Rightarrow> pystr \<Rightarrow> (topic_partition \<Rightarrow> int) \<Rightarrow> 'b \<Rightarrow> inbox_event multiset \<Rightarrow> bool" where
  "all_done C g base b T \<longleftrightarrow> (\<forall>tp. \<forall>i\<in>offsets tp. base tp \<le> i \<and> i < committed b tp \<longrightarrow> message_done C g (record_at tp i) T)"

lemma all_done_mono: "all_done C g base b T \<Longrightarrow> completed_keys T \<subseteq> completed_keys T' \<Longrightarrow>
    committed b' = committed b \<Longrightarrow> all_done C g base b' T'"
  unfolding all_done_def using message_done_mono by metis

lemma settled_message:
  assumes "inbox_runner E P durable py_str L R Q" and "handler_logs E durable app kept Q"
    and "rn_ack_strategy Q = EXACTLY_ONCE_INBOX" and "\<not> rn_commit_on_failed Q" and "rn_handler Q \<noteq> None"
    and "unique_ids (durable db)" and "settled_by Q m db db'"
  shows "(strip (msg_message_id m), strip (rn_consumer_group Q)) \<in> completed_keys (durable db')"
proof -
  have "handler_stays E durable Q"
    using assms(2) by (simp add: handler_logs_def)
  then obtain r where "r \<in># durable db'" "status r = COMPLETED" "row_of Q m r"
    using committed_tx [OF assms(1) _ _ assms(3-5)] assms(6,7) unfolding settled_by_def by metis
  then show ?thesis
    unfolding completed_keys_def row_of_def by force
qed

lemma step_all_done:
  assumes "kc_client C = c" and "\<And>tp i. i \<in> offsets tp \<Longrightarrow> is_ok (Kafka.consumed C (record_at tp i))"
    and "effects E P durable app kept" and Q: "stream_runner C E P durable app kept g Q"
    and "logged_once (durable (n_db s)) (kept (n_db s))" and "nothing_skipped (n_broker s)"
    and "all_done C g base (n_broker s) (durable (n_db s))" and run: "process_one Q s = (r, s')"
    and counts: "rn_refuses Q IncConsumed = None"
  shows "all_done C g base (n_broker s') (durable (n_db s'))" and "nothing_skipped (n_broker s')"
proof -
  have readable: "is_ok (Kafka.consumed C r)" if "cl_getone c b = (Inr r, b')" for b r b'
    using assms(2) [of "kr_offset r" "partition_of r"] getone_law [OF that] getone_record [OF that] by simp
  obtain py_str L R where R: "inbox_runner E P durable py_str L R Q" "handler_logs E durable app kept Q"
    and exact: "rn_ack_strategy Q = EXACTLY_ONCE_INBOX" "\<not> rn_commit_on_failed Q" "rn_handler Q \<noteq> None"
    and broker: "rn_getone Q = kafka_getone C" and g: "rn_consumer_group Q = g"
    using Q by (auto simp: stream_runner_def)
  show "nothing_skipped (n_broker s')"
    using kafka_process_one [OF broker assms(1) counts readable assms(6) run] .
  have more: "completed_keys (durable (n_db s)) \<subseteq> completed_keys (durable (n_db s'))"
    using process_one_effect [OF assms(3) R assms(5) run] by blast
  obtain x b where get: "cl_getone c (n_broker s) = (x, b)"
    by fastforce
  show "all_done C g base (n_broker s') (durable (n_db s'))"
  proof (cases x)
    case (Inl err)
    then have "n_broker s' = b"
      using broker assms(1) run get by (auto simp: process_one_def andthen_def on_broker_def kafka_getone_def)
    then show ?thesis
      using getone_error [OF get [unfolded Inl]] all_done_mono [OF assms(7) more] by simp
  next
    case (Inr q)
    note got = getone_law [OF get [unfolded Inr]] and at = getone_record [OF get [unfolded Inr]]
    obtain m where m: "Kafka.consumed C q = Inr m"
      using readable [OF get [unfolded Inr]] by (auto simp: is_ok_iff)
    then have h: "handle_of m = kafka_handle c q"
      using assms(1) by (auto simp: Kafka.consumed_def Let_def res_simps handle_of_def)
    have read: "rn_getone Q (n_broker s) = (Inr m, b)"
      using broker assms(1) get Inr m by (simp add: kafka_getone_def andthen_def)
    obtain b1 where b1: "n_broker s' = b1 \<or> n_broker s' = snd (ack_rewind (kafka_handle c q) b1)"
      and commit: "b1 = b \<or> b1 = snd (ack_commit (kafka_handle c q) b) \<and> settled_by Q m (n_db s) (n_db s')"
      using process_one_settled [OF exact(1,2) read run] unfolding h by metis
    have "committed (snd (ack_rewind (kafka_handle c q) b1)) = committed b1"
      using seek_law [of "partition_of q" b1 "kr_offset q"] by (auto simp: kafka_handle_def)
    with b1 have same: "committed (n_broker s') = committed b1"
      by auto
    show ?thesis
    proof (cases "committed b1 = committed (n_broker s)")
      case True
      with same show ?thesis
        using all_done_mono [OF assms(7) more] by simp
    next
      case False
      then have settled: "settled_by Q m (n_db s) (n_db s')"
        and "committed b1 = (committed b)(partition_of q := kr_offset q + 1)"
        using commit got commit_law [of "partition_of q" "kr_offset q + 1" b] by (auto simp: kafka_handle_def prod_eq_iff)
      then have c': "committed (n_broker s') = (committed (n_broker s))(partition_of q := kr_offset q + 1)"
        using same got by simp
      have "message_done C g q (durable (n_db s'))"
        using settled_message [OF R exact logged_onceD(1) [OF assms(5)] settled] m g by (simp add: message_done_def)
      moreover have "i < committed (n_broker s) (partition_of q)"
        if "i \<in> offsets (partition_of q)" "i < kr_offset q" for i
        using got that assms(6) by (auto simp: nothing_skipped_def)
      moreover have "message_done C g (record_at tp i) (durable (n_db s'))"
        if "i \<in> offsets tp" "base tp \<le> i" "i < committed (n_broker s) tp" for tp i
        using assms(7) that message_done_mono [OF _ more] unfolding all_done_def by blast
      ultimately have "message_done C g (record_at tp i) (durable (n_db s'))"
        if "i \<in> offsets tp" "base tp \<le> i" "i < committed (n_broker s') tp" for tp i
        using that at c' by (cases "tp = partition_of q"; cases "i = kr_offset q") simp_all
      then show ?thesis
        unfolding all_done_def by blast
    qed
  qed
qed

text \<open>Along a run of the group.\<close>

definition stream_ok :: "'b kafka_consumer \<Rightarrow> pystr \<Rightarrow> (topic_partition \<Rightarrow> int) \<Rightarrow> ('db \<Rightarrow> inbox_event multiset) \<Rightarrow>
    ('db \<Rightarrow> uuid list) \<Rightarrow> ('db, 'b) node \<Rightarrow> bool" where
  "stream_ok C g base durable kept s \<longleftrightarrow> logged_once (durable (n_db s)) (kept (n_db s)) \<and> nothing_skipped (n_broker s) \<and>
     all_done C g base (n_broker s) (durable (n_db s))"

lemma group_run_ok:
  assumes "kc_client C = c" and "\<And>tp i. i \<in> offsets tp \<Longrightarrow> is_ok (Kafka.consumed C (record_at tp i))"
    and "effects E P durable app kept" and "\<forall>Q\<in>W. stream_runner C E P durable app kept g Q \<and> rn_refuses Q IncConsumed = None"
    and "group_run W position committed durable kept base s"
  shows "stream_ok C g base durable kept s"
  using assms(5)
proof (induction rule: group_run.induct)
  case (begins s)
  have "nothing_skipped (n_broker s)"
    unfolding nothing_skipped_def using begins(3,4) by (auto intro: less_le_trans)
  moreover have "all_done C g base (n_broker s) (durable (n_db s))"
    unfolding all_done_def using begins(3) by (metis leD)
  ultimately show ?case
    using begins(1,2) logged_once_empty by (simp add: stream_ok_def)
next
  case (handles s Q r s')
  have Q: "stream_runner C E P durable app kept g Q" "rn_refuses Q IncConsumed = None"
    using assms(4) handles(2) by blast+
  then obtain py_str L R where "inbox_runner E P durable py_str L R Q" "handler_logs E durable app kept Q"
    by (auto simp: stream_runner_def)
  note log = process_one_effect [OF assms(3) this _ handles(3)]
  note ih = handles.IH [unfolded stream_ok_def]
  show ?case
    unfolding stream_ok_def
    using log step_all_done [OF assms(1,2,3) Q(1) _ _ _ handles(3) Q(2)] ih by blast
next
  case (restarts s s')
  have "nothing_skipped (n_broker s')"
    unfolding nothing_skipped_def using restarts(5) by (auto intro: less_le_trans)
  then show ?case
    using restarts all_done_mono [of C g base "n_broker s" "durable (n_db s)" "durable (n_db s')" "n_broker s'"]
    by (simp add: stream_ok_def)
qed

end

lemma group_done:
  assumes "kafka_stream c position committed offsets record_at" and "kc_client C = c"
    and "\<And>tp i. i \<in> offsets tp \<Longrightarrow> is_ok (Kafka.consumed C (record_at tp i))"
    and "effects E P durable app kept" and "\<forall>Q\<in>W. stream_runner C E P durable app kept g Q \<and> rn_refuses Q IncConsumed = None"
    and "group_run W position committed durable kept base s"
    and "i \<in> offsets tp" and "base tp \<le> i" and "i < committed (n_broker s) tp"
  shows "logged_once (durable (n_db s)) (kept (n_db s)) \<and> message_done C g (record_at tp i) (durable (n_db s))"
  using kafka_stream.group_run_ok [OF assms(1-6)] assms(7-9)
  unfolding kafka_stream.stream_ok_def [OF assms(1)] kafka_stream.all_done_def [OF assms(1)] by blast

text \<open>C4. Exactly once from Kafka to the database. A group of \<open>EXACTLY_ONCE_INBOX\<close> runners starts at some offsets
  with an empty inbox. Whatever it handles then, as often as messages are redelivered, whatever handlers return or raise,
  whatever fails in the database, the broker and, past the counter \<open>inc_consumed\<close>, the collectors, and wherever a process
  dies and the group is rebalanced:
  for every record below the committed offset of its partition the inbox has one row of the record's message, completed,
  and the committed log holds the effect of its handler, once. Every record of the log must be one the
  adapter can read, no collector may raise on \<open>inc_consumed\<close> (the runner does not rewind then), and the inbox is a plain
  table.\<close>

theorem stream_exactly_once:
  assumes "kafka_stream c position committed offsets record_at" and "kc_client C = c"
    and "\<And>tp i. i \<in> offsets tp \<Longrightarrow> is_ok (Kafka.consumed C (record_at tp i))"
    and "effects E P durable app kept" and "\<forall>Q\<in>W. stream_runner C E P durable app kept g Q \<and> rn_refuses Q IncConsumed = None"
    and "group_run W position committed durable kept base s"
    and "i \<in> offsets tp" and "base tp \<le> i" and "i < committed (n_broker s) tp"
  shows "\<exists>m. Kafka.consumed C (record_at tp i) = Inr m \<and> (\<exists>r\<in>#durable (n_db s).
    message_id r = strip (msg_message_id m) \<and> consumer_group r = strip g \<and> status r = COMPLETED \<and>
    count_list (kept (n_db s)) (event_id r) = 1 \<and>
    (\<forall>r'\<in>#durable (n_db s). message_id r' = message_id r \<and> consumer_group r' = consumer_group r \<longrightarrow> r' = r))"
  using group_done [OF assms] logged_effect unfolding message_done_def by blast

section \<open>A concrete stream\<close>

text \<open>One record, an adapter that makes the sample message of it, and the runner of the effect log that reads with it.\<close>

definition stream_record :: kafka_record where
  "stream_record = \<lparr>kr_topic = lit ''q'', kr_partition = 0, kr_offset = 0, kr_value = ByteValue [1], kr_headers = []\<rparr>"

definition stream_adapter :: "log_client kafka_consumer" where
  "stream_adapter = KafkaEventConsumer_init (log_consumer [stream_record]) (\<lambda>_. Inr (JObj sample_payload)) None
     (Some (\<lambda>_ _. Inr (lit ''m''))) (Some (\<lambda>_ _ _. Inr (lit ''t''))) (Some (\<lambda>_ _. Inr (lit ''s''))) None"

abbreviation log_start_at :: "int \<Rightarrow> log_client" where
  "log_start_at k \<equiv> \<lparr>lc_position = (\<lambda>_. k), lc_committed = (\<lambda>_. k)\<rparr>"

lemma stream_reads: "Kafka.consumed stream_adapter stream_record =
    Inr (message_with (kafka_handle (log_consumer [stream_record]) stream_record))"
  by (simp add: Kafka.consumed_def stream_adapter_def KafkaEventConsumer_init_def default_payload_loader_def
      stream_record_def res_simps decode_headers_def default_parse_def header_def sample_payload_def lit_def message_with_def)

lemma log_getone:
  assumes "kc_client C = log_consumer [q]" and "Kafka.consumed C q = Inr m" and "kr_offset q = k"
  shows "kafka_getone C (log_start_at k) =
    (Inr m, \<lparr>lc_position = (\<lambda>_. k)(partition_of q := k + 1), lc_committed = (\<lambda>_. k)\<rparr>)"
  using assms by (simp add: kafka_getone_def andthen_def log_consumer_def next_record_def lift_res_def)

lemma log_commit:
  "ack_commit (kafka_handle (log_consumer rs) q) b =
    (Inr (), b\<lparr>lc_committed := (lc_committed b)(partition_of q := kr_offset q + 1)\<rparr>)"
  by (simp add: kafka_handle_def log_consumer_def)

lemma log_reader_stream:
  "stream_runner C log_engine session_provider log_durable (\<lambda>db. fst (snd db)) (\<lambda>db. fst (fst db)) (lit ''g'')
     (log_reader (kafka_getone C))"
  using log_reader_ok [of "kafka_getone C"] by (auto simp: stream_runner_def)

text \<open>A reader of a log of one record, from the record's offset.\<close>

lemma log_reader_run:
  assumes "kc_client C = log_consumer [q]" and "Kafka.consumed C q = Inr m" and "kr_offset q = k" and "arrived e"
    and "handle_of m = kafka_handle (log_consumer [q]) q"
    and "message_event (log_reader (kafka_getone C)) m (UUID 7) 0 0 = Inr e"
  obtains s' where "process_one (log_reader (kafka_getone C)) (node_with (log_start_at k) (([], sample_table []), d)) =
      (Inr (sample_outcome (msg_message_id m) True True), s')"
    and "group_run {log_reader (kafka_getone C)} lc_position lc_committed log_durable (\<lambda>db. fst (fst db)) (\<lambda>_. k) s'"
    and "lc_committed (n_broker s') (partition_of q) = k + 1" and "log_durable (n_db s') = {#finished e#}"
    and "fst (fst (n_db s')) = [UUID 7]"
proof -
  let ?Q = "log_reader (kafka_getone C)" and ?s = "node_with (log_start_at k) (([], sample_table []), d)"
  obtain s' where run: "process_one ?Q ?s = (Inr (sample_outcome (msg_message_id m) True True), s')"
    and b: "lc_committed (n_broker s') (partition_of q) = k + 1"
    and db: "n_db s' = (([UUID 7], sample_table [finished e]), ([UUID 7], sample_table [finished e]))"
    using log_run_of [where getone = "kafka_getone C" and d = d, OF assms(4) log_getone [OF assms(1-3)] _ assms(6)] assms(3,5)
    by (auto simp: log_commit)
  have "group_run {?Q} lc_position lc_committed log_durable (\<lambda>db. fst (fst db)) (\<lambda>_. k) ?s"
    by (rule group_run.begins) (simp_all add: session_engine_def list_engine_def)
  from group_run.handles [OF this _ run] b db that [OF run] show thesis
    by (simp add: session_engine_def list_engine_def)
qed

theorem stream_exactly_once_witness:
  "\<exists>s' r. process_one (log_reader (kafka_getone stream_adapter)) (node_with (log_start_at 0) (([], sample_table []), ([], sample_table []))) =
      (Inr (sample_outcome (lit ''m'') True True), s') \<and> r \<in># log_durable (n_db s') \<and>
     message_id r = lit ''m'' \<and> status r = COMPLETED \<and> count_list (fst (fst (n_db s'))) (event_id r) = 1"
proof -
  let ?q = stream_record and ?C = stream_adapter
  have C: "kc_client ?C = log_consumer [?q]" "kr_offset ?q = 0"
    by (simp_all add: stream_adapter_def KafkaEventConsumer_init_def stream_record_def)
  obtain s' where run: "process_one (log_reader (kafka_getone ?C)) (node_with (log_start_at 0) (([], sample_table []), ([], sample_table []))) =
      (Inr (sample_outcome (lit ''m'') True True), s')"
    and run': "group_run {log_reader (kafka_getone ?C)} lc_position lc_committed log_durable (\<lambda>db. fst (fst db)) (\<lambda>_. 0) s'"
    and c: "lc_committed (n_broker s') (partition_of ?q) = 1"
    using log_reader_run [OF C(1) stream_reads C(2) sample_arrived _ sample_message_event, of "([], sample_table [])"] by auto
  have m: "strip (lit ''m'') = lit ''m''"
    by (simp add: strip_def lit_def py_space_def)
  have "\<exists>m. Kafka.consumed ?C (found_at [?q] (partition_of ?q) 0) = Inr m \<and> (\<exists>r\<in>#log_durable (n_db s').
      message_id r = strip (msg_message_id m) \<and> consumer_group r = strip (lit ''g'') \<and> status r = COMPLETED \<and>
      count_list (fst (fst (n_db s'))) (event_id r) = 1 \<and>
      (\<forall>r'\<in>#log_durable (n_db s'). message_id r' = message_id r \<and> consumer_group r' = consumer_group r \<longrightarrow> r' = r))"
    by (rule stream_exactly_once [OF log_stream.kafka_stream_axioms C(1) _ sample_log _ run'])
      (use log_reader_stream c C(2) stream_reads in \<open>auto simp: is_ok_iff found_at_def\<close>)
  then show ?thesis
    using run stream_reads m C(2) by (auto simp: found_at_def)
qed

end
