(* ===== verification/Delivery.thy ===== *)
theory Delivery
  imports Cycle KafkaProps ExactlyOnce
begin

text \<open>
  The relay from end to end: \<open>EventBatchProcessor\<close> over the PostgreSQL outbox with \<open>KafkaEventPublisher\<close> as its
  publisher, and the Kafka consumer's adapter that reads the records. A row a cycle completes is on the broker, as a
  record the adapter turns into a message with the row's payload.
\<close>

section \<open>The producer\<close>

text \<open>\<open>sent\<close> are the records the broker of a producer has accepted.\<close>

text \<open>The record of an event is on the broker.\<close>

definition delivered :: "('p \<Rightarrow> kafka_record set) \<Rightarrow> 'p kafka_publisher \<Rightarrow> outbox_event \<Rightarrow> 'p publisher_state \<Rightarrow> bool" where
  "delivered sent K e b \<longleftrightarrow> (\<exists>value_bytes hs part off. orjson_dumps (kp_libs K) (kp_convert K e) = Some value_bytes \<and>
     map_res encode_header (build_headers e) = Inr hs \<and> sent_record e value_bytes hs part off \<in> sent (ps_producer b))"

text \<open>A computation that takes no record back and is not cancelled.\<close>

definition orderly :: "('p \<Rightarrow> kafka_record set) \<Rightarrow> ('p publisher_state, 'a) act \<Rightarrow> bool" where
  "orderly sent m \<longleftrightarrow> (\<forall>s r s'. m s = (r, s') \<longrightarrow> sent (ps_producer s) \<subseteq> sent (ps_producer s') \<and>
     (\<forall>err. r = Inl err \<longrightarrow> is_exception err))"

text \<open>
  What is asked of the aiokafka producer: \<open>sent\<close> are the records the broker has accepted. A \<open>send_and_wait\<close> that
  returns has added the record it was given, nothing takes a record back, and what it raises is an \<open>Exception\<close>.
\<close>

locale kafka_producer =
  fixes client :: "'p producer_client" and sent :: "'p \<Rightarrow> kafka_record set"
  assumes send_law: "send_and_wait client t v key hs p = (Inr (), p') \<Longrightarrow>
      \<exists>part off. \<lparr>kr_topic = t, kr_partition = part, kr_offset = off, kr_value = ByteValue v, kr_headers = as_sent hs\<rparr> \<in> sent p'"
    and send_keeps: "send_and_wait client t v key hs p = (r, p') \<Longrightarrow> sent p \<subseteq> sent p'"
    and send_error: "send_and_wait client t v key hs p = (Inl err, p') \<Longrightarrow> is_exception err"
    and metadata_keeps: "force_metadata_update client p = (answer, p') \<Longrightarrow> sent p \<subseteq> sent p'"
    and metadata_error: "force_metadata_update client p = (Inl err, p') \<Longrightarrow> is_exception err"
begin

lemma orderlyD: "orderly sent m \<Longrightarrow> m s = (r, s') \<Longrightarrow> sent (ps_producer s) \<subseteq> sent (ps_producer s') \<and>
    (\<forall>err. r = Inl err \<longrightarrow> is_exception err)"
  by (simp add: orderly_def)

lemma orderly_pure: "orderly sent (ret a)" "is_exception err \<Longrightarrow> orderly sent (throw err)"
  "(\<And>err. x = Inl err \<Longrightarrow> is_exception err) \<Longrightarrow> orderly sent (lift_res x)"
  by (auto simp: orderly_def lift_res_def ret_def throw_def)

lemma orderly_andthen: "orderly sent m \<Longrightarrow> (\<And>a. orderly sent (f a)) \<Longrightarrow> orderly sent (andthen m f)"
  unfolding orderly_def andthen_def by (fastforce split: prod.splits sum.splits)

lemma orderly_catch: "orderly sent m \<Longrightarrow> (\<And>err. is_exception err \<Longrightarrow> orderly sent (h err)) \<Longrightarrow> orderly sent (catch m h)"
  unfolding orderly_def catch_def by (fastforce split: prod.splits sum.splits)

lemma orderly_option: "(x = None \<Longrightarrow> orderly sent m) \<Longrightarrow> (\<And>a. x = Some a \<Longrightarrow> orderly sent (f a)) \<Longrightarrow>
    orderly sent (case x of None \<Rightarrow> m | Some a \<Rightarrow> f a)"
  by (cases x) auto

lemma orderly_if: "(b \<Longrightarrow> orderly sent m) \<Longrightarrow> (\<not> b \<Longrightarrow> orderly sent n) \<Longrightarrow> orderly sent (if b then m else n)"
  by simp

lemma orderly_calls:
  "orderly sent (on_producer (send_and_wait client t v key hs))" "orderly sent (on_producer (force_metadata_update client))"
  "orderly sent draw" "orderly sent (sleep_for d)"
  unfolding orderly_def on_producer_iff draw_def sleep_for_def
  by (auto dest: send_keeps [THEN subsetD] metadata_keeps [THEN subsetD] dest: send_error metadata_error)

lemma orderly_reason:
  assumes "kp_client K = client"
  shows "orderly sent (unreachable_reason K err t)"
  unfolding unreachable_reason_def assms
  by (cases err) (auto intro!: orderly_pure orderly_andthen intro: orderly_calls)

lemma orderly_delay: "orderly sent (lift_res (calculate_backoff_with_jitter attempt base cap Full u))"
  by (rule orderly_pure) (auto simp: calculate_backoff_with_jitter_def exponential_def bindr_Inl_iff Let_def split: if_splits)

lemma orderly_attempts:
  assumes "kp_client K = client"
  shows "orderly sent (send_attempts K t (send_and_wait client t v key hs) k attempt)"
proof (induction k arbitrary: attempt)
  case (Suc k)
  then show ?case
    unfolding send_attempts.simps
    by (intro orderly_catch orderly_if orderly_andthen orderly_option orderly_calls orderly_delay orderly_reason
        orderly_pure assms) auto
qed (simp add: orderly_pure)

lemma publish_orderly:
  assumes "kp_client K = client"
  shows "orderly sent (publish K e)"
  unfolding orderly_def
proof (intro allI impI)
  fix s r s'
  assume "publish K e s = (r, s')"
  then show "sent (ps_producer s) \<subseteq> sent (ps_producer s') \<and> (\<forall>err. r = Inl err \<longrightarrow> is_exception err)"
  proof (cases rule: publish_cases)
    case (sent value_bytes key hs y)
    with orderlyD [OF orderly_attempts [OF assms] sent(3) [unfolded assms]] show ?thesis
      by (cases y) auto
  qed simp
qed

lemma delivered_mono: "delivered sent K e b \<Longrightarrow> sent (ps_producer b) \<subseteq> sent (ps_producer b') \<Longrightarrow> delivered sent K e b'"
  unfolding delivered_def by blast

lemma publish_delivers:
  assumes "kp_client K = client" and "0 \<le> kp_max_infra_retries K" and "publish K e s = (r, s')" and "is_ok r"
  shows "delivered sent K e s'"
  using assms(3)
proof (cases rule: publish_cases)
  case (sent value_bytes key hs y)
  let ?send = "send_and_wait client (topic e) value_bytes key hs"
  have "y = Inr ()"
    using sent(4) assms(4) by (cases y) auto
  moreover have "nat (kp_max_infra_retries K + 1) = Suc (nat (kp_max_infra_retries K))"
    using assms(2) by simp
  ultimately obtain p where "?send p = (Inr (), ps_producer s')"
    using send_attempts_ok [of K "topic e" ?send "nat (kp_max_infra_retries K)" 0 s s'] sent(3) assms(1,2) by auto
  then show ?thesis
    using send_law sent(1,2) by (auto simp: delivered_def sent_record_def)
qed (use assms(4) in simp)

end

text \<open>A broker with one partition per topic, which is down for the next \<open>lb_down\<close> requests.\<close>

record log_broker =
  lb_records :: "kafka_record list"
  lb_down :: nat

definition log_producer :: "log_broker producer_client" where
  "log_producer = \<lparr>
     send_and_wait = (\<lambda>t v key hs b.
       if 0 < lb_down b
       then (Inl (Raised \<lparr>exn_mro = [''KafkaConnectionError'', ''KafkaError'', ''Exception''], exn_text = []\<rparr>),
         b\<lparr>lb_down := lb_down b - 1\<rparr>)
       else (Inr (), b\<lparr>lb_records := lb_records b @ [\<lparr>kr_topic = t, kr_partition = 0,
         kr_offset = int (length (filter (\<lambda>q. kr_topic q = t) (lb_records b))), kr_value = ByteValue v,
         kr_headers = as_sent hs\<rparr>]\<rparr>)),
     force_metadata_update = (\<lambda>b. (Inr (lb_down b = 0), b))\<rparr>"

interpretation kafka_broker: kafka_producer log_producer "\<lambda>b. set (lb_records b)"
  by unfold_locales (auto 4 4 simp: log_producer_def is_instance_def split: if_splits)

section \<open>The relay over Kafka\<close>

text \<open>The worker's state is the publisher's next to the database.\<close>

definition relay_publish :: "'p kafka_publisher \<Rightarrow> ('p publisher_state \<times> 'db, outbox_event) handler" where
  "relay_publish K e s = (case publish K e (fst s) of (r, b) \<Rightarrow> (r, (b, snd s)))"

definition relay_frame :: "('p \<Rightarrow> kafka_record set) \<Rightarrow> ('db, outbox_event) engine \<Rightarrow> 'p publisher_state \<times> 'db \<Rightarrow> 'p publisher_state \<times> 'db \<Rightarrow> bool" where
  "relay_frame sent E a b \<longleftrightarrow> same_table (session_engine E) a b \<and> sent (ps_producer (fst a)) \<subseteq> sent (ps_producer (fst b))"

lemma storage_error_state [simp]: "snd (storage_error x) = snd x"
  by (cases x rule: storage_error.cases) simp_all

lemma beside_update: "keeps fst (\<lambda>db. storage_error (sql_update (session_engine E) (p db) (f db) db))"
  "keeps fst (\<lambda>db. storage_error (sql_select (session_engine E) (q db) db))"
  by (simp_all add: keeps_def session_engine_def on_working_def split: prod.split)

lemma sum_batches_keeps: "(\<And>c. keeps v (body c)) \<Longrightarrow> keeps v (sum_batches body cs)"
  by (induction cs) (auto intro: keeps_intros)

lemma commit_keeps_broker: "keeps fst (bulk_commit (postgres_repository (session_engine E) L R) c)"
proof -
  have total: "keeps fst (check_total (session_engine E) ids n)" for ids n
    unfolding check_total_def get_existing_ids_def by (intro keeps_intros beside_update)
  have "keeps fst (bulk_mark_completed (session_engine E) R ids w)" for ids w
    unfolding bulk_mark_completed_def complete_batch_def
    by (intro keeps_intros sum_batches_keeps beside_update total)
  moreover have "keeps fst (bulk_mark_failed (session_engine E) R fs w b)" for fs w b
    unfolding bulk_mark_failed_def fail_batch_def
    by (intro keeps_intros sum_batches_keeps beside_update total)
  ultimately show ?thesis
    unfolding bulk_commit_def false_on_error_def postgres_repository_def
    by (intro keeps_intros) (auto simp: required_def intro: keeps_intros)
qed

context kafka_producer
begin

lemma kafka_relay:
  assumes "sql_engine E"
  shows "relay (session_engine E) (relay_frame sent E) (\<lambda>e s. delivered sent K e (fst s))"
proof -
  have "same_table (session_engine E) a c" if "same_table (session_engine E) a b" "same_table (session_engine E) b c"
    for a b c :: "'p publisher_state \<times> 'a"
    using that by (simp add: same_table_def same_session_def)
  then show ?thesis
    using sql_engine.session_sql [OF assms]
    unfolding relay_def relay_axioms_def db_evidence_def db_evidence_axioms_def db_frame_def relay_frame_def
    by (auto simp: same_table_def same_session_def intro: delivered_mono)
qed

lemma relay_publish_benign:
  fixes E :: "('db, outbox_event) engine"
  assumes "kp_client K = client"
  shows "benign (relay_frame sent E) (relay_publish K) e"
  unfolding benign_def
proof
  fix db :: "'p publisher_state \<times> 'db"
  obtain r b where run: "publish K e (fst db) = (r, b)"
    by fastforce
  with orderlyD [OF publish_orderly [OF assms] run]
  show "relay_frame sent E db (snd (relay_publish K e db)) \<and>
      (case fst (relay_publish K e db) of Inl err \<Rightarrow> is_exception err | Inr _ \<Rightarrow> True)"
    by (auto simp: relay_publish_def relay_frame_def same_table_def same_session_def session_engine_def split: sum.split)
qed

lemma relay_publish_leaves:
  assumes "kp_client K = client" and "0 \<le> kp_max_infra_retries K"
  shows "leaves (\<lambda>e (s :: 'p publisher_state \<times> 'db). delivered sent K e (fst s)) (relay_publish K) e"
  unfolding leaves_def
proof (intro allI impI)
  fix db :: "'p publisher_state \<times> 'db"
  assume ok: "call_succeeded (fst (relay_publish K e db))"
  obtain r b where run: "publish K e (fst db) = (r, b)"
    by fastforce
  with ok have "is_ok r"
    by (cases r) (auto simp: relay_publish_def)
  with publish_delivers [OF assms run] run show "delivered sent K e (fst (snd (relay_publish K e db)))"
    by (simp add: relay_publish_def)
qed

end

section \<open>Reading the records back\<close>

lemma entity_valid:
  assumes "orjson_roundtrip L" and "repo_validate R = OutboxEvent_validate" and "to_entity L R r = Inr e"
  shows "valid_event outbox_extra L (entity_context R) e" and "payload e = payload r"
proof -
  show "valid_event outbox_extra L (entity_context R) e"
    using assms outbox_class.valid_validate by (simp add: to_entity_def)
  obtain f where f: "BaseEvent_fields L (entity_context R) r = Inr f" "payload e = payload f"
    using assms(2,3) by (auto simp: to_entity_def OutboxEvent_validate_def res_simps check_invariants_Inr)
  then have "validate_payload L (entity_context R) (payload r) = Inr (payload f)"
    unfolding BaseEvent_fields_def bindr_Inr_iff by (auto simp del: map_res_opt.simps)
  with f show "payload e = payload r"
    by (simp add: validate_payload_def entity_context_def split: if_splits)
qed

lemma valid_header_keys:
  assumes "valid_event outbox_extra L ctx e"
  shows "distinct (map fst (get_or (headers e) []))"
proof (cases "headers e")
  case (Some hs)
  then have "distinct (map (py_lower L) (map fst hs))"
    using assms by (simp add: valid_event_def fields_ok_def headers_ok_def comp_def)
  then show ?thesis
    using Some distinct_map by fastforce
qed simp

text \<open>No header of the user has a name the adapters read, and the texts are Python strings without lone surrogates.\<close>

definition plain_headers :: "outbox_event \<Rightarrow> bool" where
  "plain_headers e \<longleftrightarrow> (\<forall>k\<in>reserved_headers. lit k \<notin> fst ` set (get_or (headers e) [])) \<and>
     (\<forall>kv\<in>set (build_headers e). text_ok (snd kv))"

lemma converted_finite:
  assumes "convert = schema_versioned_converter \<or> convert = envelope_converter version"
    and "\<not> nonfinite (JObj (payload e))"
  shows "\<not> nonfinite (JObj (convert e))"
proof -
  have opt: "\<not> nonfinite (json_opt x)" for x
    by (cases x) simp_all
  have add: "list_ex snd (map (map_prod id nonfinite) (add_text k x d)) = list_ex snd (map (map_prod id nonfinite) d)" for k x d
    by (cases x) (simp_all add: add_text_def)
  from assms(1) show ?thesis
  proof
    assume "convert = schema_versioned_converter"
    with assms(2) opt show ?thesis
      by (simp add: schema_versioned_converter_def)
  next
    assume c: "convert = envelope_converter version"
    with assms(2) show ?thesis
      by (simp add: envelope_converter_def add)
  qed
qed

lemma delivered_read:
  assumes "delivered sent K e b" and "valid_event outbox_extra L ctx e" and "\<not> nonfinite (JObj (payload e))"
    and "kp_convert K = schema_versioned_converter \<or> kp_convert K = envelope_converter version"
    and "orjson_roundtrip (kp_libs K)"
  shows "\<exists>q\<in>sent (ps_producer b). kr_topic q = topic e \<and> (plain_headers e \<longrightarrow>
    (\<exists>m. Kafka.consumed (KafkaEventConsumer_init c (\<lambda>v. Inr (orjson_loads (kp_libs K) v)) None None None None None) q = Inr m \<and>
      msg_payload m = JObj (payload e) \<and> msg_event_type m = event_type e \<and>
      msg_message_id m = uuid_str (event_id e) \<and> msg_source m = topic e))"
proof -
  obtain v hs part off where v: "orjson_dumps (kp_libs K) (kp_convert K e) = Some v"
    and hs: "map_res encode_header (build_headers e) = Inr hs" and q: "sent_record e v hs part off \<in> sent (ps_producer b)"
    using assms(1) unfolding delivered_def by blast
  let ?loads = "\<lambda>v. Inr (orjson_loads (kp_libs K) v)"
  have loads: "?loads v = Inr (JObj (kp_convert K e))"
    using assms(5) v converted_finite [OF assms(4,3)] by (auto simp: orjson_roundtrip_def)
  have "\<exists>m. Kafka.consumed (KafkaEventConsumer_init c ?loads None None None None None) (sent_record e v hs part off) = Inr m \<and>
      msg_payload m = JObj (payload e) \<and> msg_event_type m = event_type e \<and>
      msg_message_id m = uuid_str (event_id e) \<and> msg_source m = topic e" if "plain_headers e"
    using event_read_back [where loads = ?loads and c = c and part = part and off = off,
        OF assms(2) _ valid_header_keys [OF assms(2)] _ assms(4) hs loads] that
    by (auto simp: plain_headers_def)
  then show ?thesis
    using q by (auto simp: sent_record_def intro!: bexI [of _ "sent_record e v hs part off"])
qed

section \<open>From the table to the message\<close>

lemma processed_row_delivered:
  fixes E :: "('db, outbox_event) engine" and s :: "('p publisher_state \<times> 'db) world"
  assumes "sql_engine E" and "unique_ids (table_rows E (snd (w_db s)))"
    and "PostgresOutboxRepository_init part ii im bs em suffix skew = Inr R"
    and "create_outbox_processor (postgres_repository (session_engine E) L R) (relay_publish K) tt base cap et en opts = Inr P"
    and "fo_breaker opts = None" and "plain_options opts" and "cap \<le> LONGEST_DELAY"
    and "kafka_producer (kp_client K) sent" and "0 \<le> kp_max_infra_retries K"
    and "kp_convert K = schema_versioned_converter \<or> kp_convert K = envelope_converter version"
    and "orjson_roundtrip L" and "orjson_roundtrip (kp_libs K)"
    and "\<forall>r\<in>#table_rows E (snd (w_db s)). 0 \<le> attempts_made r \<and> attempts_made r < 1024 \<and> \<not> nonfinite (JObj (payload r))"
    and "sane_world s" and "polls shutdown"
    and "processor_batch P w n shutdown filters s = (Inr res, s')" and "\<not> commit_failed res"
    and "i \<in> set (processed_event_ids res)"
  shows "\<exists>r\<in>#table_rows E (snd (w_db s)). \<exists>e. event_id r = i \<and>
    to_entity L R (locked_row (tx_now E (snd (w_db s))) (strip w) r) = Inr e \<and>
    (\<exists>r'\<in>#table_rows E (snd (w_db s')). event_id r' = i \<and> status r' = COMPLETED \<and> payload r' = payload r) \<and>
    delivered sent K e (fst (w_db s')) \<and> valid_event outbox_extra L (entity_context R) e \<and>
    event_id e = i \<and> payload e = payload r \<and> \<not> nonfinite (JObj (payload r))"
proof -
  let ?E = "session_engine E :: ('p publisher_state \<times> 'db, outbox_event) engine"
  let ?T = "table_rows E (snd (w_db s))" and ?lock = "locked_row (tx_now E (snd (w_db s))) (strip w)"
  let ?X = "{e. \<exists>r\<in>#?T. to_entity L R (?lock r) = Inr e}" and ?ev = "\<lambda>e s. delivered sent K e (fst s)"
  have db: "table_rows ?E db = table_rows E (snd db)" "tx_now ?E db = tx_now E (snd db)" for db
    by (simp_all add: session_engine_def)
  note R = outbox_init [OF assms(3)]
  obtain hc where hc: "hc_handler hc = relay_publish K" "0 \<le> hc_backoff_base hc" "0 < hc_backoff_cap hc" "hc_backoff_cap hc = cap"
    and P: "pr_pipeline P = factory_steps opts None [publisher_step hc]" "pr_repo P = postgres_repository ?E L R"
      "pr_fetch P = distributed_fetch DEFAULT_LEASE_TIMEOUT_SECONDS" "pr_commit P = bulk_commit"
      "pr_outbox_metrics P = fo_metrics opts"
    using assms(4,5) by (rule outbox_processor_built)
  have good: "\<forall>e\<in>?X. worker_ok (relay_frame sent E) ?ev opts hc e"
  proof
    fix e
    assume e: "e \<in> ?X"
    obtain r where r: "r \<in># ?T" "to_entity L R (?lock r) = Inr e"
      using e by blast
    then have "same_state e (?lock r)"
      using to_entity_same R by blast
    with r(1) have "0 \<le> attempts_made e \<and> attempts_made e < 1024"
      using assms(13) by (simp add: same_state_def locked_row_def)
    moreover have "benign (relay_frame sent E) (relay_publish K) e" "leaves ?ev (relay_publish K) e"
      by (rule kafka_producer.relay_publish_benign [OF assms(8) refl]
          kafka_producer.relay_publish_leaves [OF assms(8) refl assms(9)])+
    ultimately show "worker_ok (relay_frame sent E) ?ev opts hc e"
      using hc assms(6,7) by (simp add: worker_ok_def backoff_ok_def)
  qed
  have fetched: "\<forall>es db'. fetch_and_lock_pending ?E L R n w (Some DEFAULT_LEASE_TIMEOUT_SECONDS) filters (w_db s) =
      (Inr es, db') \<longrightarrow> set es \<subseteq> ?X"
    using sql_engine.fetch_entities [OF sql_engine.session_sql [OF assms(1)], of L R n w _ filters "w_db s"] assms(2)
    unfolding db by blast
  have u: "unique_ids (table_rows ?E (w_db s))"
    using assms(2) by (simp add: db)
  obtain I db4 where tbl: "table_rows ?E (w_db s') = image_mset (\<lambda>r. if event_id r \<in> I
        then settled_row R (tx_now ?E (w_db s)) (processed_event_ids res) (result_failed_counted res)
          (result_failed_noncounted res) (locked_row (tx_now ?E (w_db s)) (strip w) r) else r) (table_rows ?E (w_db s))"
    and acc: "accounts {i. \<exists>e\<in>?X. event_id e = i \<and> ?ev e db4} I
      (processed_event_ids res, map fail_id (result_failed_counted res),
       map fail_id (result_failed_noncounted res), remaining_event_ids res)"
    and c: "processed_event_ids res = [] \<or> (\<exists>c ok. bulk_commit (postgres_repository ?E L R) c db4 = (Inr ok, w_db s'))"
    using relay.outbox_batch [OF kafka_producer.kafka_relay [OF assms(8,1)] assms(16,17) u assms(3) P good fetched
        assms(6,14,15)] by (elim exE conjE) (rule that)
  obtain e where e: "e \<in> ?X" "event_id e = i" "delivered sent K e (fst db4)"
    using acc assms(18) unfolding accounts.simps by blast
  have "fst (w_db s') = fst db4"
    using c assms(18) keepsD [OF commit_keeps_broker] by (metis empty_iff empty_set)
  with e have d: "delivered sent K e (fst (w_db s'))"
    by simp
  obtain r where r: "r \<in># ?T" "to_entity L R (?lock r) = Inr e"
    using e(1) by blast
  have id: "event_id r = i"
    using to_entity_same [OF _ r(2)] R e(2) by (simp add: same_state_def locked_row_def)
  have p: "payload e = payload r" and valid: "valid_event outbox_extra L (entity_context R) e"
    using entity_valid [OF assms(11) _ r(2)] R by (simp_all add: locked_row_def)
  have "i \<in> I"
    using acc assms(18) by auto
  then have "completed_row (tx_now E (snd (w_db s))) (?lock r) \<in># table_rows E (snd (w_db s'))"
    using tbl r(1) id assms(18) by (auto simp: db settled_row_def intro!: image_eqI [of _ _ r])
  then have "\<exists>r'\<in>#table_rows E (snd (w_db s')). event_id r' = i \<and> status r' = COMPLETED \<and> payload r' = payload r"
    using id by (intro bexI) (auto simp: completed_row_def locked_row_def)
  moreover have "\<not> nonfinite (JObj (payload r))"
    using assms(13) r(1) by blast
  ultimately show ?thesis
    using d valid r id p e(2) by blast
qed

text \<open>C1. What a relay cycle completes has arrived. When a cycle over a PostgreSQL outbox and a Kafka producer
  returns without \<open>commit_failed\<close>, every event it lists as processed was a row of the table, is completed there
  now, and the broker has a record of it, in its topic; from this record the default consumer makes a message with the
  row's payload, the event's type and id, and its topic as the source. The number of infrastructure retries must
  not be negative.\<close>

theorem completed_rows_arrive:
  fixes E :: "('db, outbox_event) engine" and s :: "('p publisher_state \<times> 'db) world"
  assumes "sql_engine E" and "unique_ids (table_rows E (snd (w_db s)))"
    and "PostgresOutboxRepository_init part ii im bs em suffix skew = Inr R"
    and "create_outbox_processor (postgres_repository (session_engine E) L R) (relay_publish K) tt base cap et en opts = Inr P"
    and "fo_breaker opts = None" and "plain_options opts" and "cap \<le> LONGEST_DELAY"
    and "kafka_producer (kp_client K) sent" and "0 \<le> kp_max_infra_retries K"
    and "kp_convert K = schema_versioned_converter \<or> kp_convert K = envelope_converter version"
    and "orjson_roundtrip L" and "orjson_roundtrip (kp_libs K)"
    and "\<forall>r\<in>#table_rows E (snd (w_db s)). 0 \<le> attempts_made r \<and> attempts_made r < 1024 \<and> \<not> nonfinite (JObj (payload r))"
    and "sane_world s" and "polls shutdown"
    and "processor_batch P w n shutdown filters s = (Inr res, s')" and "\<not> commit_failed res"
    and "i \<in> set (processed_event_ids res)"
  shows "\<exists>r\<in>#table_rows E (snd (w_db s)). \<exists>e. event_id r = i \<and>
    to_entity L R (locked_row (tx_now E (snd (w_db s))) (strip w) r) = Inr e \<and>
    (\<exists>r'\<in>#table_rows E (snd (w_db s')). event_id r' = i \<and> status r' = COMPLETED \<and> payload r' = payload r) \<and>
    (\<exists>q\<in>sent (ps_producer (fst (w_db s'))). kr_topic q = topic e \<and> (plain_headers e \<longrightarrow>
      (\<exists>m. Kafka.consumed (KafkaEventConsumer_init c (\<lambda>v. Inr (orjson_loads (kp_libs K) v)) None None None None None) q = Inr m \<and>
        msg_payload m = JObj (payload r) \<and> msg_event_type m = event_type e \<and>
        msg_message_id m = uuid_str i \<and> msg_source m = topic e)))"
proof -
  obtain r e where r: "r \<in># table_rows E (snd (w_db s))" "event_id r = i"
      "to_entity L R (locked_row (tx_now E (snd (w_db s))) (strip w) r) = Inr e"
      "\<exists>r'\<in>#table_rows E (snd (w_db s')). event_id r' = i \<and> status r' = COMPLETED \<and> payload r' = payload r"
    and e: "delivered sent K e (fst (w_db s'))" "valid_event outbox_extra L (entity_context R) e"
      "event_id e = i" "payload e = payload r" "\<not> nonfinite (JObj (payload r))"
    using processed_row_delivered [OF assms] by meson
  from delivered_read [OF e(1,2) _ assms(10,12), of c] e(3-5) r show ?thesis
    by (intro bexI [OF _ r(1)] exI [of _ e]) simp
qed

section \<open>A concrete delivery\<close>

definition delivery_libs :: libs where
  "delivery_libs = \<lparr>orjson_dumps = (\<lambda>v. if v = schema_versioned_converter sample_event then Some [1] else None),
     orjson_loads = (\<lambda>_. JObj (schema_versioned_converter sample_event)), py_lower = (\<lambda>s. s)\<rparr>"

definition delivery_publisher :: "log_broker kafka_publisher" where
  "delivery_publisher = \<lparr>kp_client = log_producer, kp_convert = schema_versioned_converter, kp_max_infra_retries = 1,
     kp_libs = delivery_libs, kp_repr = id\<rparr>"

definition delivery_start :: "log_broker publisher_state" where
  "delivery_start = \<lparr>ps_producer = \<lparr>lb_records = [], lb_down = 1\<rparr>, ps_random = (\<lambda>_. 0), ps_sleeps = []\<rparr>"

text \<open>The broker does not answer the first request; the second is accepted.\<close>

definition delivered_record :: kafka_record where
  "delivered_record = sent_record sample_event [1]
     [(lit ''event_id'', utf8_bytes (uuid_str (UUID 7))), (lit ''event_type'', utf8_bytes (lit ''t''))] 0 0"

lemma delivery_publish:
  "\<exists>b. publish delivery_publisher locked_sample delivery_start = (Inr None, b) \<and> lb_records (ps_producer b) = [delivered_record]"
proof -
  have "build_headers locked_sample = build_headers sample_event" "topic locked_sample = topic sample_event"
    "schema_versioned_converter locked_sample = schema_versioned_converter sample_event"
    "partition_key locked_sample = lit ''k''"
    by (simp_all add: build_headers_def locked_sample_def schema_versioned_converter_def sample_event_def)
  moreover have "encode (lit ''k'') = Inr (utf8_bytes (lit ''k''))"
    by (simp add: lit_def encode_text_ok surrogate_def)
  ultimately show ?thesis
    using sample_headers(1)
    by (simp add: publish_def andthen_def delivery_publisher_def delivery_libs_def delivery_start_def eval_nat_numeral
        on_producer_def log_producer_def catch_def unreachable_reason_def classify_def draw_def sleep_for_def
        calculate_backoff_with_jitter_def exponential_def DEFAULT_BACKOFF_CAP_SECONDS_def DEFAULT_BACKOFF_BASE_SECONDS_def
        isinstance_any_def is_instance_def BROKER_UNREACHABLE_def delivered_record_def sent_record_def)
qed

lemma storage_error_pair: "storage_error (x, y) = (case x of Inl _ \<Rightarrow> Inl StorageError | Inr a \<Rightarrow> Inr a, y)"
  by (cases x) simp_all

lemma session_fetch:
  assumes "fetch_and_lock_pending E L R n w ttl fs db = (r, db')"
  shows "fetch_and_lock_pending (session_engine E) L R n w ttl fs (b, db) = (r, (b, db'))"
  using assms
  by (auto simp: fetch_and_lock_pending_def andthen_def session_engine_def on_working_def storage_error_pair lift_res_def
      split: if_splits prod.splits sum.splits)

definition delivery_hc :: "(log_broker publisher_state \<times> outbox_event listdb, outbox_event) handler_config" where
  "delivery_hc = \<lparr>hc_handler = relay_publish delivery_publisher, hc_timeout_text = lit ''30.0'', hc_backoff_base = 10,
     hc_backoff_cap = 3600, hc_err_text = (\<lambda>_. []), hc_err_name = (\<lambda>_. [])\<rparr>"

definition delivery_processor :: "(log_broker publisher_state \<times> outbox_event listdb, unit outbox_event_ext) processor" where
  "delivery_processor = build True (with_metrics None ((new_builder
     (postgres_repository (session_engine list_engine) sample_libs sample_repository))\<lparr>b_pipeline := [publisher_step delivery_hc]\<rparr>))"

lemma delivery_processor_created:
  "create_outbox_processor (postgres_repository (session_engine list_engine) sample_libs sample_repository)
     (relay_publish delivery_publisher) (lit ''30.0'') 10 3600 (\<lambda>_. []) (\<lambda>_. []) plain_factory = Inr delivery_processor"
  by (simp add: create_outbox_processor_def factory_breaker_def plain_factory_def HandlerExecutionStep_init_def
      delivery_processor_def factory_steps_def opt_step_def delivery_hc_def)

lemma delivery_cycle:
  "\<exists>s'. processor_batch delivery_processor (lit ''w'') 10 None [] (world_of (delivery_start, sample_db)) = (Inr sample_result, s') \<and>
     lb_records (ps_producer (fst (w_db s'))) = [delivered_record]"
proof -
  let ?repo = "postgres_repository (session_engine list_engine) sample_libs sample_repository"
  let ?db = "\<lparr>db_rows = [locked_sample, sample_next], db_now = 5, db_held = {}\<rparr>"
  obtain b where b: "publish delivery_publisher locked_sample delivery_start = (Inr None, b)"
    and sent: "lb_records (ps_producer b) = [delivered_record]"
    using delivery_publish by blast
  have fetch: "pr_fetch delivery_processor ?repo 10 (lit ''w'') [] (delivery_start, sample_db) =
      (Inr [locked_sample], (delivery_start, ?db))"
    using session_fetch [OF sample_lease_fetch]
    by (simp add: delivery_processor_def build_def with_metrics_def new_builder_def postgres_repository_def
        distributed_fetch_def required_def)
  have commit: "\<exists>d. bulk_commit ?repo ((new_context (lit ''w''))\<lparr>completed_ids := [UUID 7],
      statuses := [UUID 7 \<mapsto> STATUS_COMPLETED]\<rparr>) (b, ?db) = (Inr True, (b, d))"
    by (simp add: bulk_commit_def false_on_error_def new_context_def postgres_repository_def required_def
        bulk_mark_completed_def sample_repository_def chunks.simps complete_batch_def andthen_def catch_def
        session_engine_def on_working_def list_engine_def list_update_def held_by_def locked_sample_def sample_next_def
        sample_event_def check_total_def)
  have fields: "pr_repo delivery_processor = ?repo" "pr_pipeline delivery_processor = [publisher_step delivery_hc]"
      "pr_commit delivery_processor = bulk_commit" "pr_outbox_metrics delivery_processor = None"
    by (simp_all add: delivery_processor_def build_def with_metrics_def new_builder_def postgres_repository_def)
  have id: "event_id locked_sample = UUID 7"
    by (simp add: locked_sample_def sample_event_def)
  have call: "relay_publish delivery_publisher locked_sample (delivery_start, ?db) = (Inr None, (b, ?db))"
    using b by (simp add: relay_publish_def)
  show ?thesis
    using fetch commit sent
    by (auto simp: processor_batch_def fields poll_def andthen_def on_db_def update_ctx_def world_of_def call
        process_batch_def on_batch_start_def on_batch_end_def catch_def process_event_def on_event_start_def
        on_event_end_def finally_do_def publisher_step_def base_processing_step_def List.map_filter_def
        publisher_execute_def new_context_def handler_execute_def delivery_hc_def
        coerce_handler_outcome_def record_outcome_def handler_completed_def ctx_mark_completed_def
        set_status_def STATUS_COMPLETED_def lit_def step_next_def id sample_result_def)
qed

theorem completed_rows_arrive_witness:
  "\<exists>s'. processor_batch delivery_processor (lit ''w'') 10 None [] (world_of (delivery_start, sample_db)) = (Inr sample_result, s') \<and>
     (\<exists>r'\<in>#table_rows list_engine (snd (w_db s')). event_id r' = UUID 7 \<and> status r' = COMPLETED) \<and>
     lb_records (ps_producer (fst (w_db s'))) \<noteq> []"
proof -
  obtain s' where run: "processor_batch delivery_processor (lit ''w'') 10 None [] (world_of (delivery_start, sample_db)) =
      (Inr sample_result, s')"
    using delivery_cycle by blast
  have "orjson_roundtrip delivery_libs"
    by (simp add: orjson_roundtrip_def delivery_libs_def)
  moreover have "0 \<le> attempts_made r \<and> attempts_made r < 1024 \<and> \<not> nonfinite (JObj (payload r))"
    if "r \<in># table_rows list_engine sample_db" for r
    using that by (auto simp: sample_event_def sample_next_def sample_payload_def)
  moreover have "polls None" "(3600::rat) \<le> LONGEST_DELAY" "\<not> commit_failed sample_result"
      "UUID 7 \<in> set (processed_event_ids sample_result)"
    by (simp_all add: polls_def LONGEST_DELAY_def sample_result_def)
  ultimately show ?thesis
    using completed_rows_arrive [OF list_sql.sql_engine_axioms _ sample_repository_init delivery_processor_created _ _ _ _ _ _ _ _
        _ _ _ run, of "\<lambda>b. set (lb_records b)" "[]" "UUID 7" idle_client] run kafka_broker.kafka_producer_axioms sample_db_rows(2)
    by (auto simp: delivery_publisher_def)
qed

end
