(* ===== verification/EndToEnd.thy ===== *)
theory EndToEnd
  imports Stream Delivery
begin

text \<open>
  The two halves together: the relay that publishes the rows of an outbox to Kafka, and a consumer group that handles
  what it reads there into an inbox.
\<close>

lemma uuid_str_chars: "c \<in> set (uuid_str u) \<Longrightarrow> \<not> py_space c"
proof -
  let ?h = "map hex_digit (digits 16 32 (unat (uuid_int u)))"
  have "\<forall>c\<in>set ?h. 45 \<le> c \<and> c < 128"
    using digits_less [of 16 _ 32] by (fastforce simp: hex_digit_def simp del: digits_numeral)
  then have "\<forall>c\<in>set (uuid_str u). 45 \<le> c \<and> c < 128"
    unfolding uuid_str_def Let_def by (auto simp del: digits_numeral dest!: in_set_takeD in_set_dropD) 
  then show "c \<in> set (uuid_str u) \<Longrightarrow> \<not> py_space c"
    by (fastforce simp: py_space_def)
qed

lemma strip_uuid_str: "strip (uuid_str u) = uuid_str u"
proof (cases "uuid_str u = []")
  case False
  then show ?thesis
    using uuid_str_chars [of _ u] by (intro strip_idle) simp_all
qed (simp add: strip_def)

text \<open>C3. From the outbox to the inbox, exactly once. A relay cycle over PostgreSQL and Kafka has listed an event as
  processed. A consumer group of \<open>EXACTLY_ONCE_INBOX\<close> runners reads the log the relay's producer writes, from offsets
  before its records. Once the group has committed past those records, whatever has failed, been redelivered or
  died on either side, and however often the relay has published the event: the outbox row is completed, the inbox has one row for
  the event and the group, completed, and the effect of its handler is in the consumer's database, once. The collectors of
  the consumers must not raise on \<open>inc_consumed\<close>, and the inbox is a plain table.\<close>

theorem outbox_to_inbox_exactly_once:
  fixes E :: "('db, outbox_event) engine" and s :: "('p publisher_state \<times> 'db) world"
    and F :: "('c, inbox_event) engine" and t :: "('c, 'b) node"
  assumes "sql_engine E" and "unique_ids (table_rows E (snd (w_db s)))"
    and "PostgresOutboxRepository_init part ii im bs em suffix skew = Inr R"
    and "create_outbox_processor (postgres_repository (session_engine E) L R) (relay_publish K) tt base_s cap et en opts = Inr P"
    and "fo_breaker opts = None" and "plain_options opts" and "cap \<le> LONGEST_DELAY"
    and "kafka_producer (kp_client K) sent" and "0 \<le> kp_max_infra_retries K"
    and "kp_convert K = schema_versioned_converter \<or> kp_convert K = envelope_converter version"
    and "orjson_roundtrip L" and "orjson_roundtrip (kp_libs K)"
    and "\<forall>r\<in>#table_rows E (snd (w_db s)). 0 \<le> attempts_made r \<and> attempts_made r < 1024 \<and> \<not> nonfinite (JObj (payload r))"
    and "sane_world s" and "polls shutdown"
    and "processor_batch P w n shutdown filters s = (Inr res, s')" and "\<not> commit_failed res"
    and "i \<in> set (processed_event_ids res)"
    and "\<forall>r\<in>#table_rows E (snd (w_db s)). \<forall>e. event_id r = i \<and>
      to_entity L R (locked_row (tx_now E (snd (w_db s))) (strip w) r) = Inr e \<longrightarrow> plain_headers e"
    and "kafka_stream c position committed offsets record_at"
    and "C = KafkaEventConsumer_init c (\<lambda>v. Inr (orjson_loads (kp_libs K) v)) None None None None None"
    and "\<And>tp k. k \<in> offsets tp \<Longrightarrow> is_ok (Kafka.consumed C (record_at tp k))"
    and "effects F provider durable app kept" and "\<forall>Q\<in>W. stream_runner C F provider durable app kept g Q \<and> rn_refuses Q IncConsumed = None"
    and "group_run W position committed durable kept base t"
    and "\<forall>q\<in>sent (ps_producer (fst (w_db s'))). kr_offset q \<in> offsets (partition_of q) \<and>
      record_at (partition_of q) (kr_offset q) = q \<and> base (partition_of q) \<le> kr_offset q \<and>
      kr_offset q < committed (n_broker t) (partition_of q)"
  shows "(\<exists>r\<in>#table_rows E (snd (w_db s')). event_id r = i \<and> status r = COMPLETED) \<and>
    (\<exists>r\<in>#durable (n_db t). message_id r = uuid_str i \<and> consumer_group r = strip g \<and> status r = COMPLETED \<and>
      count_list (kept (n_db t)) (event_id r) = 1 \<and>
      (\<forall>r'\<in>#durable (n_db t). message_id r' = message_id r \<and> consumer_group r' = consumer_group r \<longrightarrow> r' = r))"
proof -
  obtain r e where r: "r \<in># table_rows E (snd (w_db s))" "event_id r = i"
      "to_entity L R (locked_row (tx_now E (snd (w_db s))) (strip w) r) = Inr e"
      "\<exists>r'\<in>#table_rows E (snd (w_db s')). event_id r' = i \<and> status r' = COMPLETED \<and> payload r' = payload r"
    and e: "delivered sent K e (fst (w_db s'))" "valid_event outbox_extra L (entity_context R) e"
      "event_id e = i" "payload e = payload r" "\<not> nonfinite (JObj (payload r))"
    using processed_row_delivered [OF assms(1-18)] by meson
  have "plain_headers e"
    using assms(19) r(1-3) by blast
  then obtain q m where q: "q \<in> sent (ps_producer (fst (w_db s')))" "Kafka.consumed C q = Inr m" "msg_message_id m = uuid_str i"
    using delivered_read [OF e(1,2) _ assms(10,12), of c] e(3-5) unfolding assms(21) by auto
  then have at: "kr_offset q \<in> offsets (partition_of q)" "record_at (partition_of q) (kr_offset q) = q"
    and passed: "base (partition_of q) \<le> kr_offset q" "kr_offset q < committed (n_broker t) (partition_of q)"
    using assms(26) by blast+
  have "kc_client C = c"
    by (simp add: assms(21) KafkaEventConsumer_init_def)
  from group_done [OF assms(20) this assms(22-25) at(1) passed]
  have log: "logged_once (durable (n_db t)) (kept (n_db t))" and "message_done C g q (durable (n_db t))"
    unfolding at(2) by blast+
  then have "(uuid_str i, strip g) \<in> completed_keys (durable (n_db t))"
    using q(2,3) strip_uuid_str by (auto simp: message_done_def)
  note logged_effect [OF log this]
  with r(4) show ?thesis by blast
qed

section \<open>A concrete passage\<close>

text \<open>The record that the sample relay cycle leaves on its broker, and what the default adapter makes of it.\<close>

definition arriving_headers :: "(pystr \<times> pystr) list" where
  "arriving_headers = [(lit ''event_id'', uuid_str (UUID 7)), (lit ''event_type'', lit ''t'')]"

definition arriving_message :: "'b ack_handle \<Rightarrow> 'b consumed_message" where
  "arriving_message h = \<lparr>msg_message_id = uuid_str (UUID 7), msg_source = lit ''q'', msg_event_type = lit ''t'',
     msg_payload = JObj sample_payload, msg_headers = Some arriving_headers, msg_trace_id = JNull,
     msg_correlation_id = JNull, msg_causation_id = JNull, msg_schema_version = JNull, msg_ack_handle = Some h\<rparr>"

definition arriving_event :: inbox_event where
  "arriving_event = sample_inbox_event\<lparr>message_id := uuid_str (UUID 7), source := lit ''q'', headers := Some arriving_headers\<rparr>"

lemma sample_uuid: "uuid_str (UUID 7) = lit ''00000000-0000-0000-0000-000000000007''"
  by code_simp

lemma delivered_headers: "decode_headers delivered_record = Some arriving_headers"
proof -
  have "text_ok (lit ''t'')"
    by (simp add: lit_def text_ok_def surrogate_def)
  then have "utf8_decode [65533] (utf8_bytes (lit ''t'')) = lit ''t''"
    "utf8_decode [65533] (utf8_bytes (uuid_str (UUID 7))) = uuid_str (UUID 7)"
    using uuid_str_text by (simp_all add: decode_utf8_bytes)
  then show ?thesis
    by (simp add: decode_headers_def delivered_record_def sent_record_def as_sent_def arriving_headers_def)
qed

definition delivered_adapter :: "log_client kafka_consumer" where
  "delivered_adapter = KafkaEventConsumer_init (log_consumer [delivered_record])
     (\<lambda>v. Inr (orjson_loads delivery_libs v)) None None None None None"

lemma delivered_reads: "Kafka.consumed delivered_adapter delivered_record =
    Inr (arriving_message (kafka_handle (log_consumer [delivered_record]) delivered_record))"
proof -
  let ?hs = "Some arriving_headers" and ?body = "schema_versioned_converter sample_event"
  have "default_message_id_getter delivered_record ?hs = uuid_str (UUID 7)"
    "default_event_type_getter delivered_record ?body ?hs = lit ''t''"
    "default_source_getter delivered_record ?hs = lit ''q''"
    "default_parse ?body ?hs = \<lparr>env_payload = JObj sample_payload, env_trace_id = JNull, env_correlation_id = JNull,
       env_causation_id = JNull, env_schema_version = JNull\<rparr>"
    "default_payload_loader (\<lambda>v. Inr (orjson_loads delivery_libs v)) delivered_record = Inr ?body"
    by code_simp+
  then show ?thesis
    using delivered_headers
    by (simp add: Kafka.consumed_def delivered_adapter_def KafkaEventConsumer_init_def res_simps arriving_message_def)
qed

lemma arriving_valid: "valid_event inbox_extra sample_libs (validation_context default_service) arriving_event"
    "valid_event inbox_extra sample_libs (entity_context sample_inbox_repository) arriving_event"
proof -
  have "headers_ok sample_libs (validation_context default_service) arriving_headers"
    "headers_ok sample_libs (entity_context sample_inbox_repository) arriving_headers"
    "field_ok MESSAGE_ID_MAX_LENGTH (uuid_str (UUID 7))" "strip (lit ''q'') = lit ''q''"
    using strip_uuid_str [of "UUID 7"]
    by (simp_all add: headers_ok_def arriving_headers_def header_ok_def control_in_key_def control_in_value_def sample_uuid
        validation_context_def entity_context_def default_service_def sample_inbox_repository_def limit_defs field_ok_def
        strip_def lit_def py_space_def sample_libs_def)
  moreover have "valid_event inbox_extra sample_libs (entity_context sample_inbox_repository) sample_inbox_event"
    using sample_inbox_entity inbox_class.valid_validate [OF sample_libs_roundtrip]
    by (simp add: to_entity_def sample_inbox_repository_def)
  ultimately show "valid_event inbox_extra sample_libs (validation_context default_service) arriving_event"
    "valid_event inbox_extra sample_libs (entity_context sample_inbox_repository) arriving_event"
    using sample_inbox_event_valid
    by (simp_all add: valid_event_def fields_ok_def arriving_event_def inbox_extra_def sample_inbox_event_def invariant_defs)
qed

lemma arriving_arrived: "arrived arriving_event"
proof -
  have "to_entity sample_libs sample_inbox_repository arriving_event = Inr arriving_event"
    using inbox_class.validate_valid [OF sample_libs_roundtrip arriving_valid(2)]
    by (simp add: to_entity_def sample_inbox_repository_def)
  then show ?thesis
    by (simp add: arrived_def) (simp add: arriving_event_def sample_inbox_event_def)
qed

lemma arriving_message_event:
  "message_event (runner_reading getone E P strategy policy h) (arriving_message ack) (UUID 7) 0 0 = Inr arriving_event"
proof -
  have "strip (lit ''g'') = lit ''g''" "strip (lit ''q'') = lit ''q''" "strip (lit ''t'') = lit ''t''"
    by (simp_all add: strip_def lit_def py_space_def)
  moreover have "validation_context (default_service\<lparr>svc_max_attempts := 2\<rparr>) = validation_context default_service"
    by (simp add: validation_context_def)
  ultimately have "create_inbox_event sample_libs (default_service\<lparr>svc_max_attempts := 2\<rparr>) (UUID 7) 0 0
      (uuid_str (UUID 7)) (lit ''g'') (lit ''q'') (lit ''t'') sample_payload (Some arriving_headers) None None None None =
      Inr arriving_event"
    using inbox_class.validate_valid [OF sample_libs_roundtrip arriving_valid(1)] strip_uuid_str [of "UUID 7"]
    by (simp add: create_inbox_event_def) (simp add: arriving_event_def sample_inbox_event_def)
  then show ?thesis
    by (simp add: message_event_def arriving_message_def)
qed

theorem outbox_to_inbox_exactly_once_witness:
  "\<exists>s' t'. processor_batch delivery_processor (lit ''w'') 10 None [] (world_of (delivery_start, sample_db)) = (Inr sample_result, s') \<and>
     process_one (log_reader (kafka_getone delivered_adapter)) (node_with (log_start_at 0) (([], sample_table []), ([], sample_table []))) =
       (Inr (sample_outcome (uuid_str (UUID 7)) True True), t') \<and>
     (\<exists>r\<in>#table_rows list_engine (snd (w_db s')). event_id r = UUID 7 \<and> status r = COMPLETED) \<and>
     (\<exists>r\<in>#log_durable (n_db t'). message_id r = uuid_str (UUID 7) \<and> status r = COMPLETED \<and>
        count_list (fst (fst (n_db t'))) (event_id r) = 1)"
proof -
  let ?q = delivered_record and ?C = delivered_adapter
  obtain s' where run: "processor_batch delivery_processor (lit ''w'') 10 None [] (world_of (delivery_start, sample_db)) =
      (Inr sample_result, s')" and sent: "lb_records (ps_producer (fst (w_db s'))) = [?q]"
    using delivery_cycle by blast
  have C: "kc_client ?C = log_consumer [?q]" "kr_offset ?q = 0"
    by (simp_all add: delivered_adapter_def KafkaEventConsumer_init_def delivered_record_def sent_record_def)
  have mine: "handle_of (arriving_message h) = h" "msg_message_id (arriving_message h) = uuid_str (UUID 7)" for h :: "log_client ack_handle"
    by (simp_all add: arriving_message_def handle_of_def)
  obtain t' where run': "process_one (log_reader (kafka_getone ?C)) (node_with (log_start_at 0) (([], sample_table []), ([], sample_table []))) =
      (Inr (sample_outcome (uuid_str (UUID 7)) True True), t')"
    and group: "group_run {log_reader (kafka_getone ?C)} lc_position lc_committed log_durable (\<lambda>db. fst (fst db)) (\<lambda>_. 0) t'"
    and c: "lc_committed (n_broker t') (partition_of ?q) = 1"
    using log_reader_run [OF C(1) delivered_reads C(2) arriving_arrived mine(1) arriving_message_event, of "([], sample_table [])"]
    unfolding mine by auto
  have "orjson_roundtrip delivery_libs"
    by (simp add: orjson_roundtrip_def delivery_libs_def)
  moreover have "0 \<le> attempts_made r \<and> attempts_made r < 1024 \<and> \<not> nonfinite (JObj (payload r))"
    if "r \<in># table_rows list_engine sample_db" for r
    using that by (auto simp: sample_event_def sample_next_def sample_payload_def)
  moreover have "polls None" "(3600::rat) \<le> LONGEST_DELAY" "\<not> commit_failed sample_result"
      "UUID 7 \<in> set (processed_event_ids sample_result)"
    by (simp_all add: polls_def LONGEST_DELAY_def sample_result_def)
  moreover have "plain_headers e" if r: "r \<in># table_rows list_engine sample_db" "event_id r = UUID 7"
      and e: "to_entity sample_libs sample_repository (locked_row 5 (lit ''w'') r) = Inr e" for r e
  proof -
    have "locked_row 5 (lit ''w'') r = locked_sample"
      using r by (auto simp: locked_row_def locked_sample_def sample_event_def sample_next_def)
    with e have "e = locked_sample"
      by (simp add: locked_sample_entity)
    moreover have "headers locked_sample = None" "build_headers locked_sample = build_headers sample_event"
      by (simp_all add: locked_sample_def build_headers_def sample_event_def)
    ultimately show ?thesis
      unfolding plain_headers_def using sample_headers(2) by simp
  qed
  moreover have "tx_now list_engine sample_db = 5"
    by (simp add: list_engine_def sample_db_def)
  ultimately have "(\<exists>r\<in>#table_rows list_engine (snd (w_db s')). event_id r = UUID 7 \<and> status r = COMPLETED) \<and>
      (\<exists>r\<in>#log_durable (n_db t'). message_id r = uuid_str (UUID 7) \<and> consumer_group r = strip (lit ''g'') \<and> status r = COMPLETED \<and>
        count_list (fst (fst (n_db t'))) (event_id r) = 1 \<and>
        (\<forall>r'\<in>#log_durable (n_db t'). message_id r' = message_id r \<and> consumer_group r' = consumer_group r \<longrightarrow> r' = r))"
    using delivered_reads log_reader_stream c sent C(2) kafka_broker.kafka_producer_axioms sample_db_rows(2)
    by (intro outbox_to_inbox_exactly_once [OF list_sql.sql_engine_axioms _ sample_repository_init delivery_processor_created _ _ _
      _ _ _ _ _ _ _ _ run _ _ _ log_stream.kafka_stream_axioms [of "[?q]"] _ _ sample_log _ group])
     (auto simp: delivery_publisher_def sample_db_rows delivered_adapter_def is_ok_iff found_at_def)
  with run run' show ?thesis
    by blast
qed

end
