(* ===== verification/Drain.thy ===== *)
theory Drain
  imports Cycle
begin

text \<open>
  Progress of the relay: while every pending row comes round to be due and free, each cycle spends an attempt of one
  of them or completes it, so after as many cycles as there are attempts left no row is pending.
\<close>

section \<open>What a cycle settles\<close>

text \<open>The attempts that the pending rows of a table have left.\<close>

definition turns_left :: "outbox_event multiset \<Rightarrow> nat" where
  "turns_left T = (\<Sum>r\<in>#filter_mset (\<lambda>r. status r = PENDING) T. nat (max_attempts r - attempts_made r))"

definition within_budget :: "outbox_event \<Rightarrow> bool" where
  "within_budget r \<longleftrightarrow> 0 \<le> attempts_made r \<and> attempts_made r \<le> max_attempts r \<and> max_attempts r < 1024 \<and>
     (status r = PENDING \<longrightarrow> attempts_made r < max_attempts r)"

text \<open>A fetched row after its cycle.\<close>

lemma row_settled:
  assumes "status r = PENDING" and "event_id r \<in> set cs \<union> fail_id ` set fs"
    and "\<forall>f\<in>set fs. \<exists>err. repo_truncate_error R (fail_error f) = Inr err"
    and "r' = settled_row R now cs fs [] (locked_row now w r)"
  shows "event_id r' = event_id r" and "max_attempts r' = max_attempts r"
    and "event_id r \<in> set cs \<and> status r' = COMPLETED \<and> attempts_made r' = attempts_made r \<or>
      attempts_made r' = attempts_made r + 1 \<and> status r' = (if max_attempts r \<le> attempts_made r + 1 then FAILED else PENDING)"
proof -
  have "\<exists>f err. List.find (\<lambda>f. fail_id f = event_id r) fs = Some f \<and> repo_truncate_error R (fail_error f) = Inr err"
    if "event_id r \<notin> set cs"
    using assms(2,3) that find_id_None [of "event_id r" fs] by (cases "List.find (\<lambda>f. fail_id f = event_id r) fs")
      (auto simp: find_Some_iff)
  then show "event_id r' = event_id r" "max_attempts r' = max_attempts r"
    "event_id r \<in> set cs \<and> status r' = COMPLETED \<and> attempts_made r' = attempts_made r \<or>
      attempts_made r' = attempts_made r + 1 \<and> status r' = (if max_attempts r \<le> attempts_made r + 1 then FAILED else PENDING)"
    using assms(2,4)
    by (cases "event_id r \<in> set cs"; auto simp: settled_row_def failed_in_def failed_by_def completed_row_def locked_row_def
        failed_row_def Let_def split: option.split)+
qed

section \<open>The first row can be fetched\<close>

lemma first_written:
  assumes "finite S" and "S \<noteq> {}"
  shows "\<exists>r\<in>S. \<forall>b\<in>S. \<not> written_before b r"
proof -
  let ?first = "{r \<in> S. created_at r = Min (created_at ` S)}"
  have "Min (created_at ` S) \<in> created_at ` S"
    using assms by simp
  then have "?first \<noteq> {}"
    by auto
  then have "Min (event_id ` ?first) \<in> event_id ` ?first"
    using assms(1) by simp
  then obtain r where r: "r \<in> S" "created_at r = Min (created_at ` S)" "event_id r = Min (event_id ` ?first)"
    by auto
  have "\<not> written_before b r" if "b \<in> S" for b
    using that assms(1) r(2,3) by (auto simp: written_before_def not_less intro!: Min_le)
  with r(1) show ?thesis by blast
qed

text \<open>Every pending row is due, free or held longer than the lease, and no other transaction has it locked.\<close>

definition all_ready :: "('db, outbox_event) engine \<Rightarrow> 'db \<Rightarrow> bool" where
  "all_ready E db \<longleftrightarrow> (\<forall>r\<in>#table_rows E db. status r = PENDING \<longrightarrow> scheduled_at r \<le> tx_now E db \<and>
     lock_filter (Some DEFAULT_LEASE_TIMEOUT_SECONDS) (tx_now E db) r \<and> event_id r \<notin> held_elsewhere E db)"

lemma pending_fetchable:
  assumes "all_ready E db" and "\<forall>r\<in>#table_rows E db. within_budget r" and "p \<in># table_rows E db" and "status p = PENDING"
  shows "\<exists>r\<in>#table_rows E db. event_id r \<notin> held_elsewhere E db \<and>
    fetchable R (Some DEFAULT_LEASE_TIMEOUT_SECONDS) (\<lambda>_. True) (tx_now E db) (set_mset (table_rows E db)) r"
proof -
  let ?S = "{r \<in> set_mset (table_rows E db). status r = PENDING}"
  have "\<exists>r\<in>?S. \<forall>b\<in>?S. \<not> written_before b r"
    by (rule first_written) (use assms(3,4) in auto)
  then obtain r where "r \<in># table_rows E db" "status r = PENDING" "\<forall>b\<in>?S. \<not> written_before b r"
    by blast
  then show ?thesis
    using assms(1,2) by (intro bexI [of _ r]) (auto simp: fetchable_def all_ready_def within_budget_def earlier_event_in_line_def)
qed

section \<open>One cycle\<close>

text \<open>What a pending row of the start has come to.\<close>

definition come_to :: "(outbox_event \<Rightarrow> bool) \<Rightarrow> outbox_event \<Rightarrow> outbox_event \<Rightarrow> bool" where
  "come_to published r r' \<longleftrightarrow> event_id r' = event_id r \<and> max_attempts r' = max_attempts r \<and>
     (status r' = PENDING \<or> status r' = COMPLETED \<and> (\<exists>e. event_id e = event_id r \<and> published e) \<or>
      status r' = FAILED \<and> attempts_made r' = max_attempts r')"

lemma turns_left_0: "\<forall>r\<in>#T. status r \<noteq> PENDING \<Longrightarrow> turns_left T = 0"
  by (auto simp: turns_left_def)

lemma turns_left_pos: "r \<in># T \<Longrightarrow> status r = PENDING \<Longrightarrow> within_budget r \<Longrightarrow> 0 < turns_left T"
  by (auto simp: turns_left_def within_budget_def dest!: multi_member_split)

lemma turns_left_settled:
  assumes "\<And>r. r \<in># T \<Longrightarrow> within_budget r" and "\<And>r. r \<in># T \<Longrightarrow> \<not> p r \<Longrightarrow> f r = r"
    and "\<And>r. r \<in># T \<Longrightarrow> p r \<Longrightarrow> status r = PENDING \<and> max_attempts (f r) = max_attempts r \<and>
      (status (f r) = PENDING \<longrightarrow> attempts_made (f r) = attempts_made r + 1)"
    and "\<exists>r\<in>#T. p r"
  shows "turns_left (image_mset f T) < turns_left T"
proof -
  let ?w = "\<lambda>r. if status r = PENDING then nat (max_attempts r - attempts_made r) else 0"
  have left: "turns_left T = (\<Sum>r\<in>#T. ?w r)" for T
    unfolding turns_left_def by (induction T) auto
  have less: "?w (f r) < ?w r" if "r \<in># T" "p r" for r
    using assms(1,3) that by (auto simp: within_budget_def)
  have le: "?w (f r) \<le> ?w r" if "r \<in># T" for r
  proof (cases "p r")
    case True
    with less that show ?thesis by (blast intro: less_imp_le)
  qed (simp add: assms(2) that)
  obtain q T' where T: "T = add_mset q T'" and q: "p q"
    using assms(4) by (metis multi_member_split)
  have "(\<Sum>r\<in>#T'. ?w (f r)) \<le> (\<Sum>r\<in>#T'. ?w r)"
    by (rule sum_mset_mono) (rule le, simp add: T)
  moreover have "?w (f q) < ?w q"
    by (rule less) (simp_all add: q T)
  ultimately show ?thesis
    unfolding left T by (simp add: image_mset.compositionality comp_def)
qed

lemma polls_None: "polls None"
  by (simp add: polls_def)

lemma cycle_settles:
  assumes "sql_engine E" and "unique_ids (table_rows E (w_db s))"
    and "PostgresOutboxRepository_init part ii im bs em suffix skew = Inr R"
    and "create_outbox_processor (postgres_repository E L R) publish tt base cap et en opts = Inr P"
    and "fo_breaker opts = None" and "plain_options opts"
    and "\<forall>e. benign (same_table E) publish e" and "cap \<le> LONGEST_DELAY"
    and rows: "\<forall>r\<in>#table_rows E (w_db s). within_budget r" and "sane_world s"
    and "processor_batch P w n None [] s = (Inr res, s')" and "\<not> commit_failed res"
    and "result_failed_noncounted res = []" and "remaining_event_ids res = {}" and ready: "all_ready E (w_db s)"
  shows "unique_ids (table_rows E (w_db s'))" and "\<forall>r\<in>#table_rows E (w_db s'). within_budget r"
    and "\<forall>r\<in>#table_rows E (w_db s). \<exists>r'\<in>#table_rows E (w_db s'). if status r = PENDING then come_to (succeeds publish) r r' else r' = r"
    and "turns_left (table_rows E (w_db s')) \<le> turns_left (table_rows E (w_db s)) - 1"
proof -
  let ?now = "tx_now E (w_db s)" and ?T = "table_rows E (w_db s)"
  let ?f = "\<lambda>r. settled_row R ?now (processed_event_ids res) (result_failed_counted res) [] (locked_row ?now (strip w) r)"
  have small: "\<forall>r\<in>#?T. 0 \<le> attempts_made r \<and> attempts_made r < 1024"
    using rows by (auto simp: within_budget_def)
  obtain I where tbl: "table_rows E (w_db s') = image_mset (\<lambda>r. if event_id r \<in> I
        then settled_row R ?now (processed_event_ids res) (result_failed_counted res)
          (result_failed_noncounted res) (locked_row ?now (strip w) r) else r) ?T"
    and fetched: "\<forall>i\<in>I. \<exists>wanted. \<exists>r\<in>#?T. event_id r = i \<and>
      fetchable R (Some DEFAULT_LEASE_TIMEOUT_SECONDS) wanted ?now (set_mset ?T) r"
    and acc: "accounts {i. \<exists>e. event_id e = i \<and> succeeds publish e} I
      (processed_event_ids res, map fail_id (result_failed_counted res),
       map fail_id (result_failed_noncounted res), remaining_event_ids res)"
    and es: "\<exists>es db'. fetch_and_lock_pending E L R n w (Some DEFAULT_LEASE_TIMEOUT_SECONDS) []
      (w_db s) = (Inr es, db') \<and> I = event_id ` set es"
    and texts: "\<forall>f\<in>set (result_failed_counted res). \<exists>err. repo_truncate_error R (fail_error f) = Inr err"
    using relay_cycle [OF assms(1-8) small assms(10) polls_None assms(11,12)] by (elim exE conjE) (rule that; (assumption | simp))
  have I: "set (processed_event_ids res) \<union> fail_id ` set (result_failed_counted res) = I"
    and published: "\<forall>i\<in>set (processed_event_ids res). \<exists>e. event_id e = i \<and> succeeds publish e"
    using acc assms(13,14) by auto
  have pending: "status r = PENDING" if r: "r \<in># ?T" "event_id r \<in> I" for r
  proof -
    obtain q where "q \<in># ?T" "event_id q = event_id r" "status q = PENDING"
      using fetched r(2) by (auto simp: fetchable_def)
    with unique_same [OF assms(2) _ r(1)] show ?thesis by metis
  qed
  note after = row_settled [where cs = "processed_event_ids res" and fs = "result_failed_counted res" and R = R
    and now = ?now and w = "strip w", OF pending _ texts refl, unfolded I]
  have tbl: "table_rows E (w_db s') = image_mset (\<lambda>r. if event_id r \<in> I then ?f r else r) ?T"
    using tbl unfolding assms(13) .
  have "table_rows E (w_db s') = updated_rows (\<lambda>r. event_id r \<in> I) ?f ?T"
    by (simp add: tbl updated_rows_def)
  then show "unique_ids (table_rows E (w_db s'))"
    using unique_updated [of ?T "\<lambda>r. event_id r \<in> I" ?f] assms(2) by simp
  have "within_budget (?f r)" if "r \<in># ?T" "event_id r \<in> I" for r
    using after [OF that that(2)] pending [OF that] rows that(1) by (auto simp: within_budget_def split: if_splits)
  with rows show "\<forall>r\<in>#table_rows E (w_db s'). within_budget r"
    by (auto simp: tbl)
  have spent: "status r = PENDING \<and> max_attempts (?f r) = max_attempts r \<and>
      (status (?f r) = PENDING \<longrightarrow> attempts_made (?f r) = attempts_made r + 1)" if "r \<in># ?T" "event_id r \<in> I" for r
    using after [OF that that(2)] pending [OF that] by auto
  have came: "come_to (succeeds publish) r (?f r)" if "r \<in># ?T" "event_id r \<in> I" for r
    using after [OF that that(2)] rows that(1) published pending [OF that]
    by (auto simp: come_to_def within_budget_def split: if_splits)
  have kept: "if status r = PENDING then come_to (succeeds publish) r (if event_id r \<in> I then ?f r else r)
      else (if event_id r \<in> I then ?f r else r) = r" if r: "r \<in># ?T" for r
  proof (cases "event_id r \<in> I")
    case True
    with came [OF r True] pending [OF r True] show ?thesis by simp
  qed (simp add: come_to_def)
  show "\<forall>r\<in>#?T. \<exists>r'\<in>#table_rows E (w_db s'). if status r = PENDING then come_to (succeeds publish) r r' else r' = r"
  proof
    fix r
    assume r: "r \<in># ?T"
    then have "(if event_id r \<in> I then ?f r else r) \<in># table_rows E (w_db s')"
      unfolding tbl by (simp only: in_image_mset) (rule imageI)
    with kept [OF r] show "\<exists>r'\<in>#table_rows E (w_db s'). if status r = PENDING then come_to (succeeds publish) r r' else r' = r"
      by (rule bexI)
  qed
  show "turns_left (table_rows E (w_db s')) \<le> turns_left ?T - 1"
  proof (cases "\<exists>p\<in>#?T. status p = PENDING")
    case True
    then obtain r where "r \<in># ?T" "event_id r \<notin> held_elsewhere E (w_db s)"
        "fetchable R (Some DEFAULT_LEASE_TIMEOUT_SECONDS) (\<lambda>_. True) ?now (set_mset ?T) r"
      using pending_fetchable [OF ready rows] by metis
    then have "I \<noteq> {}"
      using es sql_engine.fetch_not_empty [OF assms(1) _ assms(2) apply_filters.simps(1)] by fastforce
    then have "\<exists>r\<in>#?T. event_id r \<in> I"
      using fetched by (metis ex_in_conv)
    then have "turns_left (table_rows E (w_db s')) < turns_left ?T"
      unfolding tbl using rows spent by (intro turns_left_settled) auto
    then show ?thesis by simp
  next
    case False
    then have "event_id r \<notin> I" if "r \<in># ?T" for r
      using pending that by blast
    then have "table_rows E (w_db s') = ?T"
      unfolding tbl by (simp cong: image_mset_cong)
    then show ?thesis
      using False turns_left_0 by simp
  qed
qed

section \<open>Cycle after cycle\<close>

text \<open>\<open>k\<close> cycles, each begun when every pending row is due and free, each committed, with no failure that spends no attempt
  (the broker is there) and nothing skipped. Between two cycles time passes; the rows stay.\<close>

inductive relay_turns :: "('db, outbox_event) engine \<Rightarrow> ('db, unit outbox_event_ext) processor \<Rightarrow> pystr \<Rightarrow> int \<Rightarrow> nat \<Rightarrow>
    'db world \<Rightarrow> 'db world \<Rightarrow> bool" for E P w n where
  starts: "relay_turns E P w n 0 s s"
| turns: "relay_turns E P w n k s t \<Longrightarrow> all_ready E (w_db t) \<Longrightarrow> sane_world t \<Longrightarrow>
    processor_batch P w n None [] t = (Inr res, t') \<Longrightarrow> \<not> commit_failed res \<Longrightarrow> result_failed_noncounted res = [] \<Longrightarrow>
    remaining_event_ids res = {} \<Longrightarrow> table_rows E (w_db u) = table_rows E (w_db t') \<Longrightarrow> relay_turns E P w n (Suc k) s u"

lemma turns_settle:
  assumes "sql_engine E" and "unique_ids (table_rows E (w_db s))"
    and "PostgresOutboxRepository_init part ii im bs em suffix skew = Inr R"
    and "create_outbox_processor (postgres_repository E L R) publish tt base cap et en opts = Inr P"
    and "fo_breaker opts = None" and "plain_options opts"
    and "\<forall>e. benign (same_table E) publish e" and "cap \<le> LONGEST_DELAY"
    and "\<forall>r\<in>#table_rows E (w_db s). within_budget r" and "relay_turns E P w n k s u"
  shows "unique_ids (table_rows E (w_db u)) \<and> (\<forall>r\<in>#table_rows E (w_db u). within_budget r) \<and>
    (\<forall>r\<in>#table_rows E (w_db s). status r = PENDING \<longrightarrow> (\<exists>r'\<in>#table_rows E (w_db u). come_to (succeeds publish) r r')) \<and>
    turns_left (table_rows E (w_db u)) \<le> turns_left (table_rows E (w_db s)) - k"
  using assms(10,2,9)
proof (induction rule: relay_turns.induct)
  case (starts s)
  then show ?case
    by (auto simp: come_to_def)
next
  case (turns k s t res t' u)
  note ih = turns.IH [OF turns.prems]
  then have "unique_ids (table_rows E (w_db t))" and rows: "\<forall>r\<in>#table_rows E (w_db t). within_budget r"
    by blast+
  note one = cycle_settles [OF assms(1) this(1) assms(3-8) rows turns.hyps(3-7,2)]
  have "\<exists>r'\<in>#table_rows E (w_db u). come_to (succeeds publish) r r'"
    if "r \<in># table_rows E (w_db s)" "status r = PENDING" for r
  proof -
    obtain q where "q \<in># table_rows E (w_db t)" "come_to (succeeds publish) r q"
      using ih \<open>r \<in># _\<close> \<open>status r = PENDING\<close> by blast
    then show ?thesis
      using one(3) turns.hyps(8) by (fastforce simp: come_to_def split: if_splits)
  qed
  moreover have "turns_left (table_rows E (w_db t')) \<le> turns_left (table_rows E (w_db s)) - Suc k"
    using one(4) ih by linarith
  ultimately show ?case
    using one(1,2) turns.hyps(8) by simp
qed

text \<open>C5. The outbox drains. When a relay runs as many cycles as the pending rows have attempts left in all, and each of them
  finds the pending rows due and free, commits, and neither defers nor skips an event, then no row is pending: every event that was
  is completed, and the publisher has accepted it, or has failed and used up all its attempts.\<close>

theorem outbox_drains:
  assumes "sql_engine E" and "unique_ids (table_rows E (w_db s))"
    and "PostgresOutboxRepository_init part ii im bs em suffix skew = Inr R"
    and "create_outbox_processor (postgres_repository E L R) publish tt base cap et en opts = Inr P"
    and "fo_breaker opts = None" and "plain_options opts"
    and "\<forall>e. benign (same_table E) publish e" and "cap \<le> LONGEST_DELAY"
    and "\<forall>r\<in>#table_rows E (w_db s). within_budget r" and "relay_turns E P w n k s s'"
    and "(\<Sum>r\<in>#filter_mset (\<lambda>r. status r = PENDING) (table_rows E (w_db s)). nat (max_attempts r - attempts_made r)) \<le> k"
  shows "(\<forall>r\<in>#table_rows E (w_db s'). status r \<noteq> PENDING) \<and>
    (\<forall>r\<in>#table_rows E (w_db s). status r = PENDING \<longrightarrow> (\<exists>r'\<in>#table_rows E (w_db s'). event_id r' = event_id r \<and>
      (status r' = COMPLETED \<and> (\<exists>e. event_id e = event_id r \<and> succeeds publish e) \<or>
       status r' = FAILED \<and> attempts_made r' = max_attempts r)))"
proof -
  note end_state = turns_settle [OF assms(1-10)]
  have "turns_left (table_rows E (w_db s')) = 0"
    using end_state assms(11) by (simp add: turns_left_def)
  then have none: "status r \<noteq> PENDING" if "r \<in># table_rows E (w_db s')" for r
    using turns_left_pos [OF that] end_state that by auto
  have "\<exists>r'\<in>#table_rows E (w_db s'). event_id r' = event_id r \<and>
      (status r' = COMPLETED \<and> (\<exists>e. event_id e = event_id r \<and> succeeds publish e) \<or>
       status r' = FAILED \<and> attempts_made r' = max_attempts r)" if r: "r \<in># table_rows E (w_db s)" "status r = PENDING" for r
  proof -
    obtain r' where "r' \<in># table_rows E (w_db s')" "come_to (succeeds publish) r r'"
      using end_state r by blast
    with none show ?thesis
      by (intro bexI [of _ r']) (auto simp: come_to_def)
  qed
  with none show ?thesis by blast
qed

section \<open>A concrete run\<close>

text \<open>One event with one attempt left.\<close>

definition last_try :: outbox_event where
  "last_try = sample_event\<lparr>attempts_made := 1\<rparr>"

definition last_db :: "outbox_event listdb" where
  "last_db = \<lparr>db_rows = [last_try], db_now = 5, db_held = {}\<rparr>"

abbreviation last_locked :: outbox_event where
  "last_locked \<equiv> locked_row 5 (lit ''w'') last_try"

lemma last_entity: "to_entity sample_libs sample_repository last_locked = Inr last_locked"
proof -
  have "valid_event outbox_extra sample_libs (entity_context sample_repository) last_locked"
    using sample_event_valid
    by (simp add: valid_event_def fields_ok_def last_try_def locked_row_def sample_event_def outbox_extra_def
        invariant_defs validate_scheduled_at_def entity_context_def sample_repository_def limit_defs
        Let_def us_per_s_def payload_ok_def sample_payload_def lit_def field_ok_def py_space_def)
  then show ?thesis
    using outbox_class.validate_valid [OF sample_libs_roundtrip]
    by (simp add: to_entity_def sample_repository_def)
qed

lemma last_fetch:
  "fetch_and_lock_pending list_engine sample_libs sample_repository 10 (lit ''w'')
     (Some DEFAULT_LEASE_TIMEOUT_SECONDS) [] last_db =
   (Inr [last_locked], \<lparr>db_rows = [last_locked], db_now = 5, db_held = {}\<rparr>)"
proof -
  have "\<not> earlier_event_in_line sample_repository 5 {last_try} last_try"
    by (simp add: earlier_event_in_line_def written_before_def)
  then have chosen: "list_chosen (pending_query sample_repository (Some DEFAULT_LEASE_TIMEOUT_SECONDS) (\<lambda>_. True) 5 10) last_db =
      [last_try]"
    by (simp add: list_chosen_def pending_query_def last_db_def fetchable_def limited_def lock_filter_def
        last_try_def sample_event_def)
  moreover have "tx_now list_engine last_db = 5"
    by (simp add: list_engine_def last_db_def)
  moreover have "timedelta_ok DEFAULT_LEASE_TIMEOUT_SECONDS"
    by (simp add: timedelta_ok_def DEFAULT_LEASE_TIMEOUT_SECONDS_def)
  moreover have "normalize_worker_id (lit ''w'') = Inr (lit ''w'')"
    by (simp add: normalize_worker_id_def lit_def py_space_def worker_char_def)
  moreover have "sql_update_from list_engine (pending_query sample_repository (Some DEFAULT_LEASE_TIMEOUT_SECONDS) (\<lambda>_. True) 5 10)
      (\<lambda>r. r\<lparr>locked_at := Some 5, locked_by := Some (lit ''w'')\<rparr>) last_db =
      (Inr [last_locked], \<lparr>db_rows = [last_locked], db_now = 5, db_held = {}\<rparr>)"
    using chosen by (simp add: list_engine_def list_update_def last_db_def locked_row_def)
  ultimately show ?thesis
    by (simp add: fetch_and_lock_pending_def andthen_def last_entity)
qed

lemma last_cycle:
  "\<exists>s'. processor_batch sample_processor (lit ''w'') 10 None [] (world_of last_db) = (Inr sample_result, s')"
  by (rule sample_batch [OF last_fetch, where rows = "[]"]) (simp_all add: locked_row_def last_try_def sample_event_def)

theorem outbox_drains_witness:
  "\<exists>s' r. processor_batch sample_processor (lit ''w'') 10 None [] (world_of last_db) = (Inr sample_result, s') \<and>
     table_rows list_engine last_db = {#last_try#} \<and> r \<in># table_rows list_engine (w_db s') \<and> event_id r = UUID 7 \<and> status r \<noteq> PENDING"
proof -
  obtain s' where run: "processor_batch sample_processor (lit ''w'') 10 None [] (world_of last_db) = (Inr sample_result, s')"
    using last_cycle by blast
  have rows: "table_rows list_engine last_db = {#last_try#}" "tx_now list_engine last_db = 5" "held_elsewhere list_engine last_db = {}"
    by (simp_all add: list_engine_def last_db_def)
  have row: "status last_try = PENDING" "attempts_made last_try = 1" "max_attempts last_try = 2" "event_id last_try = UUID 7"
    "scheduled_at last_try = 0" "locked_at last_try = None"
    by (simp_all add: last_try_def sample_event_def)
  have fair: "all_ready list_engine last_db" "within_budget last_try" "\<forall>e. benign (same_table list_engine) sample_publish e"
    "(3600::rat) \<le> LONGEST_DELAY"
    by (simp_all add: all_ready_def rows row within_budget_def lock_filter_def benign_def sample_publish_def table.frame_refl
        LONGEST_DELAY_def)
  have "\<not> commit_failed sample_result" "result_failed_noncounted sample_result = []" "remaining_event_ids sample_result = {}"
    by (simp_all add: sample_result_def)
  then have turn: "relay_turns list_engine sample_processor (lit ''w'') 10 1 (world_of last_db) s'"
    using relay_turns.turns [OF relay_turns.starts _ _ run, of list_engine s'] fair(1) by simp
  have "(\<forall>r\<in>#table_rows list_engine (w_db s'). status r \<noteq> PENDING) \<and>
    (\<forall>r\<in>#table_rows list_engine last_db. status r = PENDING \<longrightarrow> (\<exists>r'\<in>#table_rows list_engine (w_db s'). event_id r' = event_id r \<and>
      (status r' = COMPLETED \<and> (\<exists>e. event_id e = event_id r \<and> succeeds sample_publish e) \<or>
       status r' = FAILED \<and> attempts_made r' = max_attempts r)))"
    using outbox_drains [OF list_sql.sql_engine_axioms _ sample_repository_init sample_processor_created _ _ _ _ _ turn] fair
    by (simp add: rows row unique_ids_def)
  with run show ?thesis
    by (auto simp: rows row)
qed

end
