(* ===== verification/Spec2Isabelle.thy ===== *)
theory Spec2Isabelle
  imports Lifecycle Idempotence Refinement StepProps Cycle ConsumerProps KafkaProps DispatchProps ServiceProps Metrics
    TableProps Injection EndToEnd Drain
begin

text \<open>
  omni-box is a transactional outbox and inbox for PostgreSQL and Kafka. An application writes an \<open>OutboxEvent\<close> in the
  transaction that changes its data; a relay worker fetches due events under a lease, publishes them, and records
  each as completed or failed. On the other side a consumer turns every broker message into an \<open>InboxEvent\<close> row,
  runs a handler in the row's transaction, and commits the message or rewinds it. This development models that program
  (\<open>src/omni_box\<close>) and proves what it promises; the theories, in the order of the code's layers, are these.

  \<^bold>\<open>Entities and domain rules\<close> (\<open>core/models\<close>, \<open>core/services/domain.py\<close>, \<open>utils\<close>).
  \<^item> \<open>Prelude\<close>: code points, UUIDs as 128-bit words, instants in microseconds, exceptions (\<open>core/exceptions.py\<close>) as the
    datatype \<open>error\<close>, results \<open>'a res\<close> and computations \<open>('s, 'a) act\<close> that change a state and may raise.
  \<^item> \<open>Text\<close>: \<open>strip\<close>, UTF-8 and \<open>truncate_error\<close>. \<open>Backoff\<close>: \<open>utils/backoff.py\<close>.
  \<^item> \<open>Events\<close>: the event records, the validators in the order pydantic runs them, the invariants; the locale
    \<open>event_class\<close> states what \<open>model_validate\<close> of a class promises and is interpreted for both classes.
  \<^item> \<open>Domain\<close>: creation, lock, refresh, unlock, complete, fail. \<open>Lifecycle\<close>: validity after every transition, bounded
    attempts, terminal states, exclusive locks.
  \<^item> \<open>Dicts\<close>, \<open>Schemas\<close>: dictionaries in insertion order, \<open>BaseEventSchema\<close>'s registry and migrations.

  \<^bold>\<open>Storage\<close> (\<open>infra/storage/postgres\<close>).
  \<^item> \<open>Sql\<close>: what SQLAlchemy and the server are assumed to do, the locale \<open>sql_engine\<close>, interpreted on an executable list of
    rows. \<open>Repository\<close>, \<open>Creation\<close>: every method of \<open>repositories/{base,outbox,inbox}.py\<close>.
  \<^item> \<open>Tables\<close>, \<open>TableProps\<close>: \<open>orm.py\<close> - columns, check constraints as SQL conditions with three truth values, indexes - and
    that a valid event fits its table and each \<open>ON CONFLICT\<close> target has its unique index, or has none.
  \<^item> \<open>RowSteps\<close>: the machine of one row, a step relation every repository call is a run of. \<open>RepoProps\<close>, \<open>Fetching\<close>,
    \<open>Commits\<close>, \<open>Refinement\<close>, \<open>Idempotence\<close>: the row invariant, live locks, what a fetch hands out and in which order,
    ownership, bulk against single calls, the SQL updates against the domain service, idempotent creation.

  \<^bold>\<open>Processing\<close> (\<open>core/pipeline\<close>, \<open>core/services/{results,processor,maintenance}.py\<close>, \<open>application\<close>).
  \<^item> \<open>Pipeline\<close>, \<open>Steps\<close>, \<open>Processor\<close>: the batch context, the hooks, the seven steps, the fetch and commit strategies, the
    builder and the factories. A worker's state is a \<open>world\<close>: the database, the context, the clock and the random numbers
    to come, the breaker, spans and counters, and the list of what was told to the outside.
  \<^item> \<open>Quiet\<close>, \<open>Accounting\<close>: hooks that leave the record alone, and the locales \<open>db_frame\<close>, \<open>db_evidence\<close> and
    \<open>recorder\<close>: in every pipeline the factories build each event of a batch is recorded exactly once, as completed
    only on evidence of a success. \<open>StepProps\<close>: the breaker, dead letters, broker outages.
    \<open>Cycle\<close>: fetch, pipeline and commit composed over PostgreSQL (locale \<open>relay\<close>). \<open>Drain\<close>: cycle after cycle, until no row
    is pending.
  \<^item> \<open>Services\<close>, \<open>ServiceProps\<close>: maintenance, \<open>OutboxPublisher\<close>, the test helper. \<open>Metrics\<close>: the Prometheus collectors.

  \<^bold>\<open>Consuming and dispatching\<close> (\<open>application/services/consume.py\<close>, \<open>core/dispatch\<close>, \<open>infra/brokers\<close>, \<open>contrib\<close>).
  \<^item> \<open>Consumer\<close>: one message through the transaction, the broker commit, the rewind, the loop. \<open>Acknowledgement\<close>: whatever
    the collaborators do. \<open>ExactlyOnce\<close>: the locale \<open>transactional\<close> of transaction providers, interpreted on the list engine.
    \<open>ConsumerSample\<close>, \<open>ConsumerProps\<close>: concrete runs and the delivery guarantees. \<open>Effects\<close>: the locale \<open>effects\<close>, a log of
    what the handlers wrote in the same database: over every history of deliveries, failures and crashes it holds the
    effect of each completed message once.
  \<^item> \<open>Kafka\<close>, \<open>KafkaProps\<close>: publisher, consumer, converters; the locale \<open>aiokafka_consumer\<close> states what the client does and is
    interpreted on a log of records.
  \<^item> \<open>Delivery\<close>: the relay over Kafka from end to end, with the producer as the locale \<open>kafka_producer\<close>, interpreted on a broker
    that may be down: what a cycle completes can be read from the broker.
  \<^item> \<open>Stream\<close>: a consumer group over a partitioned log, as a step relation of handled messages, restarts and rebalances.
    The locale \<open>kafka_stream\<close> extends \<open>aiokafka_consumer\<close> by a log whose records do not change: what the committed
    offset has passed is in the inbox, with its effect. \<open>EndToEnd\<close>: the relay and such a group composed, from the outbox row
    to the handler's effect.
  \<^item> \<open>Dispatch\<close>, \<open>DispatchProps\<close>, \<open>Injection\<close>: the routers, with and without dishka, and the settings classes.

  \<^bold>\<open>Parameters and assumptions.\<close> Code outside the repository is an argument: the SQL engine, the transaction provider, handlers,
  publishers, DLQ stores, metrics collectors and tracers, the aiokafka clients, orjson, the dishka container. What is assumed
  of them is stated by the locales named above; handlers of the outbox relay are assumed to leave the table alone; those of the
  inbox are in the theorems on what is committed, and in no others. Deliveries follow one another there, each with its failures
  and crashes. An insert keeps the primary key unique, \<open>id\<close> on a plain table and \<open>(id, created_at)\<close> on a partitioned one; the
  theorems on what the consumer commits are about a plain inbox, and the table invariant holds of a partitioned table when no
  id is given to events of two creation times. The statements of one repository call run without interference: \<open>held_elsewhere\<close> stands for the rows
  that other transactions have locked at that time, and an advisory lock is always granted. JSONB returns what was sent.
  A statement may fail at any time. Partitions are not reassigned while a message is handled.

  \<^bold>\<open>Numbers.\<close> Python integers are \<open>int\<close>; float seconds are \<open>rat\<close>, without rounding, with the limits the code can hit: a
  \<open>timedelta\<close> has at most 999999999 days and \<open>2.0 ** attempt\<close> overflows from attempt 1024 on. Sizes
  are the source's constants. Loops are recursions on their remaining data or turns: \<open>release_stale_locks\<close> and
  \<open>cleanup_old_events\<close> have the source's \<open>max_iterations\<close>, and their theorems say how many are enough; the consumer
  loop is a recursion on the turns the caller grants before \<open>stop\<close>, and the search for a chain of migrations has a
  measure.

  \<^bold>\<open>Not modelled.\<close> Log messages and the texts of exceptions (except those that are stored), the semaphores and the lifecycle
  lock, which only delay calls, and \<open>asyncio\<close> cancellation other than as an exception; the reading of environment variables by
  pydantic-settings; the scopes of dishka; package initialisers, protocols without code, scripts and examples.
\<close>

end
